(* ===== verification/Prelude.thy ===== *)
theory Prelude
  imports Main "HOL-Library.Multiset"
begin

text \<open>
  Shared vocabulary of the development: the types every component uses (identifiers,
  instants), the collections of lemmas that drive the automation, the table operations that
  stand for the SQL statements (a table is the list of its rows in insertion order), and the
  generic facts about lists, options and sums the component proofs share.
\<close>

section \<open>Collections\<close>

named_theorems keeps_intros "rules for showing that a transaction keeps an invariant"
named_theorems run_simps "what a run of a transaction body that returned has done"
named_theorems eval_simps "evaluation of a transaction body in which no statement fails"
named_theorems table_simps "rewrite rules for the table operations"

section \<open>Basic types\<close>

text \<open>
  A uuid is its 128-bit value. Postgres and JavaScript both compare the lower-case
  hexadecimal text, which is the order of the values.
\<close>

type_synonym uuid = nat

text \<open>
  Postgres \<open>timestamptz\<close> is a count of microseconds, a JavaScript \<open>Date\<close> a count of
  milliseconds, both from 1970-01-01T00:00Z.
\<close>

type_synonym micros = int
type_synonym millis = int

text \<open>The driver turns a \<open>timestamptz\<close> into a \<open>Date\<close> by dropping the microseconds.\<close>

definition date_of_micros :: "micros \<Rightarrow> millis" where
  "date_of_micros t = t div 1000"

definition micros_of_date :: "millis \<Rightarrow> micros" where
  "micros_of_date t = t * 1000"

lemma date_of_micros_of_date [simp]: "date_of_micros (micros_of_date t) = t"
  by (simp add: date_of_micros_def micros_of_date_def)

text \<open>Signed 64-bit range, the range of a Postgres \<open>bigint\<close>.\<close>

definition int8_range :: "int \<Rightarrow> bool" where
  "int8_range n \<longleftrightarrow> - (2 ^ 63) \<le> n \<and> n < 2 ^ 63"

section \<open>Tables\<close>

text \<open>\<open>UPDATE t SET f WHERE P\<close>; its row count is \<open>count_where P\<close>.\<close>

definition upd_where :: "('r \<Rightarrow> bool) \<Rightarrow> ('r \<Rightarrow> 'r) \<Rightarrow> 'r list \<Rightarrow> 'r list" where
  "upd_where P f rs = map (\<lambda>r. if P r then f r else r) rs"

definition count_where :: "('r \<Rightarrow> bool) \<Rightarrow> 'r list \<Rightarrow> nat" where
  "count_where P rs = length (filter P rs)"

text \<open>The rows a data-modifying statement returns (\<open>RETURNING *\<close>): the new versions.\<close>

definition returning :: "('r \<Rightarrow> bool) \<Rightarrow> ('r \<Rightarrow> 'r) \<Rightarrow> 'r list \<Rightarrow> 'r list" where
  "returning P f rs = map f (filter P rs)"

text \<open>\<open>rows[0]\<close> of a result set: absent when no row matched.\<close>

definition first_row :: "'r list \<Rightarrow> 'r option" where
  "first_row rs = (case rs of [] \<Rightarrow> None | r # _ \<Rightarrow> Some r)"

definition select_first :: "('r \<Rightarrow> bool) \<Rightarrow> 'r list \<Rightarrow> 'r option" where
  "select_first P rs = first_row (filter P rs)"

text \<open>\<open>SUM\<close> over the matching rows, with the \<open>COALESCE(.., 0)\<close> the queries carry.\<close>

definition sum_where :: "('r \<Rightarrow> bool) \<Rightarrow> ('r \<Rightarrow> int) \<Rightarrow> 'r list \<Rightarrow> int" where
  "sum_where P v rs = sum_list (map v (filter P rs))"

lemma upd_where_Nil [simp]: "upd_where P f [] = []"
  by (simp add: upd_where_def)

lemma upd_where_Cons [simp]:
  "upd_where P f (r # rs) = (if P r then f r else r) # upd_where P f rs"
  by (simp add: upd_where_def)

lemma upd_where_append [simp]:
  "upd_where P f (rs @ qs) = upd_where P f rs @ upd_where P f qs"
  by (simp add: upd_where_def)

lemma length_upd_where [simp]: "length (upd_where P f rs) = length rs"
  by (simp add: upd_where_def)

lemma upd_where_id: "(\<And>r. r \<in> set rs \<Longrightarrow> \<not> P r) \<Longrightarrow> upd_where P f rs = rs"
  by (induction rs) auto

lemma set_upd_where:
  "set (upd_where P f rs) = {r \<in> set rs. \<not> P r} \<union> f ` {r \<in> set rs. P r}"
  by (auto simp: upd_where_def)

lemma map_upd_where:
  "(\<And>r. r \<in> set rs \<Longrightarrow> P r \<Longrightarrow> g (f r) = g r) \<Longrightarrow> map g (upd_where P f rs) = map g rs"
  by (induction rs) auto

lemma filter_upd_where:
  "(\<And>r. r \<in> set rs \<Longrightarrow> P r \<Longrightarrow> Q (f r) = Q r) \<Longrightarrow>
   filter Q (upd_where P f rs) = upd_where P f (filter Q rs)"
  by (induction rs) auto

lemma sum_where_Nil [simp]: "sum_where P v [] = 0"
  by (simp add: sum_where_def)

lemma sum_where_Cons [simp]:
  "sum_where P v (r # rs) = (if P r then v r else 0) + sum_where P v rs"
  by (simp add: sum_where_def)

lemma sum_where_append [simp]:
  "sum_where P v (rs @ qs) = sum_where P v rs + sum_where P v qs"
  by (simp add: sum_where_def)

lemma sum_where_none: "(\<And>r. r \<in> set rs \<Longrightarrow> \<not> P r) \<Longrightarrow> sum_where P v rs = 0"
  by (induction rs) auto

lemma sum_where_nonneg: "(\<And>r. r \<in> set rs \<Longrightarrow> P r \<Longrightarrow> 0 \<le> v r) \<Longrightarrow> 0 \<le> sum_where P v rs"
  by (induction rs) auto

lemma sum_where_mono:
  "(\<And>r. r \<in> set rs \<Longrightarrow> P r \<Longrightarrow> Q r) \<Longrightarrow> (\<And>r. r \<in> set rs \<Longrightarrow> Q r \<Longrightarrow> 0 \<le> v r) \<Longrightarrow>
   sum_where P v rs \<le> sum_where Q v rs"
  by (induction rs) (fastforce simp: add_mono)+

lemma select_first_Nil [simp]: "select_first P [] = None"
  by (simp add: select_first_def first_row_def)

lemma select_first_Cons [simp]:
  "select_first P (r # rs) = (if P r then Some r else select_first P rs)"
  by (simp add: select_first_def first_row_def)

lemma select_first_append:
  "select_first P (rs @ qs) =
     (case select_first P rs of None \<Rightarrow> select_first P qs | Some r \<Rightarrow> Some r)"
  by (induction rs) auto

lemma select_first_SomeD: "select_first P rs = Some r \<Longrightarrow> r \<in> set rs \<and> P r"
  by (induction rs) (auto split: if_splits)

lemma select_first_None_iff: "select_first P rs = None \<longleftrightarrow> (\<forall>r\<in>set rs. \<not> P r)"
  by (induction rs) auto

lemma select_first_upd_where:
  "(\<And>r. r \<in> set rs \<Longrightarrow> U r \<Longrightarrow> P (f r) = P r) \<Longrightarrow>
   select_first P (upd_where U f rs) =
     map_option (\<lambda>r. if U r then f r else r) (select_first P rs)"
  by (induction rs) auto

lemma count_where_Nil [simp]: "count_where P [] = 0"
  by (simp add: count_where_def)

lemma count_where_Cons [simp]:
  "count_where P (r # rs) = (if P r then 1 else 0) + count_where P rs"
  by (simp add: count_where_def)

lemma count_where_append [simp]:
  "count_where P (rs @ qs) = count_where P rs + count_where P qs"
  by (simp add: count_where_def)

lemma count_where_0_iff: "count_where P rs = 0 \<longleftrightarrow> (\<forall>r\<in>set rs. \<not> P r)"
  by (induction rs) auto

section \<open>Keyed tables\<close>

text \<open>
  A table with a primary key: the key function is injective on the rows. One row is then the
  answer to a lookup by key, and an update by key touches that row only.
\<close>

definition keyed :: "('r \<Rightarrow> 'k) \<Rightarrow> 'r list \<Rightarrow> bool" where
  "keyed k rs \<longleftrightarrow> distinct (map k rs)"

lemma keyed_Nil [simp]: "keyed k []"
  by (simp add: keyed_def)

lemma keyed_append1: "keyed k (rs @ [r]) \<longleftrightarrow> keyed k rs \<and> (\<forall>q\<in>set rs. k q \<noteq> k r)"
  by (auto simp: keyed_def image_iff)

lemma keyed_upd_where:
  "(\<And>r. P r \<Longrightarrow> k (f r) = k r) \<Longrightarrow> keyed k (upd_where P f rs) \<longleftrightarrow> keyed k rs"
  by (simp add: keyed_def map_upd_where)

lemma keyed_inj: "keyed k rs \<Longrightarrow> r \<in> set rs \<Longrightarrow> q \<in> set rs \<Longrightarrow> k r = k q \<Longrightarrow> r = q"
  by (auto simp: keyed_def distinct_map dest: inj_onD)

lemma select_first_key:
  "keyed k rs \<Longrightarrow> r \<in> set rs \<Longrightarrow> select_first (\<lambda>q. k q = k r) rs = Some r"
proof (induction rs)
  case (Cons q rs)
  then show ?case
    by (cases "q = r") (auto simp: keyed_def image_iff)
qed simp

text \<open>An update of the one row with a given key changes a sum by the change of that row.\<close>

lemma sum_list_upd_key:
  assumes "keyed k rs" and "r \<in> set rs"
  shows "sum_list (map v (upd_where (\<lambda>q. k q = k r) f rs)) =
           sum_list (map v rs) + (v (f r) - (v r :: int))"
  using assms
proof (induction rs)
  case (Cons q rs)
  show ?case
  proof (cases "q = r")
    case True
    with Cons.prems(1) have "upd_where (\<lambda>q. k q = k r) f rs = rs"
      by (intro upd_where_id) (auto simp: keyed_def image_iff)
    with True show ?thesis by simp
  next
    case False
    with Cons.prems have "keyed k rs" "r \<in> set rs" "k q \<noteq> k r"
      by (auto simp: keyed_def)
    with Cons.IH show ?thesis by simp
  qed
qed simp

text \<open>The same for a count.\<close>

lemma count_upd_key:
  assumes "keyed k rs" and "r \<in> set rs"
  shows "count_where P (upd_where (\<lambda>q. k q = k r) f rs) + (if P r then 1 else 0) =
           count_where P rs + (if P (f r) then 1 else 0)"
  using assms
proof (induction rs)
  case (Cons q rs)
  show ?case
  proof (cases "q = r")
    case True
    with Cons.prems(1) have "upd_where (\<lambda>q. k q = k r) f rs = rs"
      by (intro upd_where_id) (auto simp: keyed_def image_iff)
    with True show ?thesis by simp
  next
    case False
    with Cons.prems have "keyed k rs" "r \<in> set rs" "k q \<noteq> k r"
      by (auto simp: keyed_def)
    with Cons.IH show ?thesis by simp
  qed
qed simp

lemma count_where_upd:
  "(\<And>r. r \<in> set rs \<Longrightarrow> U r \<Longrightarrow> P (f r) = P r) \<Longrightarrow> count_where P (upd_where U f rs) = count_where P rs"
  by (induction rs) auto

section \<open>Lists\<close>

lemma sum_list_replicate_int: "sum_list (replicate n (x::int)) = int n * x"
  by (induction n) (auto simp: algebra_simps)

lemma sum_list_map_add_int:
  "sum_list (map (\<lambda>x. f x + g x) xs) = sum_list (map f xs) + (sum_list (map g xs) :: int)"
  by (induction xs) auto

lemma foldl_sum: "foldl (+) a xs = a + (sum_list xs :: int)"
  by (induction xs arbitrary: a) auto

lemma foldr_sum: "foldr (+) xs a = sum_list xs + (a :: int)"
  by (induction xs) auto

end
