(* ===== verification/Js_Text.thy ===== *)
theory Js_Text
  imports Prelude
begin

text \<open>
  The part of JavaScript's text and number library the program uses: decimal printing and
  reading of \<open>bigint\<close>, the digit tests of the regular expressions, \<open>trim\<close>, \<open>padStart\<close>,
  \<open>padEnd\<close>, \<open>lastIndexOf\<close>. A string is the list of its characters (code units below 256).
\<close>

section \<open>Digits\<close>

definition digit_char :: "nat \<Rightarrow> char" where
  "digit_char n = char_of (48 + n)"

definition is_digit :: "char \<Rightarrow> bool" where
  "is_digit c \<longleftrightarrow> 48 \<le> (of_char c :: nat) \<and> (of_char c :: nat) \<le> 57"

definition digit_val :: "char \<Rightarrow> nat" where
  "digit_val c = of_char c - 48"

lemma of_char_digit_char: "n < 10 \<Longrightarrow> of_char (digit_char n) = 48 + n"
  by (simp add: digit_char_def)

lemma is_digit_digit_char [simp]: "n < 10 \<Longrightarrow> is_digit (digit_char n)"
  by (simp add: is_digit_def of_char_digit_char)

lemma digit_val_digit_char [simp]: "n < 10 \<Longrightarrow> digit_val (digit_char n) = n"
  by (simp add: digit_val_def of_char_digit_char)

lemma digit_char_digit_val: "is_digit c \<Longrightarrow> digit_char (digit_val c) = c"
  by (simp add: digit_char_def digit_val_def is_digit_def)

lemma digit_val_less: "is_digit c \<Longrightarrow> digit_val c < 10"
  by (auto simp: digit_val_def is_digit_def)

text \<open>\<open>/^\<backslash>d+$/\<close>.\<close>

definition all_digits :: "string \<Rightarrow> bool" where
  "all_digits s \<longleftrightarrow> s \<noteq> [] \<and> list_all is_digit s"

text \<open>Decimal text of a natural number, and its value.\<close>

fun nat_text :: "nat \<Rightarrow> string" where
  "nat_text n = (if n < 10 then [digit_char n] else nat_text (n div 10) @ [digit_char (n mod 10)])"

declare nat_text.simps [simp del]

definition digits_val :: "string \<Rightarrow> nat" where
  "digits_val s = foldl (\<lambda>a c. a * 10 + digit_val c) 0 s"

lemma digits_val_Nil [simp]: "digits_val [] = 0"
  by (simp add: digits_val_def)

lemma digits_val_snoc [simp]: "digits_val (s @ [c]) = digits_val s * 10 + digit_val c"
  by (simp add: digits_val_def)

lemma digits_val_single [simp]: "digits_val [c] = digit_val c"
  by (simp add: digits_val_def)

lemma digits_val_append: "digits_val (s @ t) = digits_val s * 10 ^ length t + digits_val t"
proof (induction t rule: rev_induct)
  case (snoc c t)
  have "digits_val (s @ t @ [c]) = digits_val (s @ t) * 10 + digit_val c"
    by (simp flip: append_assoc)
  with snoc.IH show ?case by (simp add: algebra_simps)
qed simp

lemma digits_val_Cons: "digits_val (c # s) = digit_val c * 10 ^ length s + digits_val s"
  using digits_val_append [of "[c]" s] by simp

lemma nat_text_nonempty [simp]: "nat_text n \<noteq> []"
  by (subst nat_text.simps) simp

lemma nat_text_digits: "list_all is_digit (nat_text n)"
proof (induction n rule: nat_text.induct)
  case (1 n)
  show ?case
    by (subst nat_text.simps) (use 1 in auto)
qed

lemma all_digits_nat_text [simp]: "all_digits (nat_text n)"
  by (simp add: all_digits_def nat_text_digits)

lemma digits_val_nat_text [simp]: "digits_val (nat_text n) = n"
proof (induction n rule: nat_text.induct)
  case (1 n)
  show ?case
    by (subst nat_text.simps) (use 1 in auto)
qed

lemma digits_val_bound: "list_all is_digit s \<Longrightarrow> digits_val s < 10 ^ length s"
proof (induction s rule: rev_induct)
  case (snoc c s)
  then have "digits_val s < 10 ^ length s" and "digit_val c < 10"
    by (auto dest: digit_val_less)
  then show ?case by simp
qed simp

lemma nat_text_inj: "nat_text m = nat_text n \<Longrightarrow> m = n"
  by (metis digits_val_nat_text)

lemma length_nat_text_le: "n < 10 ^ k \<Longrightarrow> 0 < k \<Longrightarrow> length (nat_text n) \<le> k"
proof (induction n arbitrary: k rule: nat_text.induct)
  case (1 n)
  show ?case
  proof (cases "n < 10")
    case True
    with "1.prems" show ?thesis by (subst nat_text.simps) simp
  next
    case False
    from "1.prems" obtain j where k: "k = Suc j" by (cases k) auto
    with False "1.prems" have j: "0 < j" by (cases j) auto
    from "1.prems" k have "n div 10 < 10 ^ j" by (auto simp: less_mult_imp_div_less mult.commute)
    with "1.IH" [OF False, of j] j have "length (nat_text (n div 10)) \<le> j" by simp
    with False k show ?thesis by (subst nat_text.simps) simp
  qed
qed

text \<open>Digit texts of one length are determined by their value.\<close>

lemma digits_val_inj:
  "length s = length t \<Longrightarrow> list_all is_digit s \<Longrightarrow> list_all is_digit t \<Longrightarrow>
   digits_val s = digits_val t \<Longrightarrow> s = t"
proof (induction s arbitrary: t rule: rev_induct)
  case (snoc c s)
  then obtain d u where t: "t = u @ [d]" by (cases t rule: rev_cases) auto
  have "digits_val s * 10 + digit_val c = digits_val u * 10 + digit_val d"
    using snoc.prems t by simp
  moreover have "digit_val c < 10" "digit_val d < 10"
    using snoc.prems t by (auto dest: digit_val_less)
  ultimately have "digits_val s = digits_val u" "digit_val c = digit_val d" by arith+
  moreover have "is_digit c" "is_digit d" using snoc.prems t by auto
  ultimately have "c = d" by (metis digit_char_digit_val)
  with snoc t \<open>digits_val s = digits_val u\<close> show ?case by simp
qed simp

section \<open>Integers\<close>

text \<open>\<open>BigInt.prototype.toString\<close>, and \<open>BigInt(s)\<close> on a text of an optional minus and digits.\<close>

definition int_text :: "int \<Rightarrow> string" where
  "int_text n = (if n < 0 then CHR ''-'' # nat_text (nat (- n)) else nat_text (nat n))"

text \<open>\<open>/^-?\<backslash>d+$/\<close>.\<close>

definition is_int_text :: "string \<Rightarrow> bool" where
  "is_int_text s =
     (case s of [] \<Rightarrow> False | c # t \<Rightarrow> (if c = CHR ''-'' then all_digits t else all_digits s))"

definition big_int :: "string \<Rightarrow> int" where
  "big_int s =
     (case s of [] \<Rightarrow> 0
      | c # t \<Rightarrow> (if c = CHR ''-'' then - int (digits_val t) else int (digits_val s)))"

lemma not_digit_minus [simp]: "\<not> is_digit CHR ''-''"
  by (simp add: is_digit_def)

lemma all_digits_hd: "all_digits s \<Longrightarrow> \<exists>c t. s = c # t \<and> is_digit c"
  by (cases s) (auto simp: all_digits_def)

lemma int_text_is_int_text [simp]: "is_int_text (int_text n)"
proof -
  obtain c t where "nat_text (nat n) = c # t" "is_digit c"
    using all_digits_hd [OF all_digits_nat_text] by blast
  moreover have "all_digits (nat_text (nat n))" by simp
  ultimately show ?thesis by (auto simp: int_text_def is_int_text_def)
qed

lemma big_int_int_text [simp]: "big_int (int_text n) = n"
proof -
  obtain c t where "nat_text (nat n) = c # t" "is_digit c"
    using all_digits_hd [OF all_digits_nat_text] by blast
  then show ?thesis
    using digits_val_nat_text [of "nat n"] by (auto simp: int_text_def big_int_def)
qed

lemma int_text_nonempty [simp]: "int_text n \<noteq> []"
  by (simp add: int_text_def)

lemma int_text_inj: "int_text m = int_text n \<Longrightarrow> m = n"
  by (metis big_int_int_text)

section \<open>Text operations\<close>

text \<open>The white space \<open>String.prototype.trim\<close> removes (code units below 256).\<close>

definition js_space :: "char \<Rightarrow> bool" where
  "js_space c \<longleftrightarrow> (of_char c :: nat) \<in> {9, 10, 11, 12, 13, 32, 160}"

definition js_trim :: "string \<Rightarrow> string" where
  "js_trim s = rev (dropWhile js_space (rev (dropWhile js_space s)))"

lemma not_space_digit: "is_digit c \<Longrightarrow> \<not> js_space c"
  by (auto simp: is_digit_def js_space_def)

lemma not_space_minus [simp]: "\<not> js_space CHR ''-''"
  by (simp add: js_space_def)

lemma js_trim_id:
  "s \<noteq> [] \<Longrightarrow> \<not> js_space (hd s) \<Longrightarrow> \<not> js_space (last s) \<Longrightarrow> js_trim s = s"
proof -
  assume s: "s \<noteq> []" "\<not> js_space (hd s)" "\<not> js_space (last s)"
  then have "dropWhile js_space s = s" by (simp add: dropWhile_eq_self_iff)
  moreover from s have "dropWhile js_space (rev s) = rev s"
    by (simp add: dropWhile_eq_self_iff hd_rev)
  ultimately show ?thesis by (simp add: js_trim_def)
qed

lemma list_all_last: "list_all P s \<Longrightarrow> s \<noteq> [] \<Longrightarrow> P (last s)"
  by (induction s) auto

lemma js_trim_int_text [simp]: "js_trim (int_text n) = int_text n"
proof (rule js_trim_id)
  obtain c t where "nat_text (nat n) = c # t" "is_digit c"
    using all_digits_hd [OF all_digits_nat_text] by blast
  then show "\<not> js_space (hd (int_text n))"
    by (auto simp: int_text_def not_space_digit)
  have "is_digit (last (nat_text m))" for m
    using list_all_last [OF nat_text_digits] by simp
  then show "\<not> js_space (last (int_text n))"
    by (simp add: int_text_def not_space_digit)
qed simp

text \<open>\<open>padStart(n, '0')\<close> and \<open>padEnd(n, '0')\<close>.\<close>

definition pad_start :: "nat \<Rightarrow> string \<Rightarrow> string" where
  "pad_start n s = replicate (n - length s) (CHR ''0'') @ s"

definition pad_end :: "nat \<Rightarrow> string \<Rightarrow> string" where
  "pad_end n s = s @ replicate (n - length s) (CHR ''0'')"

lemma digit_zero [simp]: "is_digit CHR ''0''" "digit_val CHR ''0'' = 0"
  by (simp_all add: is_digit_def digit_val_def)

lemma length_pad_start: "length s \<le> n \<Longrightarrow> length (pad_start n s) = n"
  by (simp add: pad_start_def)

lemma pad_start_digits: "list_all is_digit s \<Longrightarrow> list_all is_digit (pad_start n s)"
  by (auto simp: pad_start_def list_all_iff)

lemma digits_val_replicate0 [simp]: "digits_val (replicate n CHR ''0'') = 0"
  by (induction n) (auto simp: digits_val_Cons)

lemma digits_val_pad_start [simp]: "digits_val (pad_start n s) = digits_val s"
  by (simp add: pad_start_def digits_val_append)

text \<open>Fixed-width decimal: \<open>String(n).padStart(k, '0')\<close>.\<close>

definition fixed :: "nat \<Rightarrow> nat \<Rightarrow> string" where
  "fixed k n = pad_start k (nat_text n)"

lemma length_fixed: "n < 10 ^ k \<Longrightarrow> 0 < k \<Longrightarrow> length (fixed k n) = k"
  by (simp add: fixed_def length_pad_start length_nat_text_le)

lemma fixed_digits [simp]: "list_all is_digit (fixed k n)"
  by (simp add: fixed_def pad_start_digits nat_text_digits)

lemma digits_val_fixed [simp]: "digits_val (fixed k n) = n"
  by (simp add: fixed_def)

lemma fixed_nonempty [simp]: "fixed k n \<noteq> []"
  by (simp add: fixed_def pad_start_def)

text \<open>\<open>lastIndexOf\<close> of a character, with -1 for "absent" written as \<open>None\<close>.\<close>

definition last_index_of :: "char \<Rightarrow> string \<Rightarrow> nat option" where
  "last_index_of c s =
     (if c \<in> set s then Some (length s - 1 - length (takeWhile (\<lambda>d. d \<noteq> c) (rev s))) else None)"

lemma last_index_of_append:
  assumes "c \<notin> set t"
  shows "last_index_of c (s @ c # t) = Some (length s)"
proof -
  have "takeWhile (\<lambda>d. d \<noteq> c) (rev t @ c # rev s) = rev t"
    using assms by (subst takeWhile_append2) auto
  then show ?thesis by (simp add: last_index_of_def)
qed

text \<open>\<open>indexOf\<close> of a character.\<close>

definition index_of :: "char \<Rightarrow> string \<Rightarrow> nat option" where
  "index_of c s = (if c \<in> set s then Some (length (takeWhile (\<lambda>d. d \<noteq> c) s)) else None)"

lemma index_of_append: "c \<notin> set s \<Longrightarrow> index_of c (s @ c # t) = Some (length s)"
  by (simp add: index_of_def) (subst takeWhile_append2, auto)

end
