(* ===== verification/Json.thy ===== *)
theory Json
  imports Js_Text "HOL-Library.List_Lexorder" "HOL-Library.Char_ord"
begin

text \<open>
  JavaScript values as far as they travel in request bodies, responses and event payloads, and
  \<open>JSON.stringify\<close> on them. An object is the list of its own properties in insertion order;
  \<open>JUndef\<close> is a property whose value is \<open>undefined\<close>; a number is kept as its literal, since
  amounts cross the wire as strings and counts are small integers. Characters are code units
  below 256.
\<close>

datatype json =
    JUndef
  | JNull
  | JBool bool
  | JNum string
  | JStr string
  | JArr "json list"
  | JObj "(string \<times> json) list"

abbreviation jint :: "int \<Rightarrow> json" where
  "jint n \<equiv> JNum (int_text n)"

text \<open>\<open>x ?? null\<close> on an optional text.\<close>

definition jopt :: "string option \<Rightarrow> json" where
  "jopt x = (case x of None \<Rightarrow> JNull | Some s \<Rightarrow> JStr s)"

text \<open>Reading a property (\<open>undefined\<close> when absent) and the types the handlers test for.\<close>

definition jget :: "string \<Rightarrow> json \<Rightarrow> json" where
  "jget k v =
     (case v of JObj ms \<Rightarrow> (case map_of ms k of None \<Rightarrow> JUndef | Some w \<Rightarrow> w) | _ \<Rightarrow> JUndef)"

definition jstr :: "json \<Rightarrow> string option" where
  "jstr v = (case v of JStr s \<Rightarrow> Some s | _ \<Rightarrow> None)"

definition jnull :: "json \<Rightarrow> bool" where
  "jnull v \<longleftrightarrow> v = JNull \<or> v = JUndef"

lemma jget_JObj [simp]:
  "jget k (JObj ms) = (case map_of ms k of None \<Rightarrow> JUndef | Some w \<Rightarrow> w)"
  by (simp add: jget_def)

lemma jstr_JStr [simp]: "jstr (JStr s) = Some s" "jstr JNull = None" "jstr JUndef = None"
  by (simp_all add: jstr_def)

section \<open>Texts\<close>

text \<open>\<open>Array.prototype.join(',')\<close>.\<close>

fun comma_join :: "string list \<Rightarrow> string" where
  "comma_join [] = []"
| "comma_join [x] = x"
| "comma_join (x # y # xs) = x @ CHR '','' # comma_join (y # xs)"

definition hex_char :: "nat \<Rightarrow> char" where
  "hex_char n = (if n < 10 then digit_char n else char_of (87 + n))"

text \<open>The quoting of \<open>JSON.stringify\<close>.\<close>

definition json_escape :: "char \<Rightarrow> string" where
  "json_escape c =
     (let n = of_char c :: nat in
      if n = 34 then [CHR 0x5C, CHR 0x22]
      else if n = 92 then [CHR 0x5C, CHR 0x5C]
      else if n = 8 then [CHR 0x5C, CHR ''b'']
      else if n = 9 then [CHR 0x5C, CHR ''t'']
      else if n = 10 then [CHR 0x5C, CHR ''n'']
      else if n = 12 then [CHR 0x5C, CHR ''f'']
      else if n = 13 then [CHR 0x5C, CHR ''r'']
      else if n < 32
      then [CHR 0x5C, CHR ''u'', CHR ''0'', CHR ''0'', hex_char (n div 16), hex_char (n mod 16)]
      else [c])"

definition json_string :: "string \<Rightarrow> string" where
  "json_string s = CHR 0x22 # concat (map json_escape s) @ [CHR 0x22]"

text \<open>
  \<open>JSON.stringify\<close>: \<open>undefined\<close> members are left out of objects and are \<open>null\<close> in arrays.
  At the top level \<open>JSON.stringify(undefined)\<close> is \<open>undefined\<close>; no caller passes it.
\<close>

fun json_text :: "json \<Rightarrow> string"
  and json_elems :: "json list \<Rightarrow> string list"
  and json_members :: "(string \<times> json) list \<Rightarrow> string list" where
  "json_text JUndef = ''null''"
| "json_text JNull = ''null''"
| "json_text (JBool b) = (if b then ''true'' else ''false'')"
| "json_text (JNum s) = s"
| "json_text (JStr s) = json_string s"
| "json_text (JArr vs) = CHR ''['' # comma_join (json_elems vs) @ '']''"
| "json_text (JObj ms) = CHR ''{'' # comma_join (json_members ms) @ ''}''"
| "json_elems [] = []"
| "json_elems (v # vs) = json_text v # json_elems vs"
| "json_members [] = []"
| "json_members ((k, v) # ms) =
     (if v = JUndef then json_members ms
      else (json_string k @ CHR '':'' # json_text v) # json_members ms)"

section \<open>Reading quoted strings back\<close>

text \<open>
  The reader of \<open>JSON.parse\<close> for what \<open>json_string\<close> writes. It shows where a quoted string
  ends inside a longer text, so that quoting is injective also when more text follows.
\<close>

definition hex_val :: "char \<Rightarrow> nat" where
  "hex_val c =
     (if is_digit c then digit_val c
      else if 97 \<le> (of_char c :: nat) then of_char c - 87 else of_char c - 55)"

definition unescape :: "string \<Rightarrow> char \<times> string" where
  "unescape s =
     (case s of
        [] \<Rightarrow> (CHR 0x22, [])
      | c # t \<Rightarrow>
          if (of_char c :: nat) \<noteq> 92 then (c, t)
          else (case t of
              [] \<Rightarrow> (c, [])
            | e # u \<Rightarrow>
                (let k = of_char e :: nat in
                 if k = 117 then (char_of (hex_val (u ! 2) * 16 + hex_val (u ! 3)), drop 4 u)
                 else (if k = 98 then char_of (8::nat) else if k = 116 then char_of (9::nat)
                       else if k = 110 then char_of (10::nat) else if k = 102 then char_of (12::nat)
                       else if k = 114 then char_of (13::nat) else e, u))))"

lemma hex_val_hex_char: "n < 16 \<Longrightarrow> hex_val (hex_char n) = n"
  by (cases "n < 10") (auto simp: hex_val_def hex_char_def is_digit_def digit_char_def digit_val_def)

lemma unescape_escape: "unescape (json_escape c @ r) = (c, r)"
proof -
  obtain n where c: "c = char_of (n :: nat)" "n < 256" by (metis char_of_char nat_of_char_less_256)
  then have n: "(of_char c :: nat) = n" by simp
  consider "n \<in> {34, 92, 8, 9, 10, 12, 13}" | "n < 32" "n \<notin> {8, 9, 10, 12, 13}"
    | "32 \<le> n" "n \<noteq> 34" "n \<noteq> 92" by force
  then show ?thesis
  proof cases
    case 1
    have "char_of (34 :: nat) = CHR 0x22" "char_of (92 :: nat) = CHR 0x5C"
      by (simp_all add: char_of_def bit_0)
    with 1 show ?thesis
      by (elim insertE emptyE) (simp_all add: json_escape_def unescape_def n c(1))
  next
    case 2
    then have "n div 16 < 16" "n mod 16 < 16" "n \<noteq> 34" "n \<noteq> 92" by auto
    with 2 show ?thesis
      by (simp add: json_escape_def unescape_def n hex_val_hex_char) (simp add: c(1))
  next
    case 3
    then show ?thesis by (simp add: json_escape_def unescape_def n)
  qed
qed

lemma json_escape_inj: "json_escape c @ r = json_escape d @ s \<Longrightarrow> c = d \<and> r = s"
  by (metis prod.inject unescape_escape)

lemma json_escape_shape: "\<exists>e t. json_escape c = e # t \<and> e \<noteq> CHR 0x22"
proof -
  have "c \<noteq> CHR 0x22" if "(of_char c :: nat) \<noteq> 34" using that by auto
  then show ?thesis by (auto simp: json_escape_def Let_def)
qed

lemma escaped_inj:
  "concat (map json_escape s) @ CHR 0x22 # r = concat (map json_escape t) @ CHR 0x22 # q \<Longrightarrow>
   s = t \<and> r = q"
proof (induction s arbitrary: t)
  case Nil
  then show ?case using json_escape_shape by (cases t) (auto, (metis append_Cons list.inject)+)
next
  case (Cons c s)
  show ?case
  proof (cases t)
    case Nil
    with Cons.prems json_escape_shape [of c] show ?thesis by auto
  next
    case (Cons d u)
    with Cons.prems have "json_escape c @ concat (map json_escape s) @ CHR 0x22 # r =
        json_escape d @ concat (map json_escape u) @ CHR 0x22 # q" by simp
    from json_escape_inj [OF this] Cons.IH [of u] Cons show ?thesis by simp
  qed
qed

lemma json_string_inj: "json_string s @ r = json_string t @ q \<Longrightarrow> s = t \<and> r = q"
  by (rule escaped_inj) (simp add: json_string_def)

end
