(* ===== verification/Database.thy ===== *)
theory Database
  imports Prelude Json
begin

text \<open>
  The schema of \<open>backend/migrations\<close> as the code's statements see it: one record per table row,
  a database as the lists of rows in insertion order, and the configuration of
  \<open>config/index.ts\<close>. \<open>gen_random_uuid()\<close> never returns a value in use; it is the next number
  above every id handed out so far. The treasury stripes are the ids 1 to 8 of the migrations.
  Columns no statement of the model reads (\<open>updated_at\<close>, \<open>shard_key\<close>) are left out.
\<close>

section \<open>Enumerations\<close>

datatype account_type = USER | SYSTEM
datatype account_status = A_ACTIVE | A_FROZEN | A_CLOSED
datatype user_status = U_ACTIVE | U_SUSPENDED
datatype transfer_status = T_COMPLETED | T_REVERSED
datatype transfer_type = P2P | MINT | REQUEST_SETTLEMENT | REVERSAL | SCHEDULED
datatype entry_direction = DEBIT | CREDIT
datatype request_status = R_PENDING | R_ACCEPTED | R_DECLINED | R_CANCELLED | R_EXPIRED
datatype outbox_status = X_PENDING | X_PROCESSED | X_FAILED
datatype schedule_status = S_ACTIVE | S_PAUSED | S_COMPLETED | S_CANCELLED
datatype schedule_interval = ONCE | DAILY | WEEKLY | MONTHLY
datatype occurrence_status = O_PENDING | O_PAID | O_FAILED | O_SKIPPED
datatype idem_state = IN_PROGRESS | COMPLETED

fun type_text :: "transfer_type \<Rightarrow> string" where
  "type_text P2P = ''P2P''"
| "type_text MINT = ''MINT''"
| "type_text REQUEST_SETTLEMENT = ''REQUEST_SETTLEMENT''"
| "type_text REVERSAL = ''REVERSAL''"
| "type_text SCHEDULED = ''SCHEDULED''"

fun account_status_text :: "account_status \<Rightarrow> string" where
  "account_status_text A_ACTIVE = ''ACTIVE''"
| "account_status_text A_FROZEN = ''FROZEN''"
| "account_status_text A_CLOSED = ''CLOSED''"

fun transfer_status_text :: "transfer_status \<Rightarrow> string" where
  "transfer_status_text T_COMPLETED = ''COMPLETED''"
| "transfer_status_text T_REVERSED = ''REVERSED''"

fun request_status_text :: "request_status \<Rightarrow> string" where
  "request_status_text R_PENDING = ''PENDING''"
| "request_status_text R_ACCEPTED = ''ACCEPTED''"
| "request_status_text R_DECLINED = ''DECLINED''"
| "request_status_text R_CANCELLED = ''CANCELLED''"
| "request_status_text R_EXPIRED = ''EXPIRED''"

fun schedule_status_text :: "schedule_status \<Rightarrow> string" where
  "schedule_status_text S_ACTIVE = ''ACTIVE''"
| "schedule_status_text S_PAUSED = ''PAUSED''"
| "schedule_status_text S_COMPLETED = ''COMPLETED''"
| "schedule_status_text S_CANCELLED = ''CANCELLED''"

fun interval_text :: "schedule_interval \<Rightarrow> string" where
  "interval_text ONCE = ''ONCE''"
| "interval_text DAILY = ''DAILY''"
| "interval_text WEEKLY = ''WEEKLY''"
| "interval_text MONTHLY = ''MONTHLY''"

section \<open>Rows\<close>

record user_row =
  u_id :: uuid
  u_phone :: string
  u_name :: string
  u_password_hash :: string
  u_pin_hash :: string
  u_failed_pin_attempts :: int
  u_pin_locked_until :: "micros option"
  u_status :: user_status
  u_created_at :: micros

record account_row =
  a_id :: uuid
  a_user_id :: "uuid option"
  a_type :: account_type
  a_status :: account_status
  a_balance_minor :: int
  a_version :: int

record transfer_row =
  t_id :: uuid
  t_reference :: string
  t_from_account_id :: uuid
  t_to_account_id :: uuid
  t_amount_minor :: int
  t_type :: transfer_type
  t_status :: transfer_status
  t_note :: "string option"
  t_idempotency_key_id :: "uuid option"
  t_reversal_of :: "uuid option"
  t_created_at :: micros

record entry_row =
  e_id :: nat
  e_transfer_id :: uuid
  e_account_id :: uuid
  e_direction :: entry_direction
  e_amount_minor :: int
  e_balance_after :: int
  e_created_at :: micros

record idem_row =
  k_id :: uuid
  k_user_id :: uuid
  k_key :: string
  k_endpoint :: string
  k_request_hash :: string
  k_state :: idem_state
  k_response_status :: "int option"
  k_response_body :: "json option"
  k_created_at :: micros

record request_row =
  r_id :: uuid
  r_parent_request_id :: "uuid option"
  r_requester_user_id :: uuid
  r_payer_user_id :: uuid
  r_amount_minor :: int
  r_note :: "string option"
  r_status :: request_status
  r_expires_at :: micros
  r_settled_transfer_id :: "uuid option"
  r_decline_reason :: "string option"
  r_version :: int
  r_created_at :: micros
  r_split_id :: "uuid option"

record split_row =
  b_id :: uuid
  b_creator_user_id :: uuid
  b_total_amount_minor :: int
  b_description :: string
  b_participant_count :: int
  b_created_at :: micros

record schedule_row =
  s_id :: uuid
  s_owner_user_id :: uuid
  s_payee_user_id :: uuid
  s_amount_minor :: int
  s_note :: "string option"
  s_interval_kind :: schedule_interval
  s_next_run_at :: micros
  s_remaining_runs :: "int option"
  s_status :: schedule_status
  s_last_run_at :: "micros option"
  s_retry_after :: "micros option"
  s_created_at :: micros

record occurrence_row =
  o_id :: uuid
  o_schedule_id :: uuid
  o_occurrence_key :: string
  o_due_at :: micros
  o_status :: occurrence_status
  o_transfer_id :: "uuid option"
  o_failure_reason :: "string option"
  o_attempts :: int
  o_completed_at :: "micros option"

record outbox_row =
  x_id :: uuid
  x_event_type :: string
  x_aggregate_type :: string
  x_aggregate_id :: uuid
  x_payload :: json
  x_status :: outbox_status
  x_attempts :: int
  x_last_error :: "string option"
  x_next_attempt_at :: micros
  x_created_at :: micros

record notification_row =
  n_id :: uuid
  n_user_id :: uuid
  n_event_id :: uuid
  n_type :: string
  n_payload :: json
  n_created_at :: micros
  n_read_at :: "micros option"

record token_row =
  rt_id :: uuid
  rt_user_id :: uuid
  rt_family_id :: uuid
  rt_token_hash :: string
  rt_expires_at :: micros
  rt_revoked_at :: "micros option"
  rt_replaced_by :: "uuid option"
  rt_created_at :: micros

record audit_row =
  l_id :: nat
  l_actor_user_id :: "uuid option"
  l_action :: string
  l_entity_type :: string
  l_entity_id :: "string option"
  l_metadata :: json
  l_ip :: "string option"
  l_user_agent :: "string option"
  l_request_id :: "string option"
  l_created_at :: micros

record db =
  users_t :: "user_row list"
  accounts_t :: "account_row list"
  transfers_t :: "transfer_row list"
  entries_t :: "entry_row list"
  idem_t :: "idem_row list"
  requests_t :: "request_row list"
  splits_t :: "split_row list"
  schedules_t :: "schedule_row list"
  occurrences_t :: "occurrence_row list"
  outbox_t :: "outbox_row list"
  notifications_t :: "notification_row list"
  tokens_t :: "token_row list"
  audit_t :: "audit_row list"
  next_uuid :: uuid

text \<open>
  An identity column takes its values from a sequence, which a rollback does not set back and which
  transactions draw from side by side: a row gets some value no other row has, with gaps and not
  always above the rows committed before it. Which one is given from outside; a value that is out of range
  or taken stands for the least free one.
\<close>

definition least_free :: "nat list \<Rightarrow> nat" where
  "least_free used = hd (filter (\<lambda>n. n \<notin> set used) [1..<Suc (Suc (length used))])"

definition draw_serial :: "nat \<Rightarrow> nat list \<Rightarrow> nat" where
  "draw_serial v used = (if 0 < v \<and> v < 2 ^ 63 \<and> v \<notin> set used then v else least_free used)"

lemma least_free: "least_free used \<notin> set used \<and> 0 < least_free used \<and> least_free used \<le> Suc (length used)"
proof -
  let ?c = "filter (\<lambda>n. n \<notin> set used) [1..<Suc (Suc (length used))]"
  have "?c \<noteq> []"
  proof
    assume "?c = []"
    then have "{1..<Suc (Suc (length used))} \<subseteq> set used" by (auto simp: filter_empty_conv simp del: upt_Suc)
    then have "card {1..<Suc (Suc (length used))} \<le> card (set used)" by (intro card_mono) auto
    also have "\<dots> \<le> length used" by (rule card_length)
    finally show False by simp
  qed
  then have "hd ?c \<in> set ?c" by (rule hd_in_set)
  then show ?thesis unfolding least_free_def by (auto simp del: upt_Suc)
qed

lemma draw_serial:
  "draw_serial v used \<notin> set used \<and> 0 < draw_serial v used \<and> (draw_serial v used < 2 ^ 63 \<or> draw_serial v used \<le> Suc (length used))"
  using least_free [of used] by (auto simp: draw_serial_def)

section \<open>Configuration\<close>

record config =
  SIGNUP_BONUS_MINOR :: int
  MIN_TRANSFER_MINOR :: int
  MAX_TRANSFER_MINOR :: int
  DAILY_TRANSFER_LIMIT_MINOR :: int
  REVERSAL_WINDOW_SECONDS :: int
  SCHEDULE_CATCHUP_GRACE_MS :: int
  SCHEDULE_MAX_ATTEMPTS :: int
  SCHEDULE_RETRY_BASE_SECONDS :: int
  VELOCITY_WINDOW_SECONDS :: int
  VELOCITY_MAX_TRANSFERS :: int
  FRAUD_ALERT_THRESHOLD_MINOR :: int
  MAX_PIN_ATTEMPTS :: int
  PIN_LOCKOUT_MINUTES :: int
  ACCESS_TOKEN_TTL_SECONDS :: int
  REFRESH_TOKEN_TTL_SECONDS :: int
  REPLICA_CONFIGURED :: bool
  ADMIN_API_TOKEN :: "string option"
  ADMIN_USERNAME :: string
  ADMIN_PASSWORD :: string

definition default_config :: config where
  "default_config = \<lparr>
     SIGNUP_BONUS_MINOR = 10000000, MIN_TRANSFER_MINOR = 100, MAX_TRANSFER_MINOR = 5000000,
     DAILY_TRANSFER_LIMIT_MINOR = 20000000, REVERSAL_WINDOW_SECONDS = 60,
     SCHEDULE_CATCHUP_GRACE_MS = 6 * 60 * 60 * 1000, SCHEDULE_MAX_ATTEMPTS = 3,
     SCHEDULE_RETRY_BASE_SECONDS = 900, VELOCITY_WINDOW_SECONDS = 60, VELOCITY_MAX_TRANSFERS = 3,
     FRAUD_ALERT_THRESHOLD_MINOR = 5000000, MAX_PIN_ATTEMPTS = 5, PIN_LOCKOUT_MINUTES = 15,
     ACCESS_TOKEN_TTL_SECONDS = 900, REFRESH_TOKEN_TTL_SECONDS = 604800,
     REPLICA_CONFIGURED = False, ADMIN_API_TOKEN = None, ADMIN_USERNAME = ''judge'',
     ADMIN_PASSWORD = ''takaflow-demo-2026''\<rparr>"

text \<open>The live policy of \<open>velocity.service.ts\<close>, held in memory by each instance.\<close>

record velocity_policy =
  windowSeconds :: int
  maxTransfers :: int
  alertThresholdMinor :: int

definition TREASURY_STRIPE_COUNT :: nat where
  "TREASURY_STRIPE_COUNT = 8"

definition treasury_account_ids :: "uuid list" where
  "treasury_account_ids = map (\<lambda>index. index + 1) [0..<TREASURY_STRIPE_COUNT]"

text \<open>\<open>Math.floor(Math.random() * 8)\<close> is given as a number, of which the remainder counts.\<close>

definition pick_treasury_stripe :: "nat \<Rightarrow> uuid" where
  "pick_treasury_stripe r = treasury_account_ids ! (r mod TREASURY_STRIPE_COUNT)"

text \<open>The database the migrations leave behind.\<close>

definition treasury_row :: "uuid \<Rightarrow> account_row" where
  "treasury_row i = \<lparr>a_id = i, a_user_id = None, a_type = SYSTEM, a_status = A_ACTIVE,
     a_balance_minor = 0, a_version = 0\<rparr>"

definition initial_db :: db where
  "initial_db = \<lparr>users_t = [], accounts_t = map treasury_row treasury_account_ids,
     transfers_t = [], entries_t = [], idem_t = [], requests_t = [], splits_t = [],
     schedules_t = [], occurrences_t = [], outbox_t = [], notifications_t = [],
     tokens_t = [], audit_t = [], next_uuid = 9\<rparr>"

end
