(* ===== verification/Calendar.thy ===== *)
theory Calendar
  imports Js_Text
begin

text \<open>
  The proleptic Gregorian calendar as ECMAScript defines it (\<open>DayFromYear\<close>,
  \<open>YearFromTime\<close>, \<open>MakeDay\<close>) on integers, \<open>Date.prototype.toISOString\<close>, and the text
  Postgres renders for a \<open>timestamptz\<close> in a session whose time zone is UTC. The program uses
  these for references (their embedded date), for partition pruning, for cursors and for the
  monthly step of a schedule.
\<close>

section \<open>Years and months\<close>

definition leap :: "int \<Rightarrow> bool" where
  "leap y \<longleftrightarrow> y mod 4 = 0 \<and> (y mod 100 \<noteq> 0 \<or> y mod 400 = 0)"

text \<open>Day number (from 1970-01-01) of the first day of a year.\<close>

definition day_from_year :: "int \<Rightarrow> int" where
  "day_from_year y =
     365 * (y - 1970) + (y - 1969) div 4 - (y - 1901) div 100 + (y - 1601) div 400"

definition year_len :: "int \<Rightarrow> int" where
  "year_len y = (if leap y then 366 else 365)"

lemma div_Suc_int: "0 < n \<Longrightarrow> (x + 1) div n = x div n + (if (x + 1) mod n = 0 then 1 else (0::int))"
proof -
  assume n: "0 < n"
  have r: "0 \<le> x mod n" "x mod n < n" using n by simp_all
  show ?thesis
  proof (cases "x mod n + 1 = n")
    case True
    then have "x + 1 = n * (x div n + 1)"
      using mult_div_mod_eq [of n x] unfolding distrib_left mult_1_right by linarith
    then have "(x + 1) div n = x div n + 1" "(x + 1) mod n = 0" using n by simp_all
    then show ?thesis by simp
  next
    case False
    with r have r': "0 \<le> x mod n + 1" "x mod n + 1 < n" by linarith+
    have "x + 1 = n * (x div n) + (x mod n + 1)" using mult_div_mod_eq [of n x] by simp
    then have "(x + 1) div n = x div n" "(x + 1) mod n = x mod n + 1"
      using r' by (metis int_div_pos_eq int_mod_pos_eq)+
    then show ?thesis using r by simp
  qed
qed

lemma mod_shift_int: "(y - k * n) mod n = y mod (n::int)"
  by (metis add_diff_cancel_left' diff_add_cancel mod_mult_self3)

lemma div_step4: "(y - 1968) div 4 = (y - 1969) div 4 + (if y mod 4 = 0 then 1 else (0::int))"
  using div_Suc_int [of 4 "y - 1969"] mod_shift_int [of y 492 4] by simp

lemma div_step100:
  "(y - 1900) div 100 = (y - 1901) div 100 + (if y mod 100 = 0 then 1 else (0::int))"
  using div_Suc_int [of 100 "y - 1901"] mod_shift_int [of y 19 100] by simp

lemma div_step400:
  "(y - 1600) div 400 = (y - 1601) div 400 + (if y mod 400 = 0 then 1 else (0::int))"
  using div_Suc_int [of 400 "y - 1601"] mod_shift_int [of y 4 400] by simp

lemma day_from_year_Suc: "day_from_year (y + 1) = day_from_year y + year_len y"
proof -
  have a: "y mod 400 = 0 \<Longrightarrow> y mod 100 = 0" "y mod 100 = 0 \<Longrightarrow> y mod 4 = 0"
    unfolding mod_eq_0_iff_dvd by (erule dvd_trans [rotated], simp)+
  have b: "day_from_year (y + 1) = 365 * (y - 1970) + 365 + (y - 1968) div 4
      - (y - 1900) div 100 + (y - 1600) div 400"
    by (simp add: day_from_year_def algebra_simps)
  consider "y mod 400 = 0" "y mod 100 = 0" "y mod 4 = 0"
    | "y mod 400 \<noteq> 0" "y mod 100 = 0" "y mod 4 = 0"
    | "y mod 400 \<noteq> 0" "y mod 100 \<noteq> 0" "y mod 4 = 0"
    | "y mod 400 \<noteq> 0" "y mod 100 \<noteq> 0" "y mod 4 \<noteq> 0"
    using a by metis
  then show ?thesis
    unfolding b div_step4 div_step100 div_step400
    by cases (simp_all add: day_from_year_def year_len_def leap_def)
qed

text \<open>The year of a day: an estimate from the mean year, corrected by at most one.\<close>

definition year_of_day :: "int \<Rightarrow> int" where
  "year_of_day d =
     (let y = 1970 + (d * 400) div 146097
      in if d < day_from_year y then y - 1
         else if day_from_year (y + 1) \<le> d then y + 1 else y)"

lemma div_lower_int: "0 < n \<Longrightarrow> n * (x div n) \<le> (x::int)"
  using mult_div_mod_eq [of n x] pos_mod_sign [of n x] by linarith

lemma div_upper_int: "0 < n \<Longrightarrow> (x::int) < n * (x div n) + n"
  using mult_div_mod_eq [of n x] pos_mod_bound [of n x] by linarith

lemma day_from_year_upper: "400 * day_from_year y \<le> 146097 * (y - 1970) + 600"
proof -
  have "4 * ((y - 1969) div 4) \<le> y - 1969" by (rule div_lower_int) simp
  moreover have "y - 1901 < 100 * ((y - 1901) div 100) + 100" by (rule div_upper_int) simp
  moreover have "400 * ((y - 1601) div 400) \<le> y - 1601" by (rule div_lower_int) simp
  ultimately show ?thesis unfolding day_from_year_def by simp
qed

lemma day_from_year_lower: "146097 * (y - 1970) - 600 \<le> 400 * day_from_year y"
proof -
  have "y - 1969 < 4 * ((y - 1969) div 4) + 4" by (rule div_upper_int) simp
  moreover have "100 * ((y - 1901) div 100) \<le> y - 1901" by (rule div_lower_int) simp
  moreover have "y - 1601 < 400 * ((y - 1601) div 400) + 400" by (rule div_upper_int) simp
  ultimately show ?thesis unfolding day_from_year_def by simp
qed

lemma year_of_day_bounds:
  "day_from_year (year_of_day d) \<le> d \<and> d < day_from_year (year_of_day d + 1)"
proof -
  define y where "y = 1970 + (d * 400) div 146097"
  have e: "146097 * (y - 1970) \<le> d * 400" "d * 400 < 146097 * (y - 1970) + 146097"
    using div_lower_int [of 146097 "d * 400"] div_upper_int [of 146097 "d * 400"]
    unfolding y_def by simp_all
  have "400 * day_from_year (y - 1) \<le> d * 400"
    using day_from_year_upper [of "y - 1"] e by (simp add: algebra_simps)
  moreover have "d * 400 < 400 * day_from_year (y + 2)"
    using day_from_year_lower [of "y + 2"] e by (simp add: algebra_simps)
  ultimately show ?thesis
    by (auto simp: year_of_day_def y_def Let_def algebra_simps)
qed

lemma day_from_year_mono: "y \<le> z \<Longrightarrow> day_from_year y \<le> day_from_year z"
proof (induction z rule: int_ge_induct)
  case (step i)
  then show ?case by (simp add: day_from_year_Suc year_len_def)
qed simp

lemma year_of_day_unique:
  "day_from_year y \<le> d \<Longrightarrow> d < day_from_year (y + 1) \<Longrightarrow> year_of_day d = y"
proof (rule ccontr)
  assume d: "day_from_year y \<le> d" "d < day_from_year (y + 1)" and "year_of_day d \<noteq> y"
  then consider "year_of_day d + 1 \<le> y" | "y + 1 \<le> year_of_day d" by linarith
  then show False
    using d year_of_day_bounds [of d] day_from_year_mono by cases (meson not_less order.trans)+
qed

text \<open>Days before a month (months count from 0), and the month of a day of the year.\<close>

definition days_before_month :: "bool \<Rightarrow> int \<Rightarrow> int" where
  "days_before_month l m =
     (if m \<le> 0 then 0 else if m = 1 then 31
      else (if l then 1 else 0) +
        (if m = 2 then 59 else if m = 3 then 90 else if m = 4 then 120 else if m = 5 then 151
         else if m = 6 then 181 else if m = 7 then 212 else if m = 8 then 243
         else if m = 9 then 273 else if m = 10 then 304 else if m = 11 then 334 else 365))"

definition month_len :: "bool \<Rightarrow> int \<Rightarrow> int" where
  "month_len l m = days_before_month l (m + 1) - days_before_month l m"

definition month_of_yday :: "bool \<Rightarrow> int \<Rightarrow> int" where
  "month_of_yday l d =
     (if d < 31 then 0
      else let e = (if l then 1 else 0)
        in if d < 59 + e then 1 else if d < 90 + e then 2 else if d < 120 + e then 3
           else if d < 151 + e then 4 else if d < 181 + e then 5 else if d < 212 + e then 6
           else if d < 243 + e then 7 else if d < 273 + e then 8 else if d < 304 + e then 9
           else if d < 334 + e then 10 else 11)"

lemma month_of_yday_range: "0 \<le> month_of_yday l d \<and> month_of_yday l d < 12"
  by (simp add: month_of_yday_def Let_def)

lemma month_of_yday_bounds:
  "0 \<le> d \<Longrightarrow> d < 365 + (if l then 1 else 0) \<Longrightarrow>
   days_before_month l (month_of_yday l d) \<le> d \<and>
   d < days_before_month l (month_of_yday l d + 1)"
  unfolding month_of_yday_def Let_def
  by (cases l; simp only: if_True if_False; (split if_split; intro conjI impI)+;
      simp add: days_before_month_def)

lemma month_cases:
  "0 \<le> (m::int) \<Longrightarrow> m < 12 \<Longrightarrow>
   m = 0 \<or> m = 1 \<or> m = 2 \<or> m = 3 \<or> m = 4 \<or> m = 5 \<or> m = 6 \<or> m = 7 \<or> m = 8 \<or> m = 9 \<or> m = 10 \<or> m = 11"
  by presburger

lemma month_of_yday_unique:
  "0 \<le> m \<Longrightarrow> m < 12 \<Longrightarrow> days_before_month l m \<le> d \<Longrightarrow> d < days_before_month l (m + 1) \<Longrightarrow>
   month_of_yday l d = m"
  by (drule (1) month_cases, elim disjE; cases l; simp add: month_of_yday_def days_before_month_def)

text \<open>\<open>MakeDay(year, month, date)\<close>: a month outside 0..11 carries into the year.\<close>

definition make_day :: "int \<Rightarrow> int \<Rightarrow> int \<Rightarrow> int" where
  "make_day y m d =
     (let yy = y + m div 12; mm = m mod 12
      in day_from_year yy + days_before_month (leap yy) mm + (d - 1))"

definition civil :: "int \<Rightarrow> int \<times> int \<times> int" where
  "civil d =
     (let y = year_of_day d; yd = d - day_from_year y; m = month_of_yday (leap y) yd
      in (y, m, yd - days_before_month (leap y) m + 1))"

lemma yday_range:
  "0 \<le> d - day_from_year (year_of_day d) \<and>
   d - day_from_year (year_of_day d) < 365 + (if leap (year_of_day d) then 1 else 0)"
  using year_of_day_bounds [of d] by (auto simp: day_from_year_Suc year_len_def split: if_splits)

lemma make_day_civil: "civil d = (y, m, k) \<Longrightarrow> make_day y m k = d"
  using month_of_yday_range by (auto simp: civil_def make_day_def Let_def)

lemma civil_range:
  assumes "civil d = (y, m, k)"
  shows "0 \<le> m \<and> m < 12 \<and> 1 \<le> k \<and> k \<le> month_len (leap y) m"
  using assms month_of_yday_range [of "leap y" "d - day_from_year y"]
    month_of_yday_bounds [of "d - day_from_year y" "leap y"] yday_range [of d]
  by (auto simp: civil_def Let_def month_len_def)

lemma month_len_bounds: "0 \<le> m \<Longrightarrow> m < 12 \<Longrightarrow> 28 \<le> month_len l m \<and> month_len l m \<le> 31"
  by (drule (1) month_cases) (auto simp: month_len_def days_before_month_def)

lemma days_before_month_mono12:
  "0 \<le> m \<Longrightarrow> m < 12 \<Longrightarrow> 0 \<le> days_before_month l m \<and>
     days_before_month l (m + 1) \<le> 365 + (if l then 1 else 0)"
  by (drule (1) month_cases) (auto simp: days_before_month_def)

lemma civil_make_day:
  assumes "0 \<le> m" "m < 12" "1 \<le> k" "k \<le> month_len (leap y) m"
  shows "civil (make_day y m k) = (y, m, k)"
proof -
  let ?d = "make_day y m k"
  have d: "?d = day_from_year y + days_before_month (leap y) m + (k - 1)"
    using assms by (simp add: make_day_def)
  have "year_of_day ?d = y"
  proof (rule year_of_day_unique)
    show "day_from_year y \<le> ?d" "?d < day_from_year (y + 1)"
      using d assms days_before_month_mono12 [of m "leap y"]
      by (auto simp: day_from_year_Suc year_len_def month_len_def)
  qed
  moreover have "month_of_yday (leap y) (?d - day_from_year y) = m"
    using d assms by (intro month_of_yday_unique) (auto simp: month_len_def)
  ultimately show ?thesis using d by (simp add: civil_def)
qed

end
