(* ===== verification/Instants.thy ===== *)
theory Instants
  imports Calendar "HOL-Library.Monad_Syntax"
begin

text \<open>
  Texts of instants: \<open>Date.prototype.toISOString\<close>, the text Postgres renders for a
  \<open>timestamptz\<close> (session time zone UTC, fraction without trailing zeros), the cast
  \<open>$n::timestamptz\<close> that reads it back, and the \<open>Date\<close> constructor on ISO 8601 text (the
  process time zone is taken as UTC where the text carries no offset).
\<close>

section \<open>Rendering\<close>

definition year_text :: "int \<Rightarrow> string" where
  "year_text y =
     (if 0 \<le> y \<and> y \<le> 9999 then fixed 4 (nat y)
      else (if y < 0 then CHR ''-'' else CHR ''+'') # fixed 6 (nat \<bar>y\<bar>))"

definition date_text :: "int \<Rightarrow> string" where
  "date_text d =
     (case civil d of (y, m, k) \<Rightarrow>
        year_text y @ CHR ''-'' # fixed 2 (nat (m + 1)) @ CHR ''-'' # fixed 2 (nat k))"

definition clock_text :: "int \<Rightarrow> string" where
  "clock_text s =
     fixed 2 (nat (s div 3600)) @ CHR '':'' # fixed 2 (nat (s div 60 mod 60)) @
     CHR '':'' # fixed 2 (nat (s mod 60))"

definition iso_string :: "millis \<Rightarrow> string" where
  "iso_string t =
     (let d = t div 86400000; ms = t mod 86400000
      in date_text d @ CHR ''T'' # clock_text (ms div 1000) @
         CHR ''.'' # fixed 3 (nat (ms mod 1000)) @ ''Z'')"

definition strip_zeros :: "string \<Rightarrow> string" where
  "strip_zeros s = rev (dropWhile (\<lambda>c. c = CHR ''0'') (rev s))"

definition pg_fraction :: "int \<Rightarrow> string" where
  "pg_fraction u = (if u = 0 then [] else CHR ''.'' # strip_zeros (fixed 6 (nat u)))"

definition pg_text :: "micros \<Rightarrow> string" where
  "pg_text t =
     (let d = t div 86400000000; us = t mod 86400000000
      in date_text d @ CHR '' '' # clock_text (us div 1000000) @
         pg_fraction (us mod 1000000) @ ''+00'')"

text \<open>The instants whose year has four digits: what a clock shows until the year 10000.\<close>

definition four_digit_year :: "micros \<Rightarrow> bool" where
  "four_digit_year t \<longleftrightarrow> 1 \<le> year_of_day (t div 86400000000) \<and> year_of_day (t div 86400000000) \<le> 9999"

section \<open>Reading\<close>

definition eat :: "nat \<Rightarrow> string \<Rightarrow> (nat \<times> string) option" where
  "eat k s =
     (if k \<le> length s \<and> list_all is_digit (take k s)
      then Some (digits_val (take k s), drop k s) else None)"

definition lit :: "char set \<Rightarrow> string \<Rightarrow> string option" where
  "lit cs s = (case s of [] \<Rightarrow> None | c # t \<Rightarrow> if c \<in> cs then Some t else None)"

definition parse_date :: "string \<Rightarrow> ((nat \<times> nat \<times> nat) \<times> string) option" where
  "parse_date s = do {
     (y, s) <- eat 4 s; s <- lit {CHR ''-''} s;
     (m, s) <- eat 2 s; s <- lit {CHR ''-''} s;
     (d, s) <- eat 2 s;
     Some ((y, m, d), s) }"

definition parse_clock :: "string \<Rightarrow> ((nat \<times> nat \<times> nat) \<times> string) option" where
  "parse_clock s = do {
     (h, s) <- eat 2 s; s <- lit {CHR '':''} s;
     (m, s) <- eat 2 s; s <- lit {CHR '':''} s;
     (k, s) <- eat 2 s;
     Some ((h, m, k), s) }"

definition parse_fraction :: "string \<Rightarrow> (string \<times> string) option" where
  "parse_fraction s =
     (case s of
        c # t \<Rightarrow>
          if c = CHR ''.''
          then (let f = takeWhile is_digit t
                in if f = [] then None else Some (f, drop (length f) t))
          else Some ([], s)
      | [] \<Rightarrow> Some ([], s))"

text \<open>
  A zone in one of the forms \<open>+hh\<close>, \<open>+hhmm\<close>, \<open>+hh:mm\<close>, \<open>Z\<close> or nothing; its value is the
  offset in minutes.
\<close>

fun zone_minutes :: "string \<Rightarrow> int option" where
  "zone_minutes [] = Some 0"
| "zone_minutes [c] = (if c = CHR ''Z'' then Some 0 else None)"
| "zone_minutes [g, a, b] =
     (if g \<in> {CHR ''+'', CHR ''-''} \<and> is_digit a \<and> is_digit b
      then Some ((if g = CHR ''-'' then -1 else 1) * (int (digits_val [a, b]) * 60)) else None)"
| "zone_minutes [g, a, b, c, d] =
     (if g \<in> {CHR ''+'', CHR ''-''} \<and> list_all is_digit [a, b, c, d]
      then Some ((if g = CHR ''-'' then -1 else 1) *
                 (int (digits_val [a, b]) * 60 + int (digits_val [c, d]))) else None)"
| "zone_minutes [g, a, b, k, c, d] =
     (if g \<in> {CHR ''+'', CHR ''-''} \<and> k = CHR '':'' \<and> list_all is_digit [a, b, c, d]
      then Some ((if g = CHR ''-'' then -1 else 1) *
                 (int (digits_val [a, b]) * 60 + int (digits_val [c, d]))) else None)"
| "zone_minutes _ = None"

text \<open>Seconds since 1970 of calendar fields; \<open>MakeDay\<close> counts months from 0.\<close>

definition seconds_of :: "nat \<times> nat \<times> nat \<Rightarrow> nat \<times> nat \<times> nat \<Rightarrow> int" where
  "seconds_of = (\<lambda>(y, m, d) (h, mi, s).
     make_day (int y) (int m - 1) (int d) * 86400 + int h * 3600 + int mi * 60 + int s)"

definition clock_ok :: "nat \<times> nat \<times> nat \<Rightarrow> bool" where
  "clock_ok = (\<lambda>(h, m, s). (h < 24 \<and> m < 60 \<and> s < 60) \<or> (h = 24 \<and> m = 0 \<and> s = 0))"

text \<open>\<open>new Date(text)\<close>: digits of the fraction after the third are dropped.\<close>

definition date_parse :: "string \<Rightarrow> millis option" where
  "date_parse s = do {
     (ymd, s) <- parse_date s; s <- lit {CHR ''T''} s;
     (hms, s) <- parse_clock s; (f, s) <- parse_fraction s;
     z <- (if length s \<in> {0, 1, 6} then zone_minutes s else None);
     (case ymd of (y, m, d) \<Rightarrow>
       if 1 \<le> m \<and> m \<le> 12 \<and> 1 \<le> d \<and> d \<le> 31 \<and> clock_ok hms
       then Some ((seconds_of ymd hms - z * 60) * 1000 + int (digits_val (pad_end 3 (take 3 f))))
       else None) }"

text \<open>
  \<open>$n::timestamptz\<close>: the day must exist, a fraction beyond the sixth digit is rounded by the
  seventh.
\<close>

definition fraction_micros :: "string \<Rightarrow> int" where
  "fraction_micros f =
     int (digits_val (pad_end 6 (take 6 f))) +
     (case drop 6 f of [] \<Rightarrow> 0 | c # _ \<Rightarrow> if 5 \<le> digit_val c then 1 else 0)"

definition pg_parse :: "string \<Rightarrow> micros option" where
  "pg_parse s = do {
     (ymd, s) <- parse_date s; s <- lit {CHR '' '', CHR ''T''} s;
     (hms, s) <- parse_clock s; (f, s) <- parse_fraction s;
     z <- zone_minutes s;
     (case ymd of (y, m, d) \<Rightarrow>
       if 1 \<le> y \<and> 1 \<le> m \<and> m \<le> 12 \<and> 1 \<le> d \<and> int d \<le> month_len (leap (int y)) (int m - 1) \<and>
          clock_ok hms
       then Some ((seconds_of ymd hms - z * 60) * 1000000 + fraction_micros f)
       else None) }"

section \<open>What is rendered reads back\<close>

lemma eat_fixed: "n < 10 ^ k \<Longrightarrow> 0 < k \<Longrightarrow> eat k (fixed k n @ r) = Some (n, r)"
  by (simp add: eat_def length_fixed)

lemma lit_Cons [simp]: "lit cs (c # t) = (if c \<in> cs then Some t else None)"
  by (simp add: lit_def)

lemma parse_date_text:
  assumes "civil d = (y, m, k)" and "0 \<le> y" "y \<le> 9999"
  shows "parse_date (date_text d @ r) = Some ((nat y, nat (m + 1), nat k), r)"
proof -
  have m: "0 \<le> m" "m < 12" "1 \<le> k" "k \<le> 31"
    using civil_range [OF assms(1)] month_len_bounds [of m "leap y"] by auto
  then have "nat y < 10 ^ 4" "nat (m + 1) < 10 ^ 2" "nat k < 10 ^ 2"
    using assms by auto
  then show ?thesis
    using assms by (simp add: parse_date_def date_text_def year_text_def eat_fixed)
qed

lemma nat_less_100: "x < 100 \<Longrightarrow> nat x < 10 ^ 2"
  by simp

lemma parse_clock_text:
  assumes "0 \<le> s" "s < 86400"
  shows "parse_clock (clock_text s @ r) =
           Some ((nat (s div 3600), nat (s div 60 mod 60), nat (s mod 60)), r)"
proof -
  have "s div 3600 < 24" using assms by (simp add: div_less_iff_less_mult)
  moreover have "s div 60 mod 60 < 60" "s mod 60 < 60" by simp_all
  ultimately show ?thesis
    by (simp add: parse_clock_def clock_text_def eat_fixed nat_less_100)
qed

lemma seconds_of_civil:
  assumes "civil d = (y, m, k)" "0 \<le> y" "0 \<le> s" "s < 86400"
  shows "seconds_of (nat y, nat (m + 1), nat k)
           (nat (s div 3600), nat (s div 60 mod 60), nat (s mod 60)) = d * 86400 + s"
proof -
  have "0 \<le> m" "1 \<le> k" using civil_range [OF assms(1)] by auto
  then have "seconds_of (nat y, nat (m + 1), nat k)
      (nat (s div 3600), nat (s div 60 mod 60), nat (s mod 60)) =
      d * 86400 + (s div 3600 * 3600 + s div 60 mod 60 * 60 + s mod 60)"
    using assms make_day_civil [OF assms(1)] by (simp add: seconds_of_def pos_imp_zdiv_nonneg_iff)
  moreover have "s div 3600 = s div 60 div 60" by (simp add: zdiv_zmult2_eq flip: zdiv_zmult2_eq)
  then have "s div 3600 * 3600 + s div 60 mod 60 * 60 = s div 60 * 60"
    using div_mult_mod_eq [of "s div 60" 60] by linarith
  ultimately show ?thesis using div_mult_mod_eq [of s 60] by linarith
qed

lemma clock_ok_text:
  "0 \<le> s \<Longrightarrow> s < 86400 \<Longrightarrow> clock_ok (nat (s div 3600), nat (s div 60 mod 60), nat (s mod 60))"
proof -
  assume "0 \<le> s" "s < 86400"
  then have "nat (s div 3600) < 24" by (simp add: div_less_iff_less_mult)
  moreover have "nat (s div 60 mod 60) < 60" "nat (s mod 60) < 60" by simp_all
  ultimately show ?thesis unfolding clock_ok_def by blast
qed

lemma strip_zeros_decomp:
  "s = strip_zeros s @ replicate (length s - length (strip_zeros s)) (CHR ''0'')"
proof -
  let ?z = "takeWhile (\<lambda>c. c = CHR ''0'') (rev s)"
  have z: "replicate (length ?z) CHR ''0'' = ?z"
    by (rule replicate_length_same) (auto dest: set_takeWhileD)
  have "rev s = ?z @ rev (strip_zeros s)" by (simp add: strip_zeros_def)
  then have s: "s = strip_zeros s @ rev ?z" by (metis rev_append rev_rev_ident)
  then have "length s = length (strip_zeros s) + length ?z" by (metis length_append length_rev)
  moreover have "rev ?z = replicate (length ?z) CHR ''0''" by (metis z rev_replicate)
  ultimately show ?thesis using s by simp
qed

lemma pad_end_strip_zeros: "length s = n \<Longrightarrow> pad_end n (strip_zeros s) = s"
  using strip_zeros_decomp [of s] by (simp add: pad_end_def)

lemma strip_zeros_digits: "list_all is_digit s \<Longrightarrow> list_all is_digit (strip_zeros s)"
  by (metis list_all_append strip_zeros_decomp)

lemma length_strip_zeros: "length (strip_zeros s) \<le> length s"
  unfolding strip_zeros_def by (metis length_dropWhile_le length_rev)

lemma digit_char_0: "digit_char 0 = CHR ''0''"
  by (metis digit_char_digit_val digit_zero)

text \<open>The digits \<open>pg_fraction\<close> prints.\<close>

definition fraction_digits :: "int \<Rightarrow> string" where
  "fraction_digits u = (if u = 0 then [] else strip_zeros (fixed 6 (nat u)))"

lemma fraction_digits_pad:
  "0 \<le> u \<Longrightarrow> u < 1000000 \<Longrightarrow> pad_end 6 (fraction_digits u) = fixed 6 (nat u)"
proof -
  assume u: "0 \<le> u" "u < 1000000"
  then have "length (fixed 6 (nat u)) = 6" by (intro length_fixed) auto
  moreover have "fixed 6 0 = replicate 6 CHR ''0''"
    by (simp add: fixed_def pad_start_def nat_text.simps digit_char_0 numeral_eq_Suc)
  ultimately show ?thesis
    by (simp add: fraction_digits_def pad_end_strip_zeros) (simp add: pad_end_def)
qed

lemma fraction_digits_nonempty: "u \<noteq> 0 \<Longrightarrow> 0 \<le> u \<Longrightarrow> fraction_digits u \<noteq> []"
  using strip_zeros_decomp [of "fixed 6 (nat u)"] digits_val_fixed [of 6 "nat u"]
  by (auto simp: fraction_digits_def) (metis digits_val_fixed digits_val_replicate0 nat_0_iff not_le order_antisym)

lemma fraction_digits_digits: "list_all is_digit (fraction_digits u)"
  by (simp add: fraction_digits_def strip_zeros_digits)

lemma parse_fraction_text:
  assumes "0 \<le> u"
  shows "parse_fraction (pg_fraction u @ ''+00'') = Some (fraction_digits u, ''+00'')"
proof (cases "u = 0")
  case True
  then show ?thesis by (simp add: pg_fraction_def parse_fraction_def fraction_digits_def)
next
  case False
  have "takeWhile is_digit (fraction_digits u @ ''+00'') = fraction_digits u"
    using fraction_digits_digits [of u] by (simp add: takeWhile_append list_all_iff is_digit_def)
  with False assms fraction_digits_nonempty [of u] show ?thesis
    by (simp add: pg_fraction_def parse_fraction_def fraction_digits_def Let_def)
qed

lemma fraction_micros_digits:
  assumes "0 \<le> u" "u < 1000000"
  shows "fraction_micros (fraction_digits u) = u"
proof -
  have "length (fraction_digits u) \<le> 6"
    using length_strip_zeros [of "fixed 6 (nat u)"] assms
    by (simp add: fraction_digits_def length_fixed)
  then show ?thesis
    using assms by (simp add: fraction_micros_def fraction_digits_pad)
qed

lemma fixed_prefix:
  assumes "n < 10 ^ (j + k)" "0 < j"
  shows "digits_val (take j (fixed (j + k) n)) = n div 10 ^ k"
proof -
  let ?s = "fixed (j + k) n"
  have len: "length ?s = j + k" using assms by (simp add: length_fixed)
  have "digits_val ?s = digits_val (take j ?s) * 10 ^ length (drop j ?s) + digits_val (drop j ?s)"
    by (metis append_take_drop_id digits_val_append)
  then have "n = digits_val (take j ?s) * 10 ^ k + digits_val (drop j ?s)"
    using len by simp
  moreover have "list_all is_digit (drop j ?s)"
    by (metis append_take_drop_id fixed_digits list_all_append)
  then have "digits_val (drop j ?s) < 10 ^ k" using digits_val_bound [of "drop j ?s"] len by simp
  ultimately show ?thesis by (metis add.commute div_mult_self1_is_m div_mult_self3 div_less
    add.right_neutral power_not_zero zero_neq_numeral)
qed

lemma take_pad_end: "j \<le> k \<Longrightarrow> pad_end j (take j s) = take j (pad_end k s)"
  by (simp add: pad_end_def min_def)

lemma fraction_millis_digits:
  assumes "0 \<le> u" "u < 1000000"
  shows "int (digits_val (pad_end 3 (take 3 (fraction_digits u)))) = u div 1000"
proof -
  have "pad_end 3 (take 3 (fraction_digits u)) = take 3 (fixed 6 (nat u))"
    using assms by (simp add: take_pad_end [of 3 6] fraction_digits_pad)
  moreover have "digits_val (take 3 (fixed (3 + 3) (nat u))) = nat u div 10 ^ 3"
    by (rule fixed_prefix) (use assms in auto)
  ultimately show ?thesis using assms by (simp add: nat_div_distrib)
qed

text \<open>The date and clock of an instant, in range.\<close>

lemma split_micros_arith:
  "q * 1000000 + r = u \<Longrightarrow> d * 86400000000 + u = t \<Longrightarrow> t = (d * 86400 + q) * 1000000 + (r::int)"
  by simp

lemma micros_split:
  fixes t :: int
  shows "t = (t div 86400000000 * 86400 + t mod 86400000000 div 1000000) * 1000000 + t mod 1000000"
    and "0 \<le> t mod 86400000000 div 1000000" and "t mod 86400000000 div 1000000 < 86400"
    and "t mod 86400000000 mod 1000000 = t mod 1000000"
proof -
  let ?u = "t mod 86400000000"
  show m: "?u mod 1000000 = t mod 1000000" by (rule mod_mod_cancel) simp
  have "?u div 1000000 * 1000000 + t mod 1000000 = ?u"
    using div_mult_mod_eq [of ?u 1000000] m by simp
  then show "t = (t div 86400000000 * 86400 + ?u div 1000000) * 1000000 + t mod 1000000"
    using div_mult_mod_eq [of t 86400000000] by (rule split_micros_arith)
  show "0 \<le> ?u div 1000000" by (simp add: pos_imp_zdiv_nonneg_iff)
  have "?u < 86400000000" by simp
  then show "?u div 1000000 < 86400" by (simp add: div_less_iff_less_mult)
qed

lemma zone_utc: "zone_minutes ''+00'' = Some 0"
  by (simp add: digits_val_Cons)

text \<open>Every part of the rendered text, read one after the other.\<close>

lemma pg_text_parts:
  assumes "four_digit_year t"
  obtains y m k where "civil (t div 86400000000) = (y, m, k)" "1 \<le> y" "y \<le> 9999"
    and "parse_date (pg_text t) = Some ((nat y, nat (m + 1), nat k),
      CHR '' '' # clock_text (t mod 86400000000 div 1000000) @ pg_fraction (t mod 1000000) @ ''+00'')"
proof -
  obtain y m k where c: "civil (t div 86400000000) = (y, m, k)" by (metis prod_cases3)
  then have y: "1 \<le> y" "y \<le> 9999"
    using assms by (auto simp: four_digit_year_def civil_def Let_def)
  have "pg_text t = date_text (t div 86400000000) @ CHR '' '' #
      clock_text (t mod 86400000000 div 1000000) @ pg_fraction (t mod 1000000) @ ''+00''"
    using micros_split(4) [of t] by (simp add: pg_text_def Let_def)
  with parse_date_text [OF c, of "CHR '' '' # clock_text (t mod 86400000000 div 1000000) @
      pg_fraction (t mod 1000000) @ ''+00''"] y
  have "parse_date (pg_text t) = Some ((nat y, nat (m + 1), nat k),
      CHR '' '' # clock_text (t mod 86400000000 div 1000000) @ pg_fraction (t mod 1000000) @ ''+00'')"
    by simp
  with c y show thesis by (rule that)
qed

lemma pg_parse_steps:
  assumes "parse_date txt = Some ((Y, M, D), CHR '' '' # r1)"
    and "parse_clock r1 = Some (hms, r2)" and "parse_fraction r2 = Some (f, r3)"
    and "zone_minutes r3 = Some 0" and "clock_ok hms"
    and "1 \<le> Y" "1 \<le> M" "M \<le> 12" "1 \<le> D" "int D \<le> month_len (leap (int Y)) (int M - 1)"
  shows "pg_parse txt = Some (seconds_of (Y, M, D) hms * 1000000 + fraction_micros f)"
  unfolding pg_parse_def assms(1) using assms(2-) by simp

lemma pg_parse_parts:
  assumes p: "parse_date txt = Some ((Y, M, D), CHR '' '' # clock_text q @ pg_fraction u @ ''+00'')"
    and q: "0 \<le> q" "q < 86400" and u: "0 \<le> u" "u < 1000000"
    and r: "1 \<le> Y" "1 \<le> M" "M \<le> 12" "1 \<le> D" "int D \<le> month_len (leap (int Y)) (int M - 1)"
    and e: "seconds_of (Y, M, D) (nat (q div 3600), nat (q div 60 mod 60), nat (q mod 60)) = S"
  shows "pg_parse txt = Some (S * 1000000 + u)"
  using pg_parse_steps [OF p parse_clock_text [OF q] parse_fraction_text [OF u(1)] zone_utc
      clock_ok_text [OF q] r]
  unfolding e fraction_micros_digits [OF u] .

theorem pg_parse_text:
  assumes "four_digit_year t"
  shows "pg_parse (pg_text t) = Some t"
proof -
  obtain y m k where c: "civil (t div 86400000000) = (y, m, k)" and y: "1 \<le> y" "y \<le> 9999"
    and p: "parse_date (pg_text t) = Some ((nat y, nat (m + 1), nat k),
      CHR '' '' # clock_text (t mod 86400000000 div 1000000) @ pg_fraction (t mod 1000000) @ ''+00'')"
    by (rule pg_text_parts [OF assms])
  note s = micros_split [of t]
  have y0: "0 \<le> y" using y by simp
  have r: "1 \<le> nat y" "1 \<le> nat (m + 1)" "nat (m + 1) \<le> 12" "1 \<le> nat k"
    "int (nat k) \<le> month_len (leap (int (nat y))) (int (nat (m + 1)) - 1)"
    using civil_range [OF c] y by auto
  have "pg_parse (pg_text t) =
      Some ((t div 86400000000 * 86400 + t mod 86400000000 div 1000000) * 1000000 + t mod 1000000)"
    by (rule pg_parse_parts [OF p s(2,3) _ _ r seconds_of_civil [OF c y0 s(2,3)]]) simp_all
  then show ?thesis by (simp only: s(1) [symmetric])
qed

text \<open>The same for \<open>new Date(text)\<close> on the ISO form of the rendered text.\<close>

lemma date_parse_steps:
  assumes "parse_date txt = Some ((Y, M, D), CHR ''T'' # r1)"
    and "parse_clock r1 = Some (hms, r2)" and "parse_fraction r2 = Some (f, r3)"
    and "length r3 = 6" and "zone_minutes r3 = Some 0" and "clock_ok hms"
    and "1 \<le> M" "M \<le> 12" "1 \<le> D" "D \<le> 31"
  shows "date_parse txt =
           Some (seconds_of (Y, M, D) hms * 1000 + int (digits_val (pad_end 3 (take 3 f))))"
  unfolding date_parse_def assms(1) using assms(2-) by simp

lemma date_parse_parts:
  assumes p: "parse_date txt = Some ((Y, M, D), CHR ''T'' # clock_text q @ pg_fraction u @ ''+00:00'')"
    and q: "0 \<le> q" "q < 86400" and u: "0 \<le> u" "u < 1000000"
    and r: "1 \<le> M" "M \<le> 12" "1 \<le> D" "D \<le> 31"
    and e: "seconds_of (Y, M, D) (nat (q div 3600), nat (q div 60 mod 60), nat (q mod 60)) = S"
  shows "date_parse txt = Some (S * 1000 + u div 1000)"
proof -
  have f: "parse_fraction (pg_fraction u @ ''+00:00'') = Some (fraction_digits u, ''+00:00'')"
  proof (cases "u = 0")
    case False
    have "takeWhile is_digit (fraction_digits u @ ''+00:00'') = fraction_digits u"
      using fraction_digits_digits [of u] by (simp add: takeWhile_append list_all_iff is_digit_def)
    with False u fraction_digits_nonempty [of u] show ?thesis
      by (simp add: pg_fraction_def parse_fraction_def fraction_digits_def Let_def)
  qed (simp add: pg_fraction_def parse_fraction_def fraction_digits_def)
  have z: "zone_minutes ''+00:00'' = Some 0" by (simp add: digits_val_Cons)
  have l: "length ''+00:00'' = 6" by simp
  show ?thesis
    using date_parse_steps [OF p parse_clock_text [OF q] f l z clock_ok_text [OF q] r]
    unfolding e fraction_millis_digits [OF u] .
qed

end
