(* ===== verification/Errors.thy ===== *)
theory Errors
  imports Json Instants "HOL-Library.Sublist"
begin

text \<open>
  \<open>platform/errors/index.ts\<close> and \<open>platform/http/error-handler.ts\<close>: the domain errors, the
  other exceptions a handler can see, and the one function that turns an exception into an HTTP
  response.
\<close>

section \<open>Domain errors\<close>

datatype error_code =
    VALIDATION_ERROR | UNAUTHENTICATED | INVALID_CREDENTIALS | INVALID_PIN | PIN_LOCKED
  | FORBIDDEN | ACCOUNT_FROZEN | NOT_FOUND | IDEMPOTENCY_KEY_REUSE | REQUEST_IN_PROGRESS
  | INVALID_STATE | INSUFFICIENT_FUNDS | LIMIT_EXCEEDED | SELF_TRANSFER | DUPLICATE
  | RATE_LIMITED | INTERNAL | SERVICE_UNAVAILABLE

fun status_by_code :: "error_code \<Rightarrow> int" where
  "status_by_code VALIDATION_ERROR = 400"
| "status_by_code UNAUTHENTICATED = 401"
| "status_by_code INVALID_CREDENTIALS = 401"
| "status_by_code INVALID_PIN = 401"
| "status_by_code PIN_LOCKED = 423"
| "status_by_code FORBIDDEN = 403"
| "status_by_code ACCOUNT_FROZEN = 403"
| "status_by_code NOT_FOUND = 404"
| "status_by_code IDEMPOTENCY_KEY_REUSE = 409"
| "status_by_code REQUEST_IN_PROGRESS = 409"
| "status_by_code INVALID_STATE = 409"
| "status_by_code DUPLICATE = 409"
| "status_by_code INSUFFICIENT_FUNDS = 422"
| "status_by_code LIMIT_EXCEEDED = 422"
| "status_by_code SELF_TRANSFER = 422"
| "status_by_code RATE_LIMITED = 429"
| "status_by_code INTERNAL = 500"
| "status_by_code SERVICE_UNAVAILABLE = 503"

fun code_text :: "error_code \<Rightarrow> string" where
  "code_text VALIDATION_ERROR = ''VALIDATION_ERROR''"
| "code_text UNAUTHENTICATED = ''UNAUTHENTICATED''"
| "code_text INVALID_CREDENTIALS = ''INVALID_CREDENTIALS''"
| "code_text INVALID_PIN = ''INVALID_PIN''"
| "code_text PIN_LOCKED = ''PIN_LOCKED''"
| "code_text FORBIDDEN = ''FORBIDDEN''"
| "code_text ACCOUNT_FROZEN = ''ACCOUNT_FROZEN''"
| "code_text NOT_FOUND = ''NOT_FOUND''"
| "code_text IDEMPOTENCY_KEY_REUSE = ''IDEMPOTENCY_KEY_REUSE''"
| "code_text REQUEST_IN_PROGRESS = ''REQUEST_IN_PROGRESS''"
| "code_text INVALID_STATE = ''INVALID_STATE''"
| "code_text INSUFFICIENT_FUNDS = ''INSUFFICIENT_FUNDS''"
| "code_text LIMIT_EXCEEDED = ''LIMIT_EXCEEDED''"
| "code_text SELF_TRANSFER = ''SELF_TRANSFER''"
| "code_text DUPLICATE = ''DUPLICATE''"
| "code_text RATE_LIMITED = ''RATE_LIMITED''"
| "code_text INTERNAL = ''INTERNAL''"
| "code_text SERVICE_UNAVAILABLE = ''SERVICE_UNAVAILABLE''"

type_synonym details = "(string \<times> json) list"
type_synonym headers = "(string \<times> string) list"

text \<open>
  What a handler can throw: a domain error; an error the database driver reports, with its
  SQLSTATE and constraint; a JavaScript \<open>Error\<close> with an optional \<open>code\<close> (Node sets it on
  socket errors); a \<open>ZodError\<close> with the path and message of every issue; a Fastify client
  error with its status.
\<close>

datatype exn =
    DomainError error_code string details headers
  | PgError string "string option"
  | JsError "string option" string
  | ZodError "(string list \<times> string) list"
  | HttpError int "string option" string

definition validation :: "string \<Rightarrow> details \<Rightarrow> exn" where
  "validation message d = DomainError VALIDATION_ERROR message d []"

definition unauthenticated :: "string \<Rightarrow> exn" where
  "unauthenticated message = DomainError UNAUTHENTICATED message [] []"

definition invalid_credentials :: exn where
  "invalid_credentials = DomainError INVALID_CREDENTIALS ''Phone or password is incorrect'' [] []"

definition invalid_pin :: "int \<Rightarrow> exn" where
  "invalid_pin attemptsRemaining =
     DomainError INVALID_PIN ''Transaction PIN is incorrect''
       [(''attemptsRemaining'', jint attemptsRemaining)] []"

definition pin_locked :: "millis \<Rightarrow> exn" where
  "pin_locked until =
     DomainError PIN_LOCKED ''Too many incorrect PIN attempts''
       [(''lockedUntil'', JStr (iso_string until))] []"

definition forbidden :: "string \<Rightarrow> exn" where
  "forbidden message = DomainError FORBIDDEN message [] []"

definition account_frozen :: "string \<Rightarrow> exn" where
  "account_frozen message = DomainError ACCOUNT_FROZEN message [] []"

definition not_found :: "string \<Rightarrow> exn" where
  "not_found what = DomainError NOT_FOUND (what @ '' not found'') [] []"

definition idempotency_key_reuse :: exn where
  "idempotency_key_reuse =
     DomainError IDEMPOTENCY_KEY_REUSE
       ''This Idempotency-Key was already used with a different request body'' [] []"

definition request_in_progress :: exn where
  "request_in_progress =
     DomainError REQUEST_IN_PROGRESS ''An identical request is currently being processed'' []
       [(''Retry-After'', ''1'')]"

definition invalid_state :: "string \<Rightarrow> details \<Rightarrow> exn" where
  "invalid_state message d = DomainError INVALID_STATE message d []"

definition insufficient_funds :: "int \<Rightarrow> int \<Rightarrow> exn" where
  "insufficient_funds balance required =
     DomainError INSUFFICIENT_FUNDS ''Insufficient balance for this transfer''
       [(''balanceMinor'', JStr (int_text balance)), (''requiredMinor'', JStr (int_text required))] []"

definition limit_exceeded :: "string \<Rightarrow> details \<Rightarrow> exn" where
  "limit_exceeded message d = DomainError LIMIT_EXCEEDED message d []"

definition self_transfer :: exn where
  "self_transfer = DomainError SELF_TRANSFER ''You cannot send money to yourself'' [] []"

definition duplicate :: "string \<Rightarrow> exn" where
  "duplicate message = DomainError DUPLICATE message [] []"

definition rate_limited :: "int \<Rightarrow> exn" where
  "rate_limited seconds =
     DomainError RATE_LIMITED ''Too many requests'' [] [(''Retry-After'', int_text seconds)]"

definition unavailable :: "string \<Rightarrow> exn" where
  "unavailable message = DomainError SERVICE_UNAVAILABLE message [] [(''Retry-After'', ''2'')]"

lemmas error_defs =
  validation_def unauthenticated_def invalid_credentials_def invalid_pin_def pin_locked_def
  forbidden_def account_frozen_def not_found_def idempotency_key_reuse_def
  request_in_progress_def invalid_state_def insufficient_funds_def limit_exceeded_def
  self_transfer_def duplicate_def rate_limited_def unavailable_def

section \<open>Postgres errors\<close>

abbreviation "UNIQUE_VIOLATION \<equiv> ''23505''"
abbreviation "CHECK_VIOLATION \<equiv> ''23514''"
abbreviation "FOREIGN_KEY_VIOLATION \<equiv> ''23503''"
abbreviation "SERIALIZATION_FAILURE \<equiv> ''40001''"
abbreviation "DEADLOCK_DETECTED \<equiv> ''40P01''"
abbreviation "LOCK_NOT_AVAILABLE \<equiv> ''55P03''"
abbreviation "QUERY_CANCELED \<equiv> ''57014''"
abbreviation "ADMIN_SHUTDOWN \<equiv> ''57P01''"
abbreviation "CANNOT_CONNECT_NOW \<equiv> ''57P03''"
abbreviation "RESTRICT_VIOLATION \<equiv> ''23001''"

text \<open>
  \<open>pgErrorCode\<close> reads any string \<open>code\<close> property: a domain error, a socket error and a
  Fastify error have one too.
\<close>

fun pg_error_code :: "exn \<Rightarrow> string option" where
  "pg_error_code (DomainError c _ _ _) = Some (code_text c)"
| "pg_error_code (PgError code _) = Some code"
| "pg_error_code (JsError code _) = code"
| "pg_error_code (ZodError _) = None"
| "pg_error_code (HttpError _ code _) = code"

fun pg_constraint :: "exn \<Rightarrow> string option" where
  "pg_constraint (PgError _ c) = c"
| "pg_constraint _ = None"

section \<open>The error handler\<close>

record reply =
  status :: int
  reply_headers :: headers
  reply_body :: json

definition retryable_pg :: "string list" where
  "retryable_pg =
     [SERIALIZATION_FAILURE, DEADLOCK_DETECTED, LOCK_NOT_AVAILABLE, QUERY_CANCELED,
      ADMIN_SHUTDOWN, CANNOT_CONNECT_NOW]"

definition error_body :: "string \<Rightarrow> string \<Rightarrow> string \<Rightarrow> details \<Rightarrow> json" where
  "error_body code message requestId d =
     JObj [(''error'', JObj (
       [(''code'', JStr code), (''message'', JStr message), (''requestId'', JStr requestId)] @
       (if d \<noteq> [] then [(''details'', JObj d)] else [])))]"

text \<open>A case-insensitive search for one of the phrases of the connectivity pattern.\<close>

definition lower :: "char \<Rightarrow> char" where
  "lower c = (if 65 \<le> (of_char c :: nat) \<and> (of_char c :: nat) \<le> 90 then char_of (of_char c + 32 :: nat) else c)"

definition connectivity_message :: "string \<Rightarrow> bool" where
  "connectivity_message m =
     list_ex (\<lambda>p. sublist (map lower p) (map lower m))
       [''ECONNREFUSED'', ''ECONNRESET'', ''Connection terminated'',
        ''timeout exceeded when trying to connect'', ''server closed the connection'']"

definition join_with :: "char \<Rightarrow> string list \<Rightarrow> string" where
  "join_with c xs =
     (case xs of [] \<Rightarrow> [] | x # ys \<Rightarrow> x @ concat (map (\<lambda>y. c # y) ys))"

definition briefly_unavailable :: "string \<Rightarrow> reply" where
  "briefly_unavailable requestId =
     \<lparr>status = 503, reply_headers = [(''Retry-After'', ''2'')],
      reply_body = error_body ''SERVICE_UNAVAILABLE''
        ''The service is briefly unavailable. Retry with the same Idempotency-Key.'' requestId []\<rparr>"

definition unexpected :: "string \<Rightarrow> reply" where
  "unexpected requestId =
     \<lparr>status = 500, reply_headers = [],
      reply_body = error_body ''INTERNAL'' ''An unexpected error occurred'' requestId []\<rparr>"

text \<open>The branches after the typed errors: retryable SQLSTATE, lost connection, anything else.\<close>

definition infrastructure_reply :: "exn \<Rightarrow> string \<Rightarrow> string \<Rightarrow> reply" where
  "infrastructure_reply e message requestId =
     (case pg_error_code e of
        Some c \<Rightarrow> if c \<in> set retryable_pg then briefly_unavailable requestId else unexpected requestId
      | None \<Rightarrow> if connectivity_message message then briefly_unavailable requestId
               else unexpected requestId)"

definition handle_error :: "exn \<Rightarrow> string \<Rightarrow> reply" where
  "handle_error e requestId =
     (case e of
        DomainError c message d h \<Rightarrow>
          \<lparr>status = status_by_code c, reply_headers = h,
           reply_body = error_body (code_text c) message requestId d\<rparr>
      | ZodError issues \<Rightarrow>
          \<lparr>status = 400, reply_headers = [],
           reply_body = error_body ''VALIDATION_ERROR'' ''Request validation failed'' requestId
             [(''issues'', JArr (map (\<lambda>(path, message).
                JObj [(''path'', JStr (join_with CHR ''.'' path)), (''message'', JStr message)]) issues))]\<rparr>
      | HttpError st code message \<Rightarrow>
          if 400 \<le> st \<and> st < 500
          then \<lparr>status = st, reply_headers = [],
                reply_body = error_body (case code of None \<Rightarrow> ''VALIDATION_ERROR'' | Some c \<Rightarrow> c)
                  message requestId []\<rparr>
          else infrastructure_reply e message requestId
      | PgError _ _ \<Rightarrow> infrastructure_reply e [] requestId
      | JsError _ message \<Rightarrow> infrastructure_reply e message requestId)"

definition handle_not_found :: "string \<Rightarrow> string \<Rightarrow> string \<Rightarrow> reply" where
  "handle_not_found meth url requestId =
     \<lparr>status = 404, reply_headers = [],
      reply_body = error_body ''NOT_FOUND'' (''Route '' @ meth @ '' '' @ url @ '' not found'') requestId []\<rparr>"

section \<open>What the handler guarantees\<close>

text \<open>
  The message a client reads. Only messages written for clients appear in it: those of domain
  errors and of Fastify's client errors; every other exception gets a fixed text.
\<close>

definition error_field :: "string \<Rightarrow> json \<Rightarrow> json" where
  "error_field k b = jget k (jget ''error'' b)"

lemma error_field_body [simp]:
  "error_field ''code'' (error_body c m r d) = JStr c"
  "error_field ''message'' (error_body c m r d) = JStr m"
  "error_field ''requestId'' (error_body c m r d) = JStr r"
  by (simp_all add: error_field_def error_body_def)

lemma status_by_code_range: "400 \<le> status_by_code c \<and> status_by_code c \<le> 503"
  by (cases c) auto

lemma infrastructure_reply_cases:
  "infrastructure_reply e m r = briefly_unavailable r \<or> infrastructure_reply e m r = unexpected r"
  by (auto simp: infrastructure_reply_def split: option.splits)

lemma infrastructure_reply_request_id:
  "error_field ''requestId'' (reply_body (infrastructure_reply e m r)) = JStr r"
  by (rule disjE [OF infrastructure_reply_cases [of e m r]])
    (simp_all add: briefly_unavailable_def unexpected_def)

lemma handle_error_request_id:
  "error_field ''requestId'' (reply_body (handle_error e r)) = JStr r"
  by (cases e) (simp_all add: handle_error_def infrastructure_reply_request_id)

lemma handle_error_infra_message:
  assumes "case e of PgError _ _ \<Rightarrow> True | JsError _ _ \<Rightarrow> True | _ \<Rightarrow> False"
  shows "handle_error e r = briefly_unavailable r \<or> handle_error e r = unexpected r"
  using assms infrastructure_reply_cases by (cases e) (auto simp: handle_error_def)

text \<open>
  C35. Whatever is thrown, the reply carries the id of the request, and an error that is not a
  deliberate reply to the client (a database error or a JavaScript error) is answered with one
  of two fixed texts: neither its message nor its code reaches the client.
\<close>

theorem error_reply_leaks_nothing:
  "error_field ''requestId'' (reply_body (handle_error e rid)) = JStr rid \<and>
   handle_error (PgError c k) rid \<in> {briefly_unavailable rid, unexpected rid} \<and>
   handle_error (JsError code m) rid \<in> {briefly_unavailable rid, unexpected rid}"
  using handle_error_request_id [of e rid] handle_error_infra_message [of "PgError c k" rid]
    handle_error_infra_message [of "JsError code m" rid] by auto

end
