(* ===== verification/Transaction.thy ===== *)
theory Transaction
  imports Database Errors
begin

text \<open>
  \<open>platform/db/transaction.ts\<close>: statements, transactions with their retry policy, and the
  after-commit hooks.

  A transaction body runs on the database it sees and may fail at any statement: \<open>faults\<close>
  gives, for the n-th statement, the error the server or the deadline check raises there (lock
  and statement timeouts, serialization failures, deadlocks, lost connections). Nothing is
  assumed about it, so what is proved of a body holds wherever it is interrupted. A body runs
  alone on its database: the row locks the code takes are what makes that the case for the rows
  it writes.
\<close>

section \<open>The environment of one attempt\<close>

text \<open>
  \<open>now\<close> is the transaction's \<open>now()\<close>, \<open>date_now\<close> the process clock while the attempt runs. The
  hash functions, the token signature and the random values are parameters: \<open>argon_verify\<close> is
  \<open>None\<close> where the library throws. \<open>held\<close> are the rows other transactions have locked, which
  \<open>FOR UPDATE SKIP LOCKED\<close> passes over.
\<close>

datatype commit_outcome =
    Committed
  | Commit_Failed exn
  | Commit_Lost string  \<comment> \<open>committed, but the acknowledgement was lost\<close>

record env =
  now :: micros
  date_now :: millis
  random :: "nat list"
  cfg :: config
  policy :: velocity_policy
  sha256 :: "string \<Rightarrow> string"
  argon_hash :: "string \<Rightarrow> string"
  argon_verify :: "string \<Rightarrow> string \<Rightarrow> bool option"
  jwt_sign :: "json \<Rightarrow> string"
  random32 :: "nat list"
  random_uuid :: uuid
  random_jti :: uuid
  random_stripe :: nat
  wal_lsn :: string
  drawn_entries :: "nat \<times> nat"
  drawn_audit :: nat
  held :: "uuid list"
  faults :: "nat \<Rightarrow> exn option"
  connect_fault :: "exn option"
  begin_fault :: "exn option"
  commit_outcome :: commit_outcome

datatype hook =
    PublishBalance uuid int int
  | TrackWrites "uuid list" string
  | SendSecurityAlert uuid string int

record txs =
  data :: db
  stmts :: nat
  aborted :: bool
  locks :: "uuid list"
  hooks :: "hook list"

type_synonym 'a tx = "env \<Rightarrow> txs \<Rightarrow> (exn + 'a) \<times> txs"

definition tx_return :: "'a \<Rightarrow> 'a tx" where
  "tx_return a = (\<lambda>env s. (Inr a, s))"

definition tx_throw :: "exn \<Rightarrow> 'a tx" where
  "tx_throw e = (\<lambda>env s. (Inl e, s))"

definition tx_bind :: "'a tx \<Rightarrow> ('a \<Rightarrow> 'b tx) \<Rightarrow> 'b tx" where
  "tx_bind m f = (\<lambda>env s. case m env s of (Inl e, s') \<Rightarrow> (Inl e, s') | (Inr a, s') \<Rightarrow> f a env s')"

definition tx_env :: "env tx" where
  "tx_env = (\<lambda>env s. (Inr env, s))"

definition tx_catch :: "'a tx \<Rightarrow> (exn \<Rightarrow> 'a tx) \<Rightarrow> 'a tx" where
  "tx_catch m h = (\<lambda>env s. case m env s of (Inl e, s') \<Rightarrow> h e env s' | (Inr a, s') \<Rightarrow> (Inr a, s'))"

text \<open>\<open>if (c) throw e\<close>.\<close>

definition throw_if :: "bool \<Rightarrow> exn \<Rightarrow> unit tx" where
  "throw_if c e = (if c then tx_throw e else tx_return ())"

text \<open>\<open>if (!x) throw e\<close>, with the value otherwise.\<close>

definition the_or :: "exn \<Rightarrow> 'a option \<Rightarrow> 'a tx" where
  "the_or e x = (case x of None \<Rightarrow> tx_throw e | Some a \<Rightarrow> tx_return a)"

definition from_sum :: "exn + 'a \<Rightarrow> 'a tx" where
  "from_sum r = (case r of Inl e \<Rightarrow> tx_throw e | Inr a \<Rightarrow> tx_return a)"

fun tx_iter :: "('a \<Rightarrow> unit tx) \<Rightarrow> 'a list \<Rightarrow> unit tx" where
  "tx_iter f [] = tx_return ()"
| "tx_iter f (x # xs) = tx_bind (f x) (\<lambda>_. tx_iter f xs)"

fun tx_map :: "('a \<Rightarrow> 'b tx) \<Rightarrow> 'a list \<Rightarrow> 'b list tx" where
  "tx_map f [] = tx_return []"
| "tx_map f (x # xs) = tx_bind (f x) (\<lambda>y. tx_bind (tx_map f xs) (\<lambda>ys. tx_return (y # ys)))"

definition after_commit :: "hook list \<Rightarrow> unit tx" where
  "after_commit hs = (\<lambda>env s. (Inr (), s\<lparr>hooks := hooks s @ hs\<rparr>))"

section \<open>Statements\<close>

definition is_server_error :: "exn \<Rightarrow> bool" where
  "is_server_error e = (case e of PgError _ _ \<Rightarrow> True | _ \<Rightarrow> False)"

text \<open>
  One \<open>tx.query\<close>. After a server error Postgres refuses every statement until the transaction,
  or the savepoint, is rolled back.
\<close>

definition query :: "(env \<Rightarrow> db \<Rightarrow> exn + 'a \<times> db) \<Rightarrow> 'a tx" where
  "query f = (\<lambda>env s.
     (let s1 = s\<lparr>stmts := Suc (stmts s)\<rparr> in
      case faults env (stmts s) of
        Some e \<Rightarrow> (Inl e, s1\<lparr>aborted := aborted s \<or> is_server_error e\<rparr>)
      | None \<Rightarrow>
          if aborted s then (Inl (PgError ''25P02'' None), s1)
          else (case f env (data s) of
              Inl e \<Rightarrow> (Inl e, s1\<lparr>aborted := True\<rparr>)
            | Inr (a, d) \<Rightarrow> (Inr a, s1\<lparr>data := d\<rparr>))))"

definition select :: "(env \<Rightarrow> db \<Rightarrow> 'a) \<Rightarrow> 'a tx" where
  "select f = query (\<lambda>env d. Inr (f env d, d))"

text \<open>
  \<open>SELECT ... FOR UPDATE\<close> of one account row: the account is noted in \<open>locks\<close>, in the order the
  locks are taken, when there is a row to lock.
\<close>

definition note_lock :: "uuid option \<Rightarrow> unit tx" where
  "note_lock x = (\<lambda>env s. (Inr (), case x of None \<Rightarrow> s | Some i \<Rightarrow> s\<lparr>locks := locks s @ [i]\<rparr>))"

text \<open>
  \<open>SAVEPOINT x; try { body; RELEASE SAVEPOINT x; rest } catch (e) { ROLLBACK TO SAVEPOINT x; h }\<close>,
  where errors that are not \<open>handled\<close> are thrown on. Once the savepoint is released the server
  refuses to roll back to it.
\<close>

definition command :: "unit tx" where
  "command = query (\<lambda>env d. Inr ((), d))"

definition NO_SAVEPOINT :: exn where
  "NO_SAVEPOINT = PgError ''3B001'' None"

definition savepoint_try ::
  "(exn \<Rightarrow> bool) \<Rightarrow> 'a tx \<Rightarrow> ('a \<Rightarrow> 'b tx) \<Rightarrow> (exn \<Rightarrow> 'b tx) \<Rightarrow> 'b tx" where
  "savepoint_try handled body rest h =
     tx_bind command (\<lambda>_ env s.
       case tx_bind body (\<lambda>a. tx_bind command (\<lambda>_. tx_return a)) env s of
         (Inl e, s1) \<Rightarrow>
           if handled e
           then tx_bind command (\<lambda>_. h e) env (s1\<lparr>data := data s, aborted := aborted s\<rparr>)
           else (Inl e, s1)
       | (Inr a, s1) \<Rightarrow>
           (case rest a env s1 of
              (Inl e, s2) \<Rightarrow>
                if handled e then query (\<lambda>_ _. Inl NO_SAVEPOINT) env s2 else (Inl e, s2)
            | (Inr b, s2) \<Rightarrow> (Inr b, s2)))"

section \<open>Transactions\<close>

definition is_retryable :: "exn \<Rightarrow> bool" where
  "is_retryable e \<longleftrightarrow> pg_error_code e \<in> {Some SERIALIZATION_FAILURE, Some DEADLOCK_DETECTED}"

definition begin_state :: "db \<Rightarrow> txs" where
  "begin_state d = \<lparr>data = d, stmts = 0, aborted = False, locks = [], hooks = []\<rparr>"

text \<open>
  One attempt, from BEGIN to COMMIT. \<open>COMMIT\<close> of an aborted transaction rolls it back without
  an error.
\<close>

definition attempt :: "'a tx \<Rightarrow> env \<Rightarrow> db \<Rightarrow> (exn + 'a \<times> hook list) \<times> db" where
  "attempt fn env d =
     (case begin_fault env of
        Some e \<Rightarrow> (Inl e, d)
      | None \<Rightarrow>
          (case fn env (begin_state d) of
             (Inl e, _) \<Rightarrow> (Inl e, d)
           | (Inr a, s) \<Rightarrow>
               (case commit_outcome env of
                  Committed \<Rightarrow> (Inr (a, hooks s), if aborted s then d else data s)
                | Commit_Failed e \<Rightarrow> (Inl e, d)
                | Commit_Lost m \<Rightarrow> (Inl (JsError None m), if aborted s then d else data s))))"

text \<open>
  \<open>withTransaction\<close> with \<open>maxAttempts\<close> attempts left, the next one being number n. A failure to
  get a connection leaves the loop.
\<close>

fun with_transaction :: "nat \<Rightarrow> nat \<Rightarrow> 'a tx \<Rightarrow> (nat \<Rightarrow> env) \<Rightarrow> db \<Rightarrow> (exn + 'a \<times> hook list) \<times> db" where
  "with_transaction 0 n fn envs d = (Inl (JsError None ''undefined''), d)"
| "with_transaction (Suc k) n fn envs d =
     (case connect_fault (envs n) of
        Some e \<Rightarrow> (Inl e, d)
      | None \<Rightarrow>
          (case attempt fn (envs n) d of
             (Inl e, d') \<Rightarrow>
               if is_retryable e \<and> 0 < k then with_transaction k (Suc n) fn envs d' else (Inl e, d')
           | (Inr r, d') \<Rightarrow> (Inr r, d')))"

abbreviation MAX_ATTEMPTS :: nat where
  "MAX_ATTEMPTS \<equiv> 3"

definition transact :: "'a tx \<Rightarrow> (nat \<Rightarrow> env) \<Rightarrow> db \<Rightarrow> (exn + 'a \<times> hook list) \<times> db" where
  "transact fn envs d = with_transaction MAX_ATTEMPTS 1 fn envs d"

text \<open>\<open>withReadTransaction\<close>, and every call with \<open>readOnly: true, maxAttempts: 1\<close>.\<close>

definition read_transact :: "'a tx \<Rightarrow> (nat \<Rightarrow> env) \<Rightarrow> db \<Rightarrow> (exn + 'a \<times> hook list) \<times> db" where
  "read_transact fn envs d = with_transaction 1 1 fn envs d"

text \<open>A statement on the pool, outside any transaction: it commits by itself.\<close>

definition pool_query :: "(env \<Rightarrow> db \<Rightarrow> exn + 'a \<times> db) \<Rightarrow> env \<Rightarrow> db \<Rightarrow> (exn + 'a) \<times> db" where
  "pool_query f env d =
     (case connect_fault env of
        Some e \<Rightarrow> (Inl e, d)
      | None \<Rightarrow>
          (case faults env 0 of
             Some e \<Rightarrow> (Inl e, d)
           | None \<Rightarrow> (case f env d of Inl e \<Rightarrow> (Inl e, d) | Inr (a, d') \<Rightarrow> (Inr a, d'))))"

section \<open>Reasoning about bodies\<close>

text \<open>
  \<open>triple P m Q\<close>: started in a live transaction whose database satisfies \<open>P\<close>, a run of \<open>m\<close>
  that returns leaves a live transaction, and result and database satisfy \<open>Q\<close>. A run that throws
  is unconstrained: its database is discarded. \<open>keeps I m\<close> is the case of an invariant.
\<close>

definition triple :: "(env \<Rightarrow> db \<Rightarrow> bool) \<Rightarrow> 'a tx \<Rightarrow> (env \<Rightarrow> 'a \<Rightarrow> db \<Rightarrow> bool) \<Rightarrow> bool" where
  "triple P m Q \<longleftrightarrow>
     (\<forall>env s a s'. \<not> aborted s \<longrightarrow> P env (data s) \<longrightarrow> m env s = (Inr a, s') \<longrightarrow>
        \<not> aborted s' \<and> Q env a (data s'))"

definition keeps :: "(db \<Rightarrow> bool) \<Rightarrow> 'a tx \<Rightarrow> bool" where
  "keeps I m \<longleftrightarrow> triple (\<lambda>_. I) m (\<lambda>_ _. I)"

lemma tripleI:
  assumes "\<And>env s a s'. \<not> aborted s \<Longrightarrow> P env (data s) \<Longrightarrow> m env s = (Inr a, s') \<Longrightarrow>
      \<not> aborted s' \<and> Q env a (data s')"
  shows "triple P m Q"
  unfolding triple_def by (intro allI impI) (rule assms)

lemma tripleD:
  assumes "triple P m Q" and "m env s = (Inr a, s')" and "\<not> aborted s" and "P env (data s)"
  shows "\<not> aborted s' \<and> Q env a (data s')"
  using assms(1) [unfolded triple_def, rule_format, OF assms(3,4,2)] .

lemma triple_weaken:
  assumes "triple P' m Q'" and "\<And>env d. P env d \<Longrightarrow> P' env d"
    and "\<And>env a d. Q' env a d \<Longrightarrow> Q env a d"
  shows "triple P m Q"
  by (rule tripleI) (blast dest: tripleD [OF assms(1)] intro: assms(2,3))

lemma triple_conj:
  assumes "triple P m Q" and "triple P' m Q'"
  shows "triple (\<lambda>env d. P env d \<and> P' env d) m (\<lambda>env a d. Q env a d \<and> Q' env a d)"
  by (rule tripleI) (blast dest: tripleD [OF assms(1)] tripleD [OF assms(2)])

lemma triple_pre: "(C \<Longrightarrow> triple P m Q) \<Longrightarrow> triple (\<lambda>env d. P env d \<and> C) m Q"
  by (rule tripleI) (blast dest: tripleD)

lemma triple_return: "triple (\<lambda>env d. Q env a d) (tx_return a) Q"
  by (rule tripleI) (auto simp: tx_return_def)

lemma triple_throw: "triple P (tx_throw e) Q"
  by (rule tripleI) (auto simp: tx_throw_def)

lemma tx_bind_Inr_iff [run_simps]:
  "tx_bind m f env s = (Inr b, s') \<longleftrightarrow>
     (\<exists>a s1. m env s = (Inr a, s1) \<and> f a env s1 = (Inr b, s'))"
  by (auto simp: tx_bind_def split: prod.splits sum.splits)

lemma triple_bind:
  assumes "triple P m R" and "\<And>a. triple (\<lambda>env d. R env a d) (f a) Q"
  shows "triple P (tx_bind m f) Q"
proof (rule tripleI)
  fix env s b s'
  assume s: "\<not> aborted s" "P env (data s)" and "tx_bind m f env s = (Inr b, s')"
  then obtain a s1 where "m env s = (Inr a, s1)" and f: "f a env s1 = (Inr b, s')"
    by (auto simp: tx_bind_Inr_iff)
  with tripleD [OF assms(1)] s have "\<not> aborted s1" "R env a (data s1)" by simp_all
  with tripleD [OF assms(2) f] show "\<not> aborted s' \<and> Q env b (data s')" by simp
qed

lemma triple_env: "triple P tx_env (\<lambda>env a d. P env d \<and> a = env)"
  by (rule tripleI) (auto simp: tx_env_def)

lemma triple_throw_if: "triple P (throw_if c e) (\<lambda>env _ d. P env d \<and> \<not> c)"
  by (cases c; rule tripleI) (auto simp: throw_if_def tx_throw_def tx_return_def)

lemma triple_the_or: "triple P (the_or e x) (\<lambda>env a d. P env d \<and> x = Some a)"
  by (rule tripleI) (auto simp: the_or_def tx_throw_def tx_return_def split: option.splits)

lemma triple_from_sum: "triple P (from_sum r) (\<lambda>env a d. P env d \<and> r = Inr a)"
  by (rule tripleI) (auto simp: from_sum_def tx_throw_def tx_return_def split: sum.splits)

lemma triple_note_lock: "triple P (note_lock x) (\<lambda>env _ d. P env d)"
  by (rule tripleI) (auto simp: note_lock_def split: option.splits)

lemma triple_after_commit: "triple P (after_commit hs) (\<lambda>env _ d. P env d)"
  by (rule tripleI) (auto simp: after_commit_def)

text \<open>What a statement that succeeds has done.\<close>

lemma query_Inr_iff [run_simps]:
  "query f env s = (Inr a, s') \<longleftrightarrow>
     faults env (stmts s) = None \<and> \<not> aborted s \<and>
     (\<exists>d. f env (data s) = Inr (a, d) \<and> s' = s\<lparr>stmts := Suc (stmts s), data := d\<rparr>)"
  by (auto simp: query_def Let_def split: option.splits sum.splits if_splits)

lemma select_Inr_iff [run_simps]:
  "select f env s = (Inr a, s') \<longleftrightarrow>
     faults env (stmts s) = None \<and> \<not> aborted s \<and> a = f env (data s) \<and> s' = s\<lparr>stmts := Suc (stmts s)\<rparr>"
  by (auto simp: select_def query_Inr_iff)

lemma return_Inr_iff [run_simps]: "tx_return a env s = (Inr b, s') \<longleftrightarrow> b = a \<and> s' = s"
  by (auto simp: tx_return_def)

lemma throw_Inr_iff [run_simps]: "tx_throw e env s = (Inr b, s') \<longleftrightarrow> False"
  by (simp add: tx_throw_def)

lemma env_Inr_iff [run_simps]: "tx_env env s = (Inr b, s') \<longleftrightarrow> b = env \<and> s' = s"
  by (auto simp: tx_env_def)

lemma throw_if_Inr_iff [run_simps]: "throw_if c e env s = (Inr u, s') \<longleftrightarrow> \<not> c \<and> s' = s"
  by (cases c) (auto simp: throw_if_def tx_throw_def tx_return_def)

lemma the_or_Inr_iff [run_simps]: "the_or e x env s = (Inr a, s') \<longleftrightarrow> x = Some a \<and> s' = s"
  by (cases x) (auto simp: the_or_def tx_throw_def tx_return_def)

lemma from_sum_Inr_iff [run_simps]: "from_sum r env s = (Inr a, s') \<longleftrightarrow> r = Inr a \<and> s' = s"
  by (cases r) (auto simp: from_sum_def tx_throw_def tx_return_def)

lemma note_lock_Inr_iff [run_simps]:
  "note_lock x env s = (Inr u, s') \<longleftrightarrow>
     s' = (case x of None \<Rightarrow> s | Some i \<Rightarrow> s\<lparr>locks := locks s @ [i]\<rparr>)"
  by (auto simp: note_lock_def)

lemma after_commit_Inr_iff [run_simps]:
  "after_commit hs env s = (Inr u, s') \<longleftrightarrow> s' = s\<lparr>hooks := hooks s @ hs\<rparr>"
  by (auto simp: after_commit_def)

lemma triple_query:
  "(\<And>env d a d'. P env d \<Longrightarrow> f env d = Inr (a, d') \<Longrightarrow> Q env a d') \<Longrightarrow> triple P (query f) Q"
  by (rule tripleI) (auto simp: query_Inr_iff)

lemma triple_select: "triple P (select f) (\<lambda>env a d. P env d \<and> a = f env d)"
  unfolding select_def by (rule triple_query) auto

lemma triple_if:
  "(c \<Longrightarrow> triple P m Q) \<Longrightarrow> (\<not> c \<Longrightarrow> triple P n Q) \<Longrightarrow> triple P (if c then m else n) Q"
  by simp

lemma triple_iter:
  "(\<And>x. x \<in> set xs \<Longrightarrow> triple P (f x) (\<lambda>env _. P env)) \<Longrightarrow> triple P (tx_iter f xs) (\<lambda>env _. P env)"
proof (induction xs)
  case Nil
  show ?case using triple_return [of "\<lambda>env _. P env" "()"] by simp
next
  case (Cons x xs)
  then show ?case by (auto intro: triple_bind)
qed

lemma triple_map:
  "(\<And>x. x \<in> set xs \<Longrightarrow> triple P (f x) (\<lambda>env _. P env)) \<Longrightarrow> triple P (tx_map f xs) (\<lambda>env _. P env)"
proof (induction xs)
  case Nil
  show ?case using triple_return [of "\<lambda>env _. P env" "[]"] by simp
next
  case (Cons x xs)
  have "triple P (tx_map f xs) (\<lambda>env _. P env)" using Cons by simp
  then show ?case
    using Cons.prems [of x] triple_return [of "\<lambda>env _. P env"]
    by (auto intro!: triple_bind [where R = "\<lambda>env _. P env"])
qed

text \<open>A handler that only translates the error.\<close>

definition throws :: "'a tx \<Rightarrow> bool" where
  "throws m \<longleftrightarrow> (\<forall>env s. \<exists>e s'. m env s = (Inl e, s'))"

lemma throws_throw [simp]: "throws (tx_throw e)"
  by (simp add: throws_def tx_throw_def)

lemma tx_catch_Inr:
  assumes "\<And>e. throws (h e)"
  shows "tx_catch m h env s = (Inr a, s') \<longleftrightarrow> m env s = (Inr a, s')"
proof (cases "m env s")
  case (Pair r s1)
  show ?thesis
  proof (cases r)
    case (Inl e)
    obtain e' s2 where "h e env s1 = (Inl e', s2)" using assms unfolding throws_def by blast
    with Pair Inl show ?thesis by (simp add: tx_catch_def)
  qed (simp add: tx_catch_def Pair)
qed

lemma triple_catch: "triple P m Q \<Longrightarrow> (\<And>e. throws (h e)) \<Longrightarrow> triple P (tx_catch m h) Q"
  by (rule tripleI) (drule tx_catch_Inr [THEN iffD1, rotated], blast, blast dest: tripleD)

lemma command_Inr_iff [run_simps]:
  "command env s = (Inr u, s') \<longleftrightarrow>
     faults env (stmts s) = None \<and> \<not> aborted s \<and> s' = s\<lparr>stmts := Suc (stmts s)\<rparr>"
  by (auto simp: command_def query_Inr_iff)

lemma triple_command: "triple P command (\<lambda>env _ d. P env d)"
  unfolding command_def by (rule triple_query) auto

lemma savepoint_try_cases:
  assumes run: "savepoint_try hdl body rest h env s = (Inr b, s')"
  obtains (done_ok) a s1 s2 s3 where "command env s = (Inr (), s1)" "body env s1 = (Inr a, s2)"
      "command env s2 = (Inr (), s3)" "rest a env s3 = (Inr b, s')"
    | (rolled_back) e s1 s2 s3 where "command env s = (Inr (), s1)" "hdl e" "h e env s3 = (Inr b, s')"
      "command env (s2\<lparr>data := data s1, aborted := aborted s1\<rparr>) = (Inr (), s3)"
      "body env s1 = (Inl e, s2) \<or> (\<exists>a q. body env s1 = (Inr a, q))"
proof -
  from run obtain s1 where c: "command env s = (Inr (), s1)" and
    k: "(case tx_bind body (\<lambda>a. tx_bind command (\<lambda>_. tx_return a)) env s1 of
         (Inl e, s2) \<Rightarrow>
           if hdl e
           then tx_bind command (\<lambda>_. h e) env (s2\<lparr>data := data s1, aborted := aborted s1\<rparr>)
           else (Inl e, s2)
       | (Inr a, s2) \<Rightarrow>
           (case rest a env s2 of
              (Inl e, s3) \<Rightarrow>
                if hdl e then query (\<lambda>_ _. Inl NO_SAVEPOINT) env s3 else (Inl e, s3)
            | (Inr b, s3) \<Rightarrow> (Inr b, s3))) = (Inr b, s')"
    unfolding savepoint_try_def tx_bind_Inr_iff by (elim exE conjE) (rule that, simp_all)
  obtain z s2 where z: "tx_bind body (\<lambda>a. tx_bind command (\<lambda>_. tx_return a)) env s1 = (z, s2)" by fastforce
  show thesis
  proof (cases z)
    case (Inr a)
    obtain q s3 where q: "rest a env s2 = (q, s3)" by fastforce
    have "q = Inr b" "s3 = s'" using k z Inr q by (auto simp: query_Inr_iff split: sum.splits if_splits)
    with done_ok c z Inr q show thesis by (auto simp: tx_bind_Inr_iff return_Inr_iff)
  next
    case (Inl e)
    have r: "hdl e" "tx_bind command (\<lambda>_. h e) env (s2\<lparr>data := data s1, aborted := aborted s1\<rparr>) = (Inr b, s')"
      using k z Inl by (auto split: if_splits)
    from r(2) obtain s3 where s3: "command env (s2\<lparr>data := data s1, aborted := aborted s1\<rparr>) = (Inr (), s3)"
      and h: "h e env s3 = (Inr b, s')" by (auto simp: tx_bind_Inr_iff)
    have "body env s1 = (Inl e, s2) \<or> (\<exists>a q. body env s1 = (Inr a, q))"
      using z Inl by (auto simp: tx_bind_def split: prod.splits sum.splits)
    then show thesis by (rule rolled_back [OF c r(1) h s3])
  qed
qed

lemma triple_savepoint:
  assumes b: "triple P body R" and r: "\<And>a. triple (\<lambda>env. R env a) (rest a) Q"
    and h: "\<And>e. hdl e \<Longrightarrow> triple P (h e) Q"
  shows "triple P (savepoint_try hdl body rest h) Q"
proof (rule tripleI)
  fix env s a s'
  assume s: "\<not> aborted s" "P env (data s)" and run: "savepoint_try hdl body rest h env s = (Inr a, s')"
  from run show "\<not> aborted s' \<and> Q env a (data s')"
  proof (cases rule: savepoint_try_cases)
    case (done_ok x s1 s2 s3)
    have "\<not> aborted s2 \<and> R env x (data s2)"
      by (rule tripleD [OF b done_ok(2)]) (use done_ok(1) s in \<open>auto simp: command_Inr_iff\<close>)
    then show ?thesis
      by (intro tripleD [OF r done_ok(4)]) (use done_ok(3) in \<open>auto simp: command_Inr_iff\<close>)
  next
    case (rolled_back e s1 s2 s3)
    show ?thesis
      by (rule tripleD [OF h rolled_back(3)]) (use rolled_back s in \<open>auto simp: command_Inr_iff\<close>)
  qed
qed

section \<open>Invariants\<close>

lemma keeps_return [keeps_intros]: "keeps I (tx_return a)"
  unfolding keeps_def by (rule triple_return)

lemma keeps_throw [keeps_intros]: "keeps I (tx_throw e)"
  unfolding keeps_def by (rule triple_throw)

lemma keeps_bind [keeps_intros]: "keeps I m \<Longrightarrow> (\<And>a. keeps I (f a)) \<Longrightarrow> keeps I (tx_bind m f)"
  unfolding keeps_def by (rule triple_bind)

lemma keeps_env [keeps_intros]: "keeps I tx_env"
  unfolding keeps_def by (rule triple_weaken [OF triple_env [where P = "\<lambda>_. I"]]) auto

lemma keeps_throw_if [keeps_intros]: "keeps I (throw_if c e)"
  unfolding keeps_def by (rule triple_weaken [OF triple_throw_if [where P = "\<lambda>_. I"]]) auto

lemma keeps_the_or [keeps_intros]: "keeps I (the_or e x)"
  unfolding keeps_def by (rule triple_weaken [OF triple_the_or [where P = "\<lambda>_. I"]]) auto

lemma keeps_from_sum [keeps_intros]: "keeps I (from_sum r)"
  unfolding keeps_def by (rule triple_weaken [OF triple_from_sum [where P = "\<lambda>_. I"]]) auto

lemma keeps_note_lock [keeps_intros]: "keeps I (note_lock x)"
  unfolding keeps_def by (rule triple_weaken [OF triple_note_lock [where P = "\<lambda>_. I"]]) auto

lemma keeps_after_commit [keeps_intros]: "keeps I (after_commit hs)"
  unfolding keeps_def by (rule triple_weaken [OF triple_after_commit [where P = "\<lambda>_. I"]]) auto

lemma keeps_select [keeps_intros]: "keeps I (select f)"
  unfolding keeps_def by (rule triple_weaken [OF triple_select [where P = "\<lambda>_. I"]]) auto

lemma keeps_query:
  "(\<And>env d a d'. I d \<Longrightarrow> f env d = Inr (a, d') \<Longrightarrow> I d') \<Longrightarrow> keeps I (query f)"
  unfolding keeps_def by (rule triple_query)

lemma keeps_if [keeps_intros]: "keeps I m \<Longrightarrow> keeps I n \<Longrightarrow> keeps I (if c then m else n)"
  by simp

lemma keeps_case_option [keeps_intros]:
  "keeps I m \<Longrightarrow> (\<And>a. keeps I (f a)) \<Longrightarrow> keeps I (case x of None \<Rightarrow> m | Some a \<Rightarrow> f a)"
  by (cases x) auto

lemma keeps_case_prod [keeps_intros]:
  "(\<And>a b. keeps I (f a b)) \<Longrightarrow> keeps I (case x of (a, b) \<Rightarrow> f a b)"
  by (cases x) auto

lemma keeps_iter [keeps_intros]: "(\<And>x. keeps I (f x)) \<Longrightarrow> keeps I (tx_iter f xs)"
  unfolding keeps_def by (rule triple_iter)

lemma keeps_map [keeps_intros]: "(\<And>x. keeps I (f x)) \<Longrightarrow> keeps I (tx_map f xs)"
  unfolding keeps_def by (rule triple_map)

lemma keeps_catch: "keeps I m \<Longrightarrow> (\<And>e. throws (h e)) \<Longrightarrow> keeps I (tx_catch m h)"
  unfolding keeps_def by (rule triple_catch)

lemma keeps_command [keeps_intros]: "keeps I command"
  unfolding keeps_def by (rule triple_weaken [OF triple_command [where P = "\<lambda>_. I"]]) auto

lemma keeps_savepoint [keeps_intros]:
  "keeps I body \<Longrightarrow> (\<And>a. keeps I (rest a)) \<Longrightarrow> (\<And>e. keeps I (h e)) \<Longrightarrow>
   keeps I (savepoint_try hdl body rest h)"
  unfolding keeps_def by (rule triple_savepoint)

lemma keeps_conj: "keeps I m \<Longrightarrow> keeps J m \<Longrightarrow> keeps (\<lambda>d. I d \<and> J d) m"
  unfolding keeps_def by (drule (1) triple_conj) simp

section \<open>What a transaction does to the database\<close>

text \<open>
  Whatever fails and however often the body is retried, the database afterwards is the one
  before, or the outcome of one complete run of the body on it.
\<close>

lemma attempt_cases:
  assumes "attempt fn env d = (r, d')"
  obtains (rolled_back) e where "r = Inl e" "d' = d"
    | (committed) a s where "fn env (begin_state d) = (Inr a, s)" "commit_outcome env = Committed"
        "r = Inr (a, hooks s)" "d' = (if aborted s then d else data s)"
    | (lost) a s m where "fn env (begin_state d) = (Inr a, s)" "commit_outcome env = Commit_Lost m"
        "r = Inl (JsError None m)" "d' = (if aborted s then d else data s)"
  using assms
  by (auto simp: attempt_def split: option.splits prod.splits sum.splits commit_outcome.splits)

lemma lost_not_retryable: "\<not> is_retryable (JsError None m)"
  by (simp add: is_retryable_def)

lemma with_transaction_cases:
  assumes "with_transaction k n fn envs d = (r, d')"
  obtains (rolled_back) e where "r = Inl e" "d' = d"
    | (committed) i a s where "fn (envs i) (begin_state d) = (Inr a, s)" "n \<le> i" "i < n + k"
        "r = Inr (a, hooks s)" "d' = (if aborted s then d else data s)"
    | (lost) i a s m where "fn (envs i) (begin_state d) = (Inr a, s)" "n \<le> i" "i < n + k"
        "r = Inl (JsError None m)" "d' = (if aborted s then d else data s)"
  using assms
proof (induction k n fn envs d arbitrary: thesis rule: with_transaction.induct)
  case (1 n fn envs d)
  then show ?case by auto
next
  case (2 k n fn envs d)
  show ?case
  proof (cases "connect_fault (envs n)")
    case (Some e)
    with 2 show ?thesis by auto
  next
    case None
    obtain r1 d1 where a: "attempt fn (envs n) d = (r1, d1)" by fastforce
    show ?thesis
    proof (cases "\<exists>e. r1 = Inl e \<and> is_retryable e \<and> 0 < k")
      case True
      then obtain e where e: "r1 = Inl e" "is_retryable e" "0 < k" by blast
      from a have d1: "d1 = d"
        by (cases rule: attempt_cases) (use e lost_not_retryable in auto)
      have run: "with_transaction k (Suc n) fn envs d = (r, d')"
        using 2(5) None a e d1 by simp
      show ?thesis
      proof (rule 2(1) [OF None a [symmetric] e(1), unfolded d1])
        show "is_retryable e \<and> 0 < k" using e by simp
      qed (use 2(2-4) run in \<open>auto\<close>)
    next
      case False
      then have rd: "r = r1" "d' = d1" using 2(5) None a by (auto split: sum.splits if_splits)
      from a show ?thesis
        by (cases rule: attempt_cases) (use 2(2-4) rd in \<open>auto\<close>)
    qed
  qed
qed

lemma transact_triple:
  assumes "triple (\<lambda>env. P env) fn Q" and "\<And>i. P (envs i) d"
    and "transact fn envs d = (r, d')"
  shows "(\<exists>e. r = Inl e) \<and> d' = d \<or>
         (\<exists>i a. Q (envs i) a d' \<and> ((\<exists>hs. r = Inr (a, hs)) \<or> (\<exists>m. r = Inl (JsError None m))))"
proof -
  have live: "\<not> aborted s \<and> Q (envs i) a (data s)" if "fn (envs i) (begin_state d) = (Inr a, s)" for i a s
    by (rule tripleD [OF assms(1) that]) (simp_all add: begin_state_def assms(2))
  show ?thesis
    using assms(3) [unfolded transact_def]
    by (cases rule: with_transaction_cases) (use live in \<open>fastforce\<close>)+
qed

lemma transact_keeps:
  assumes "keeps I fn" and "I d" and "transact fn envs d = (r, d')"
  shows "I d'"
  using transact_triple [OF assms(1) [unfolded keeps_def] _ assms(3)] assms(2) by blast

text \<open>Evaluation of a body whose statements do not fail.\<close>

lemma query_ok [eval_simps]:
  "faults env = (\<lambda>_. None) \<Longrightarrow> \<not> aborted s \<Longrightarrow>
   query f env s =
     (case f env (data s) of
        Inl e \<Rightarrow> (Inl e, s\<lparr>stmts := Suc (stmts s), aborted := True\<rparr>)
      | Inr (a, d) \<Rightarrow> (Inr a, s\<lparr>stmts := Suc (stmts s), data := d\<rparr>))"
  by (simp add: query_def Let_def)

lemma select_ok [eval_simps]:
  "faults env = (\<lambda>_. None) \<Longrightarrow> \<not> aborted s \<Longrightarrow>
   select f env s = (Inr (f env (data s)), s\<lparr>stmts := Suc (stmts s)\<rparr>)"
  by (simp add: select_def query_ok)

lemma bind_ok [eval_simps]:
  "tx_bind m f env s = (case m env s of (Inl e, s') \<Rightarrow> (Inl e, s') | (Inr a, s') \<Rightarrow> f a env s')"
  by (simp add: tx_bind_def)

lemma command_ok [eval_simps]:
  "faults env = (\<lambda>_. None) \<Longrightarrow> \<not> aborted s \<Longrightarrow> command env s = (Inr (), s\<lparr>stmts := Suc (stmts s)\<rparr>)"
  by (simp add: command_def query_ok)

lemma catch_ok [eval_simps]:
  "tx_catch m h env s = (case m env s of (Inl e, s') \<Rightarrow> h e env s' | (Inr a, s') \<Rightarrow> (Inr a, s'))"
  by (simp add: tx_catch_def)

lemma basic_ok [eval_simps]:
  "tx_return a env s = (Inr a, s)" "tx_throw e env s = (Inl e, s)" "tx_env env s = (Inr env, s)"
  "the_or e (Some a) = tx_return a" "the_or e None = tx_throw e"
  "throw_if False e = tx_return ()" "throw_if True e = tx_throw e"
  "from_sum (Inr a) = tx_return a" "from_sum (Inl e) = tx_throw e"
  "after_commit hs env s = (Inr (), s\<lparr>hooks := hooks s @ hs\<rparr>)"
  "note_lock (Some i) env s = (Inr (), s\<lparr>locks := locks s @ [i]\<rparr>)" "note_lock None env s = (Inr (), s)"
  by (simp_all add: tx_return_def tx_throw_def tx_env_def the_or_def throw_if_def from_sum_def
      after_commit_def note_lock_def)

text \<open>An attempt in which nothing outside the body fails.\<close>

definition reliable :: "env \<Rightarrow> bool" where
  "reliable env \<longleftrightarrow>
     faults env = (\<lambda>_. None) \<and> connect_fault env = None \<and> begin_fault env = None \<and>
     commit_outcome env = Committed"

lemma transact_reliable:
  "reliable (envs 1) \<Longrightarrow> fn (envs 1) (begin_state d) = (Inr a, s) \<Longrightarrow> \<not> aborted s \<Longrightarrow>
   transact fn envs d = (Inr (a, hooks s), data s)"
  by (simp add: transact_def numeral_3_eq_3 reliable_def attempt_def)

lemma transact_reliable_error:
  "reliable (envs 1) \<Longrightarrow> fn (envs 1) (begin_state d) = (Inl e, s) \<Longrightarrow> \<not> is_retryable e \<Longrightarrow>
   transact fn envs d = (Inl e, d)"
  by (simp add: transact_def numeral_3_eq_3 reliable_def attempt_def)

lemma pool_query_reliable:
  "reliable env \<Longrightarrow> f env d = Inr (a, d') \<Longrightarrow> pool_query f env d = (Inr a, d')"
  by (simp add: reliable_def pool_query_def)

lemma transact_Inr:
  assumes "transact fn envs d = (Inr (a, hs), d')"
  obtains i s where "fn (envs i) (begin_state d) = (Inr a, s)" "hs = hooks s"
    "d' = (if aborted s then d else data s)"
  using assms unfolding transact_def by (cases rule: with_transaction_cases) auto

lemma read_transact_keeps:
  assumes "keeps I fn" and "I d" and "read_transact fn envs d = (r, d')"
  shows "I d'"
proof -
  have live: "\<not> aborted s \<and> I (data s)" if "fn (envs i) (begin_state d) = (Inr a, s)" for i a s
    using assms(1) [unfolded keeps_def] that by (rule tripleD) (simp_all add: begin_state_def assms(2))
  show ?thesis
    using assms(3) [unfolded read_transact_def]
    by (cases rule: with_transaction_cases) (use live assms(2) in auto)
qed

lemma read_transact_reliable:
  "reliable (envs 1) \<Longrightarrow> fn (envs 1) (begin_state d) = (Inr a, s) \<Longrightarrow> \<not> aborted s \<Longrightarrow>
   read_transact fn envs d = (Inr (a, hooks s), data s)"
  by (simp add: read_transact_def reliable_def attempt_def)

lemma begin_state_simps [simp]:
  "data (begin_state d) = d" "stmts (begin_state d) = 0" "\<not> aborted (begin_state d)"
  "locks (begin_state d) = []" "hooks (begin_state d) = []"
  by (simp_all add: begin_state_def)

end
