(* ===== verification/Money.thy ===== *)
theory Money
  imports Errors
begin

text \<open>
  \<open>shared/money.ts\<close>: amounts are integers of poisha (\<open>bigint\<close> in the code), strings on the
  wire, and \<open>formatTaka\<close>/\<open>takaToMinor\<close> print and read them as taka.
\<close>

abbreviation POISHA_PER_TAKA :: int where
  "POISHA_PER_TAKA \<equiv> 100"

text \<open>
  The values \<open>toMinor\<close> accepts. A number is given by its integer value, when it has one, and
  its text.
\<close>

datatype minor_input =
    MNull
  | MBigint int
  | MNumber "int option" string
  | MString string

definition safe_integer :: "int option \<Rightarrow> bool" where
  "safe_integer v = (case v of None \<Rightarrow> False | Some n \<Rightarrow> \<bar>n\<bar> \<le> 2 ^ 53 - 1)"

definition to_minor :: "minor_input \<Rightarrow> exn + int" where
  "to_minor value =
     (case value of
        MNull \<Rightarrow> Inl (JsError None ''Expected a monetary amount, received null/undefined'')
      | MBigint n \<Rightarrow> Inr n
      | MNumber v t \<Rightarrow>
          (if safe_integer v then Inr (the v)
           else Inl (JsError None (''Unsafe numeric amount: '' @ t)))
      | MString s \<Rightarrow>
          (let trimmed = js_trim s in
           if is_int_text trimmed then Inr (big_int trimmed)
           else Inl (JsError None (''Not an integer minor-unit amount: '' @ json_string s))))"

text \<open>
  The replacement of \<open>/\<backslash>B(?=(\<backslash>d{3})+(?!\<backslash>d))/g\<close> by a comma, on a text of digits: a comma goes
  before every position, except the first, from which a multiple of three digits remains.
\<close>

fun group_digits :: "string \<Rightarrow> string" where
  "group_digits [] = []"
| "group_digits (c # s) =
     (if s \<noteq> [] \<and> length s mod 3 = 0 then c # CHR '','' # group_digits s else c # group_digits s)"

definition format_taka :: "int \<Rightarrow> string" where
  "format_taka minor =
     (let negative = minor < 0;
          magn = (if negative then - minor else minor);
          taka = magn div POISHA_PER_TAKA;
          poisha = magn mod POISHA_PER_TAKA;
          grouped = group_digits (int_text taka)
      in (if negative then ''-'' else '''') @ grouped @ ''.'' @ pad_start 2 (int_text poisha))"

text \<open>\<open>/^(-?)(\<backslash>d+)(?:\<backslash>.(\<backslash>d{1,2}))?$/\<close>: sign, whole part and the optional fraction.\<close>

definition taka_match :: "string \<Rightarrow> (bool \<times> string \<times> string option) option" where
  "taka_match s =
     (let neg = (case s of c # _ \<Rightarrow> c = CHR ''-'' | [] \<Rightarrow> False);
          t = (if neg then tl s else s);
          whole = takeWhile is_digit t;
          rest = dropWhile is_digit t
      in if whole = [] then None
         else (case rest of
             [] \<Rightarrow> Some (neg, whole, None)
           | c # f \<Rightarrow>
               if c = CHR ''.'' \<and> length f \<in> {1, 2} \<and> list_all is_digit f
               then Some (neg, whole, Some f) else None))"

definition taka_to_minor :: "string \<Rightarrow> exn + int" where
  "taka_to_minor input =
     (case taka_match (js_trim input) of
        None \<Rightarrow> Inl (JsError None (''Not a valid Taka amount: '' @ json_string input))
      | Some (neg, whole, fraction) \<Rightarrow>
          (let f = (case fraction of None \<Rightarrow> ''0'' | Some f \<Rightarrow> f);
               poisha = big_int whole * POISHA_PER_TAKA + big_int (pad_end 2 f)
           in Inr (if neg then - poisha else poisha)))"

definition money :: "int \<Rightarrow> json" where
  "money minor =
     JObj [(''minor'', JStr (int_text minor)), (''formatted'', JStr (format_taka minor)),
           (''currency'', JStr ''BDT'')]"

section \<open>Reading and printing amounts\<close>

lemma to_minor_int_text: "to_minor (MString (int_text n)) = Inr n"
  by (simp add: to_minor_def)

lemma group_digits_ungroup:
  "CHR '','' \<notin> set s \<Longrightarrow> filter (\<lambda>c. c \<noteq> CHR '','') (group_digits s) = s"
  by (induction s rule: group_digits.induct) auto

lemma digits_no_comma: "list_all is_digit s \<Longrightarrow> filter (\<lambda>c. c \<noteq> CHR '','') s = s"
  by (induction s) (auto simp: is_digit_def)

lemma no_comma: "list_all is_digit s \<Longrightarrow> CHR '','' \<notin> set s"
  by (auto simp: list_all_iff is_digit_def)

lemma int_text_nonneg: "0 \<le> n \<Longrightarrow> int_text n = nat_text (nat n)"
  by (simp add: int_text_def)

lemma big_int_digits: "list_all is_digit s \<Longrightarrow> s \<noteq> [] \<Longrightarrow> big_int s = int (digits_val s)"
  by (cases s) (auto simp: big_int_def is_digit_def)

text \<open>The shape of a printed amount, commas removed.\<close>

lemma format_taka_plain:
  "filter (\<lambda>c. c \<noteq> CHR '','') (format_taka n) =
     (if n < 0 then ''-'' else '''') @ nat_text (nat (\<bar>n\<bar> div 100)) @
     CHR ''.'' # fixed 2 (nat (\<bar>n\<bar> mod 100))"
proof -
  have "0 \<le> \<bar>n\<bar> div 100" by (simp add: pos_imp_zdiv_nonneg_iff)
  then show ?thesis
    by (cases "n < 0")
      (simp_all add: format_taka_def Let_def int_text_nonneg fixed_def group_digits_ungroup
        no_comma nat_text_digits digits_no_comma pad_start_digits)
qed

lemma taka_match_plain:
  assumes "list_all is_digit w" "w \<noteq> []" "list_all is_digit f" "length f = 2"
  shows "taka_match ((if neg then ''-'' else '''') @ w @ CHR ''.'' # f) = Some (neg, w, Some f)"
proof -
  have h: "is_digit (hd w)" using assms by (cases w) auto
  then have "hd w \<noteq> CHR ''-''" by auto
  moreover have "takeWhile is_digit (w @ CHR ''.'' # f) = w"
    using assms by (simp add: takeWhile_append list_all_iff is_digit_def)
  moreover have "dropWhile is_digit (w @ CHR ''.'' # f) = CHR ''.'' # f"
    using assms by (simp add: dropWhile_append list_all_iff is_digit_def)
  ultimately show ?thesis
    using assms by (cases w) (auto simp: taka_match_def Let_def)
qed

lemma taka_to_minor_format:
  "taka_to_minor (filter (\<lambda>c. c \<noteq> CHR '','') (format_taka n)) = Inr n"
proof -
  let ?w = "nat_text (nat (\<bar>n\<bar> div 100))" and ?f = "fixed 2 (nat (\<bar>n\<bar> mod 100))"
  let ?s = "(if n < 0 then ''-'' else '''') @ ?w @ CHR ''.'' # ?f"
  have f: "length ?f = 2" by (rule length_fixed) simp_all
  have m: "taka_match ?s = Some (n < 0, ?w, Some ?f)"
    by (rule taka_match_plain) (simp_all add: nat_text_digits f)
  have t: "js_trim ?s = ?s"
  proof (rule js_trim_id)
    show "\<not> js_space (hd ?s)"
      using nat_text_digits [of "nat (\<bar>n\<bar> div 100)"]
      by (cases "?w") (auto simp: not_space_digit)
    have "last ?s = last ?f" using f by (cases ?f) auto
    then show "\<not> js_space (last ?s)"
      by (simp add: list_all_last not_space_digit)
  qed simp
  have v: "big_int ?w * 100 + big_int (pad_end 2 ?f) = \<bar>n\<bar>"
    using f by (simp add: big_int_digits nat_text_digits pad_end_def pos_imp_zdiv_nonneg_iff)
  show ?thesis
    unfolding format_taka_plain taka_to_minor_def t m
    by (simp only: option.case prod.case Let_def v) simp
qed

text \<open>
  What the API shows is what the ledger holds: the formatted amount, read back without its
  thousands separators, is the amount, for every amount of either sign.
\<close>

theorem formatted_amount_round_trip:
  "taka_to_minor (filter (\<lambda>c. c \<noteq> CHR '','') (format_taka n)) = Inr n"
  by (rule taka_to_minor_format)

end
