(* ===== verification/Ledger.thy ===== *)
theory Ledger
  imports Transaction Money
begin

text \<open>
  \<open>modules/transfers/ledger.service.ts\<close>: references, the ordered account locks, and
  \<open>postDoubleEntry\<close>, the only operation that moves money. The invariant \<open>ledger_ok\<close> is what
  double-entry bookkeeping promises: every balance is the signed sum of the account's entries,
  every transfer has its debit and its credit, no entry is orphaned, no user account is
  negative.
\<close>

section \<open>References\<close>

definition BASE32 :: string where
  "BASE32 = ''0123456789ABCDEFGHJKMNPQRSTVWXYZ''"

text \<open>
  \<open>((bytes[k] << 8) | (bytes[k + 1] ?? 0)) >> (11 - shift) & 31\<close>; both operands of the or are
  disjoint, so it is a sum.
\<close>

definition reference_char :: "nat list \<Rightarrow> nat \<Rightarrow> char" where
  "reference_char bytes i =
     (let bitOffset = i * 5;
          byteIndex = bitOffset div 8;
          shift = bitOffset mod 8;
          next_byte = (if byteIndex + 1 < length bytes then bytes ! (byteIndex + 1) else 0);
          chunk = (bytes ! byteIndex * 256 + next_byte) div 2 ^ (11 - shift)
      in BASE32 ! (chunk mod 32))"

definition generate_reference :: "millis \<Rightarrow> nat list \<Rightarrow> string" where
  "generate_reference t bytes =
     (case civil (t div 86400000) of (y, m, d) \<Rightarrow>
        ''TF'' @ pad_start 2 (int_text (y mod 100)) @ pad_start 2 (int_text (m + 1)) @
        pad_start 2 (int_text d) @ map (reference_char bytes) [0..<8])"

definition is_ref_char :: "char \<Rightarrow> bool" where
  "is_ref_char c \<longleftrightarrow> is_digit c \<or> (65 \<le> (of_char c :: nat) \<and> (of_char c :: nat) \<le> 90)"

text \<open>
  \<open>/^TF(\<backslash>d{2})(\<backslash>d{2})(\<backslash>d{2})[0-9A-Z]{8}$/\<close>, then \<open>Date.UTC\<close> of the captured date, which rolls
  over when the month or day does not exist and so is never \<open>NaN\<close>.
\<close>

definition reference_date_range :: "string \<Rightarrow> (millis \<times> millis) option" where
  "reference_date_range reference =
     (if length reference = 16 \<and> take 2 reference = ''TF'' \<and>
         list_all is_digit (take 6 (drop 2 reference)) \<and> list_all is_ref_char (drop 8 reference)
      then
        (let yy = digits_val (take 2 (drop 2 reference));
             mm = digits_val (take 2 (drop 4 reference));
             dd = digits_val (take 2 (drop 6 reference));
             from = make_day (2000 + int yy) (int mm - 1) (int dd) * 86400000
         in Some (from, from + 24 * 60 * 60 * 1000))
      else None)"

section \<open>Locks\<close>

definition account_by_id :: "uuid \<Rightarrow> db \<Rightarrow> account_row option" where
  "account_by_id i d = select_first (\<lambda>a. a_id a = i) (accounts_t d)"

definition lock_account :: "uuid \<Rightarrow> account_row option tx" where
  "lock_account accountId =
     tx_bind (select (\<lambda>_ d. account_by_id accountId d)) (\<lambda>row.
     tx_bind (note_lock (map_option a_id row)) (\<lambda>_.
     tx_return row))"

definition lock_account_pair :: "uuid \<Rightarrow> uuid \<Rightarrow> (account_row \<times> account_row) tx" where
  "lock_account_pair fromAccountId toAccountId =
     (if fromAccountId = toAccountId then tx_throw self_transfer
      else
        (let (firstId, secondId) =
               (if fromAccountId < toAccountId then (fromAccountId, toAccountId)
                else (toAccountId, fromAccountId))
         in tx_bind (lock_account firstId) (\<lambda>r1.
            tx_bind (the_or (not_found ''Account'') r1) (\<lambda>first.
            tx_bind (lock_account secondId) (\<lambda>r2.
            tx_bind (the_or (not_found ''Account'') r2) (\<lambda>second.
            tx_return (if firstId = fromAccountId then (first, second) else (second, first))))))))"

section \<open>Moving money\<close>

record post_command =
  pc_from :: uuid
  pc_to :: uuid
  pc_amount :: int
  pc_type :: transfer_type
  pc_note :: "string option"
  pc_idem :: "uuid option"
  pc_reversal_of :: "uuid option"

record posted_transfer =
  p_id :: uuid
  p_reference :: string
  p_from :: uuid
  p_to :: uuid
  p_amount :: int
  p_type :: transfer_type
  p_note :: "string option"
  p_created_at :: millis
  p_sender_after :: int
  p_receiver_after :: int

text \<open>
  \<open>UPDATE accounts SET balance_minor = balance_minor + delta, version = version + 1\<close>, with the
  range of \<open>bigint\<close> and the CHECK constraint on user balances.
\<close>

definition balance_refused :: "int \<Rightarrow> account_row \<Rightarrow> exn option" where
  "balance_refused delta a =
     (if \<not> int8_range delta \<or> \<not> int8_range (a_balance_minor a + delta) then Some (PgError ''22003'' None)
      else if a_type a \<noteq> SYSTEM \<and> a_balance_minor a + delta < 0
      then Some (PgError CHECK_VIOLATION (Some ''non_negative_user_balance''))
      else None)"

definition bump :: "int \<Rightarrow> account_row \<Rightarrow> account_row" where
  "bump delta a = a\<lparr>a_balance_minor := a_balance_minor a + delta, a_version := a_version a + 1\<rparr>"

lemma bump_simps [simp]:
  "a_id (bump x a) = a_id a" "a_user_id (bump x a) = a_user_id a" "a_type (bump x a) = a_type a"
  "a_status (bump x a) = a_status a" "a_balance_minor (bump x a) = a_balance_minor a + x"
  "a_version (bump x a) = a_version a + 1"
  by (simp_all add: bump_def)

definition add_to_balance :: "uuid \<Rightarrow> int \<Rightarrow> unit tx" where
  "add_to_balance accountId delta = query (\<lambda>_ d.
     case account_by_id accountId d of
       None \<Rightarrow> Inr ((), d)
     | Some a \<Rightarrow>
         (case balance_refused delta a of
            Some e \<Rightarrow> Inl e
          | None \<Rightarrow>
              Inr ((), d\<lparr>accounts_t := upd_where (\<lambda>q. a_id q = accountId) (bump delta) (accounts_t d)\<rparr>)))"

text \<open>The constraints of the \<open>transfers\<close> table.\<close>

definition transfer_refused :: "transfer_row \<Rightarrow> db \<Rightarrow> exn option" where
  "transfer_refused t d =
     (if account_by_id (t_from_account_id t) d = None \<or> account_by_id (t_to_account_id t) d = None
      then Some (PgError FOREIGN_KEY_VIOLATION None)
      else if t_amount_minor t \<le> 0 \<or> t_from_account_id t = t_to_account_id t \<or>
              (case t_note t of None \<Rightarrow> False | Some n \<Rightarrow> 140 < length n)
      then Some (PgError CHECK_VIOLATION None)
      else if list_ex (\<lambda>q. t_reference q = t_reference t \<and> t_created_at q = t_created_at t) (transfers_t d)
      then Some (PgError UNIQUE_VIOLATION (Some ''transfers_reference_uk''))
      else None)"

text \<open>
  The statement that writes a transfer and its two entries, the entries with the transfer's
  \<open>created_at\<close>.
\<close>

definition entries_of :: "transfer_row \<Rightarrow> int \<Rightarrow> int \<Rightarrow> nat \<times> nat \<Rightarrow> entry_row list" where
  "entries_of t senderAfter receiverAfter n =
     [\<lparr>e_id = fst n, e_transfer_id = t_id t, e_account_id = t_from_account_id t, e_direction = DEBIT,
       e_amount_minor = t_amount_minor t, e_balance_after = senderAfter,
       e_created_at = t_created_at t\<rparr>,
      \<lparr>e_id = snd n, e_transfer_id = t_id t, e_account_id = t_to_account_id t, e_direction = CREDIT,
       e_amount_minor = t_amount_minor t, e_balance_after = receiverAfter,
       e_created_at = t_created_at t\<rparr>]"

definition next_entry_ids :: "env \<Rightarrow> db \<Rightarrow> nat \<times> nat" where
  "next_entry_ids env d =
     (let used = map e_id (entries_t d); n = draw_serial (fst (drawn_entries env)) used in
      (n, draw_serial (snd (drawn_entries env)) (n # used)))"

definition insert_movement ::
  "(uuid \<Rightarrow> micros \<Rightarrow> transfer_row) \<Rightarrow> int \<Rightarrow> int \<Rightarrow> transfer_row tx" where
  "insert_movement row senderAfter receiverAfter = query (\<lambda>env d.
     (let t = row (next_uuid d) (now env) in
      case transfer_refused t d of
        Some e \<Rightarrow> Inl e
      | None \<Rightarrow>
          Inr (t, d\<lparr>transfers_t := transfers_t d @ [t],
                    entries_t := entries_t d @ entries_of t senderAfter receiverAfter (next_entry_ids env d),
                    next_uuid := Suc (next_uuid d)\<rparr>)))"

definition translate_balance_error :: "account_row \<Rightarrow> int \<Rightarrow> exn \<Rightarrow> unit tx" where
  "translate_balance_error from amount e =
     (if pg_error_code e = Some CHECK_VIOLATION \<and> pg_constraint e = Some ''non_negative_user_balance''
      then tx_throw (insufficient_funds (a_balance_minor from) amount)
      else tx_throw e)"

definition movement_row :: "post_command \<Rightarrow> string \<Rightarrow> uuid \<Rightarrow> micros \<Rightarrow> transfer_row" where
  "movement_row c reference i t =
     \<lparr>t_id = i, t_reference = reference, t_from_account_id = pc_from c, t_to_account_id = pc_to c,
      t_amount_minor = pc_amount c, t_type = pc_type c, t_status = T_COMPLETED, t_note = pc_note c,
      t_idempotency_key_id = pc_idem c, t_reversal_of = pc_reversal_of c, t_created_at = t\<rparr>"

definition post_double_entry :: "post_command \<Rightarrow> posted_transfer tx" where
  "post_double_entry c =
     (let amount = pc_amount c in
      tx_bind (throw_if (amount \<le> 0) (validation ''Transfer amount must be greater than zero'' [])) (\<lambda>_.
      tx_bind (lock_account_pair (pc_from c) (pc_to c)) (\<lambda>(from, to).
      tx_bind (throw_if (a_status from \<noteq> A_ACTIVE)
        (account_frozen (if a_status from = A_CLOSED then ''Sender account is closed''
                         else ''Sender account is frozen''))) (\<lambda>_.
      tx_bind (throw_if (a_status to = A_CLOSED) (account_frozen ''Recipient account is closed'')) (\<lambda>_.
      tx_bind (throw_if (a_type from \<noteq> SYSTEM \<and> a_balance_minor from < amount)
        (insufficient_funds (a_balance_minor from) amount)) (\<lambda>_.
      (let senderAfter = a_balance_minor from - amount;
           receiverAfter = a_balance_minor to + amount in
      tx_bind (tx_catch
        (tx_bind (add_to_balance (a_id from) (- amount)) (\<lambda>_. add_to_balance (a_id to) amount))
        (translate_balance_error from amount)) (\<lambda>_.
      tx_bind tx_env (\<lambda>env.
      (let reference = generate_reference (date_now env) (random env) in
      tx_bind (insert_movement (movement_row c reference) senderAfter receiverAfter) (\<lambda>t.
      tx_bind (after_commit [PublishBalance (a_id from) senderAfter (a_version from + 1),
                             PublishBalance (a_id to) receiverAfter (a_version to + 1)]) (\<lambda>_.
      tx_return
        \<lparr>p_id = t_id t, p_reference = reference, p_from = a_id from, p_to = a_id to,
         p_amount = amount, p_type = pc_type c, p_note = pc_note c,
         p_created_at = date_of_micros (t_created_at t),
         p_sender_after = senderAfter, p_receiver_after = receiverAfter\<rparr>))))))))))))"

section \<open>What a movement does\<close>

lemma account_by_id_SomeD: "account_by_id i d = Some a \<Longrightarrow> a \<in> set (accounts_t d) \<and> a_id a = i"
  unfolding account_by_id_def by (auto dest: select_first_SomeD)

lemma lock_account_Inr_iff [run_simps]:
  "lock_account i env s = (Inr r, s') \<longleftrightarrow>
     faults env (stmts s) = None \<and> \<not> aborted s \<and> r = account_by_id i (data s) \<and>
     s' = (case r of None \<Rightarrow> s\<lparr>stmts := Suc (stmts s)\<rparr>
           | Some a \<Rightarrow> s\<lparr>stmts := Suc (stmts s), locks := locks s @ [i]\<rparr>)"
  by (auto simp: lock_account_def run_simps split: option.splits dest: account_by_id_SomeD)

lemma lock_account_pair_Inr:
  assumes "lock_account_pair i j env s = (Inr (from, to), s')"
  shows "i \<noteq> j" and "account_by_id i (data s) = Some from" and "account_by_id j (data s) = Some to"
    and "data s' = data s" and "locks s' = locks s @ [min i j, max i j]" and "hooks s' = hooks s"
    and "\<not> aborted s'"
  using assms
  by (auto simp: lock_account_pair_def run_simps min_def max_def split: if_splits)

text \<open>The database after a movement, and the conditions under which there is one.\<close>

definition movement_applied :: "nat \<times> nat \<Rightarrow> post_command \<Rightarrow> transfer_row \<Rightarrow> account_row \<Rightarrow> account_row \<Rightarrow> db \<Rightarrow> db" where
  "movement_applied n c t from to d =
     d\<lparr>accounts_t := upd_where (\<lambda>q. a_id q = pc_to c) (bump (pc_amount c))
           (upd_where (\<lambda>q. a_id q = pc_from c) (bump (- pc_amount c)) (accounts_t d)),
       transfers_t := transfers_t d @ [t],
       entries_t := entries_t d @
         entries_of t (a_balance_minor from - pc_amount c) (a_balance_minor to + pc_amount c) n,
       next_uuid := Suc (next_uuid d)\<rparr>"

definition movable :: "post_command \<Rightarrow> account_row \<Rightarrow> account_row \<Rightarrow> db \<Rightarrow> bool" where
  "movable c from to d \<longleftrightarrow>
     0 < pc_amount c \<and> pc_from c \<noteq> pc_to c \<and>
     account_by_id (pc_from c) d = Some from \<and> account_by_id (pc_to c) d = Some to \<and>
     a_status from = A_ACTIVE \<and> a_status to \<noteq> A_CLOSED \<and>
     (a_type from = SYSTEM \<or> pc_amount c \<le> a_balance_minor from) \<and>
     (a_type to = SYSTEM \<or> 0 \<le> a_balance_minor to + pc_amount c)"

lemma account_by_id_upd:
  "i \<noteq> j \<Longrightarrow>
   account_by_id i (d\<lparr>accounts_t := upd_where (\<lambda>q. a_id q = j) (bump x) (accounts_t d)\<rparr>) = account_by_id i d"
  unfolding account_by_id_def
  by (simp add: select_first_upd_where [where P = "\<lambda>a. a_id a = i"] bump_def)
    (cases "select_first (\<lambda>a. a_id a = i) (accounts_t d)"; auto dest: select_first_SomeD)

lemma add_to_balance_Inr_iff [run_simps]:
  "add_to_balance i x env s = (Inr u, s') \<longleftrightarrow>
     faults env (stmts s) = None \<and> \<not> aborted s \<and>
     (case account_by_id i (data s) of
        None \<Rightarrow> s' = s\<lparr>stmts := Suc (stmts s)\<rparr>
      | Some a \<Rightarrow> balance_refused x a = None \<and>
          s' = s\<lparr>stmts := Suc (stmts s),
                 data := (data s)\<lparr>accounts_t := upd_where (\<lambda>q. a_id q = i) (bump x) (accounts_t (data s))\<rparr>\<rparr>)"
  by (auto simp: add_to_balance_def query_Inr_iff split: option.splits)

lemma insert_movement_Inr_iff [run_simps]:
  "insert_movement row x y env s = (Inr t, s') \<longleftrightarrow>
     faults env (stmts s) = None \<and> \<not> aborted s \<and>
     t = row (next_uuid (data s)) (now env) \<and> transfer_refused t (data s) = None \<and>
     s' = s\<lparr>stmts := Suc (stmts s),
        data := (data s)\<lparr>transfers_t := transfers_t (data s) @ [t],
          entries_t := entries_t (data s) @ entries_of t x y (next_entry_ids env (data s)),
          next_uuid := Suc (next_uuid (data s))\<rparr>\<rparr>"
  by (auto simp: insert_movement_def query_Inr_iff Let_def split: option.splits)

lemma throws_translate [simp]: "throws (translate_balance_error from amount e)"
  by (simp add: translate_balance_error_def)

lemma balance_not_refused:
  "balance_refused x a = None \<Longrightarrow> a_type a = SYSTEM \<or> 0 \<le> a_balance_minor a + x"
  by (auto simp: balance_refused_def split: if_splits)

lemma move_balances_Inr:
  assumes "tx_bind (add_to_balance i x) (\<lambda>_. add_to_balance j y) env s = (Inr u, s')"
    and "account_by_id i (data s) = Some a" "account_by_id j (data s) = Some b" "i \<noteq> j"
  shows "balance_refused x a = None" and "balance_refused y b = None" and "\<not> aborted s"
    and "s' = s\<lparr>stmts := Suc (Suc (stmts s)),
           data := (data s)\<lparr>accounts_t := upd_where (\<lambda>q. a_id q = j) (bump y)
             (upd_where (\<lambda>q. a_id q = i) (bump x) (accounts_t (data s)))\<rparr>\<rparr>"
  using assms by (auto simp: run_simps account_by_id_upd)

lemma post_double_entry_Inr:
  assumes run: "post_double_entry c env s = (Inr p, s')"
  obtains src dst where "movable c src dst (data s)"
    and "data s' = movement_applied (next_entry_ids env (data s)) c (movement_row c (p_reference p) (p_id p) (now env)) src dst (data s)"
    and "p_reference p = generate_reference (date_now env) (random env)"
    and "p_id p = next_uuid (data s)"
    and "p = \<lparr>p_id = next_uuid (data s), p_reference = generate_reference (date_now env) (random env),
          p_from = pc_from c, p_to = pc_to c, p_amount = pc_amount c, p_type = pc_type c,
          p_note = pc_note c, p_created_at = date_of_micros (now env),
          p_sender_after = a_balance_minor src - pc_amount c,
          p_receiver_after = a_balance_minor dst + pc_amount c\<rparr>"
    and "locks s' = locks s @ [min (pc_from c) (pc_to c), max (pc_from c) (pc_to c)]"
    and "hooks s' = hooks s @
          [PublishBalance (pc_from c) (a_balance_minor src - pc_amount c) (a_version src + 1),
           PublishBalance (pc_to c) (a_balance_minor dst + pc_amount c) (a_version dst + 1)]"
    and "\<not> aborted s'"
proof -
  from run obtain src dst s1 s2 where
    amt: "0 < pc_amount c" and
    lk: "lock_account_pair (pc_from c) (pc_to c) env s = (Inr (src, dst), s1)" and
    st: "a_status src = A_ACTIVE" "a_status dst \<noteq> A_CLOSED"
      "a_type src \<noteq> SYSTEM \<longrightarrow> pc_amount c \<le> a_balance_minor src" and
    mv: "tx_bind (add_to_balance (a_id src) (- pc_amount c)) (\<lambda>_. add_to_balance (a_id dst) (pc_amount c))
           env s1 = (Inr (), s2)" and
    rest: "tx_bind (insert_movement (movement_row c (generate_reference (date_now env) (random env)))
             (a_balance_minor src - pc_amount c) (a_balance_minor dst + pc_amount c)) (\<lambda>t.
           tx_bind (after_commit [PublishBalance (a_id src) (a_balance_minor src - pc_amount c) (a_version src + 1),
              PublishBalance (a_id dst) (a_balance_minor dst + pc_amount c) (a_version dst + 1)]) (\<lambda>_.
           tx_return \<lparr>p_id = t_id t, p_reference = generate_reference (date_now env) (random env),
             p_from = a_id src, p_to = a_id dst, p_amount = pc_amount c, p_type = pc_type c, p_note = pc_note c,
             p_created_at = date_of_micros (t_created_at t),
             p_sender_after = a_balance_minor src - pc_amount c,
             p_receiver_after = a_balance_minor dst + pc_amount c\<rparr>)) env s2 = (Inr p, s')"
    unfolding post_double_entry_def Let_def
    by (auto split: prod.splits simp: not_le not_less tx_bind_Inr_iff [of "throw_if _ _"]
      tx_bind_Inr_iff [of "lock_account_pair _ _"] tx_bind_Inr_iff [of "tx_catch _ _"]
      tx_bind_Inr_iff [of tx_env] tx_catch_Inr [OF throws_translate] throw_if_Inr_iff env_Inr_iff)
  note L = lock_account_pair_Inr [OF lk]
  have ids: "a_id src = pc_from c" "a_id dst = pc_to c"
    using account_by_id_SomeD [OF L(2)] account_by_id_SomeD [OF L(3)] by simp_all
  note M = move_balances_Inr [OF mv [unfolded ids], unfolded L(4), OF L(2,3,1)]
  have mvb: "movable c src dst (data s)"
    using amt st L(1-3) balance_not_refused [OF M(2)] by (auto simp: movable_def)
  note R = rest [unfolded run_simps M(4)]
  show thesis
    by (rule that [OF mvb])
      (use R L M(3) in \<open>auto simp: movement_applied_def movement_row_def ids next_entry_ids_def\<close>)
qed

section \<open>The invariant of the books\<close>

definition signed_amount :: "entry_row \<Rightarrow> int" where
  "signed_amount e = (case e_direction e of CREDIT \<Rightarrow> e_amount_minor e | DEBIT \<Rightarrow> - e_amount_minor e)"

definition entry_sum :: "uuid \<Rightarrow> db \<Rightarrow> int" where
  "entry_sum i d = sum_where (\<lambda>e. e_account_id e = i) signed_amount (entries_t d)"

definition complete_entry :: "transfer_row \<Rightarrow> db \<Rightarrow> bool" where
  "complete_entry t d \<longleftrightarrow>
     (\<exists>x y n. filter (\<lambda>e. e_transfer_id e = t_id t) (entries_t d) = entries_of t x y n)"

definition account_ids :: "db \<Rightarrow> uuid set" where
  "account_ids d = a_id ` set (accounts_t d)"

definition owner_fits :: "account_row \<Rightarrow> bool" where
  "owner_fits a \<longleftrightarrow> (a_type a = SYSTEM \<longleftrightarrow> a_user_id a = None)"

lemma owner_fits_bump [simp]: "owner_fits (bump x a) = owner_fits a"
  by (simp add: owner_fits_def)

definition accounts_ok :: "db \<Rightarrow> bool" where
  "accounts_ok d \<longleftrightarrow>
     keyed a_id (accounts_t d) \<and> sum_list (map a_balance_minor (accounts_t d)) = 0 \<and>
     (\<forall>a\<in>set (accounts_t d). a_id a < next_uuid d \<and>
        a_balance_minor a = entry_sum (a_id a) d \<and> (a_type a = SYSTEM \<or> 0 \<le> a_balance_minor a) \<and>
        owner_fits a)"

definition transfers_ok :: "db \<Rightarrow> bool" where
  "transfers_ok d \<longleftrightarrow>
     keyed t_id (transfers_t d) \<and>
     (\<forall>t\<in>set (transfers_t d). t_id t < next_uuid d \<and> 0 < t_amount_minor t \<and>
        t_from_account_id t \<noteq> t_to_account_id t \<and>
        t_from_account_id t \<in> account_ids d \<and> t_to_account_id t \<in> account_ids d \<and> complete_entry t d)"

definition entries_ok :: "db \<Rightarrow> bool" where
  "entries_ok d \<longleftrightarrow>
     (\<forall>e\<in>set (entries_t d). \<exists>t\<in>set (transfers_t d).
        t_id t = e_transfer_id e \<and> t_created_at t = e_created_at e)"

definition ledger_ok :: "db \<Rightarrow> bool" where
  "ledger_ok d \<longleftrightarrow> accounts_ok d \<and> transfers_ok d \<and> entries_ok d"

lemma signed_entries_of:
  "sum_where (\<lambda>e. e_account_id e = i) signed_amount (entries_of t x y n) =
     (if i = t_from_account_id t then - t_amount_minor t else 0) +
     (if i = t_to_account_id t then t_amount_minor t else 0)"
  by (simp add: entries_of_def signed_amount_def)

lemma entry_sum_movement:
  "entry_sum i (movement_applied n c (movement_row c r u t) a b d) =
     entry_sum i d + (if i = pc_from c then - pc_amount c else 0) + (if i = pc_to c then pc_amount c else 0)"
  by (simp add: entry_sum_def movement_applied_def signed_entries_of movement_row_def)

lemma account_ids_movement [simp]: "account_ids (movement_applied n c t a b d) = account_ids d"
  unfolding account_ids_def movement_applied_def by (simp flip: set_map add: map_upd_where)

lemma accounts_ok_movement:
  assumes "accounts_ok d" and "movable c a b d"
  shows "accounts_ok (movement_applied n c (movement_row c r u t) a b d)"
proof -
  let ?d = "movement_applied n c (movement_row c r u t) a b d"
  let ?x = "pc_amount c" and ?i = "pc_from c" and ?j = "pc_to c"
  let ?A = "upd_where (\<lambda>q. a_id q = ?i) (bump (- ?x)) (accounts_t d)"
  have k: "keyed a_id (accounts_t d)" using assms(1) by (simp add: accounts_ok_def)
  have a: "a \<in> set (accounts_t d)" "a_id a = ?i" and b: "b \<in> set (accounts_t d)" "a_id b = ?j"
    and ne: "?i \<noteq> ?j"
    using assms(2) account_by_id_SomeD by (auto simp: movable_def)
  have kA: "keyed a_id ?A" by (simp add: keyed_upd_where k)
  have bA: "b \<in> set ?A" using a b ne by (auto simp: set_upd_where)
  have "sum_list (map a_balance_minor ?A) = sum_list (map a_balance_minor (accounts_t d)) - ?x"
    using sum_list_upd_key [OF k a(1), of a_balance_minor "bump (- ?x)"] a(2) by simp
  moreover have "sum_list (map a_balance_minor (upd_where (\<lambda>q. a_id q = ?j) (bump ?x) ?A)) =
      sum_list (map a_balance_minor ?A) + ?x"
    using sum_list_upd_key [OF kA bA, of a_balance_minor "bump ?x"] b by simp
  ultimately have sum: "sum_list (map a_balance_minor (accounts_t ?d)) = 0"
    using assms(1) by (simp add: movement_applied_def accounts_ok_def)
  have key: "keyed a_id (accounts_t ?d)"
    by (simp add: movement_applied_def keyed_upd_where k)
  have "a_id q < next_uuid ?d \<and> a_balance_minor q = entry_sum (a_id q) ?d \<and>
      (a_type q = SYSTEM \<or> 0 \<le> a_balance_minor q) \<and> owner_fits q" if q: "q \<in> set (accounts_t ?d)" for q
  proof -
    obtain q0 where q0: "q0 \<in> set (accounts_t d)" and
      eq: "q = (let z = (if a_id q0 = ?i then bump (- ?x) q0 else q0) in if a_id z = ?j then bump ?x z else z)"
      using q by (auto simp: movement_applied_def upd_where_def Let_def)
    have id: "a_id q = a_id q0" "a_type q = a_type q0" "owner_fits q = owner_fits q0" using eq by (auto simp: Let_def)
    have bal: "a_balance_minor q = a_balance_minor q0 +
        (if a_id q0 = ?i then - ?x else 0) + (if a_id q0 = ?j then ?x else 0)"
      using eq by (auto simp: Let_def)
    have old: "a_id q0 < next_uuid d" "a_balance_minor q0 = entry_sum (a_id q0) d"
      "a_type q0 = SYSTEM \<or> 0 \<le> a_balance_minor q0" "owner_fits q0"
      using assms(1) q0 by (auto simp: accounts_ok_def)
    have "q0 = a" if "a_id q0 = ?i" using keyed_inj [OF k q0 a(1)] that a(2) by simp
    then have "a_type q = SYSTEM \<or> 0 \<le> a_balance_minor q"
      using bal id(1,2) old(3) assms(2) by (cases "a_id q0 = ?i") (auto simp: movable_def)
    moreover have "owner_fits q" using old(4) id(3) by simp
    moreover have "a_id q < next_uuid ?d" using old(1) id(1) by (simp add: movement_applied_def)
    moreover have "a_balance_minor q = entry_sum (a_id q) ?d"
      unfolding entry_sum_movement id(1) bal old(2) ..
    ultimately show ?thesis by (intro conjI)
  qed
  with sum key show ?thesis unfolding accounts_ok_def by blast
qed

lemma movement_row_simps [simp]:
  "t_id (movement_row c r u t) = u" "t_from_account_id (movement_row c r u t) = pc_from c"
  "t_to_account_id (movement_row c r u t) = pc_to c" "t_amount_minor (movement_row c r u t) = pc_amount c"
  "t_created_at (movement_row c r u t) = t" "t_status (movement_row c r u t) = T_COMPLETED"
  "t_type (movement_row c r u t) = pc_type c" "t_reference (movement_row c r u t) = r"
  "t_idempotency_key_id (movement_row c r u t) = pc_idem c" "t_note (movement_row c r u t) = pc_note c"
  "t_reversal_of (movement_row c r u t) = pc_reversal_of c"
  by (simp_all add: movement_row_def)

lemma entries_of_transfer: "e \<in> set (entries_of t x y n) \<Longrightarrow> e_transfer_id e = t_id t \<and> e_created_at e = t_created_at t"
  by (auto simp: entries_of_def)

lemma entries_ok_id_less: "entries_ok d \<Longrightarrow> transfers_ok d \<Longrightarrow> e \<in> set (entries_t d) \<Longrightarrow> e_transfer_id e < next_uuid d"
  unfolding entries_ok_def transfers_ok_def by metis

lemma complete_entry_movement:
  assumes "transfers_ok d" "entries_ok d" "q \<in> set (transfers_t d) \<or> q = t" "t_id t = next_uuid d"
  shows "q \<in> set (transfers_t d) \<Longrightarrow> complete_entry q (movement_applied n c t a b d)"
    and "complete_entry t (movement_applied n c t a b d)"
proof -
  have old: "filter (\<lambda>e. e_transfer_id e = t_id t) (entries_t d) = []"
    using entries_ok_id_less [OF assms(2,1)] assms(4) by (fastforce simp: filter_empty_conv)
  have new: "filter (\<lambda>e. e_transfer_id e = t_id t) (entries_of t x y n) = entries_of t x y n" for x y n
    by (simp add: entries_of_def)
  show "complete_entry t (movement_applied n c t a b d)"
    unfolding complete_entry_def movement_applied_def by (cases n) (auto simp: old new)
  assume q: "q \<in> set (transfers_t d)"
  then have "t_id q \<noteq> t_id t" using assms(1,4) by (fastforce simp: transfers_ok_def)
  then have "filter (\<lambda>e. e_transfer_id e = t_id q) (entries_of t x y n) = []" for x y n
    by (auto simp: entries_of_def)
  with q assms(1) show "complete_entry q (movement_applied n c t a b d)"
    unfolding complete_entry_def movement_applied_def transfers_ok_def by auto
qed

lemma movable_accounts: "movable c a b d \<Longrightarrow> pc_from c \<in> account_ids d \<and> pc_to c \<in> account_ids d"
  unfolding movable_def account_ids_def by (metis account_by_id_SomeD image_eqI)

lemma transfers_ok_movement:
  assumes "ledger_ok d" and "movable c a b d"
  shows "transfers_ok (movement_applied n c (movement_row c r (next_uuid d) t) a b d)" (is "transfers_ok ?d")
proof -
  let ?t = "movement_row c r (next_uuid d) t"
  have ok: "transfers_ok d" "entries_ok d" using assms(1) by (simp_all add: ledger_ok_def)
  have T: "transfers_t ?d = transfers_t d @ [?t]" "next_uuid ?d = Suc (next_uuid d)"
    by (simp_all add: movement_applied_def)
  have "keyed t_id (transfers_t ?d)"
    unfolding T keyed_append1 using ok(1) by (fastforce simp: transfers_ok_def)
  moreover have "t_id q < next_uuid ?d \<and> 0 < t_amount_minor q \<and>
        t_from_account_id q \<noteq> t_to_account_id q \<and>
        t_from_account_id q \<in> account_ids ?d \<and> t_to_account_id q \<in> account_ids ?d \<and> complete_entry q ?d"
    if q: "q \<in> set (transfers_t ?d)" for q
  proof (cases "q = ?t")
    case True
    then show ?thesis
      using assms(2) movable_accounts [OF assms(2)] complete_entry_movement(2) [OF ok, of ?t ?t n c a b]
      by (simp add: T movable_def)
  next
    case False
    then have q0: "q \<in> set (transfers_t d)" using q by (auto simp: T)
    with complete_entry_movement(1) [OF ok, of q ?t n c a b] ok(1) show ?thesis
      by (auto simp: T transfers_ok_def)
  qed
  ultimately show ?thesis unfolding transfers_ok_def by blast
qed

lemma entries_ok_movement:
  "entries_ok d \<Longrightarrow> entries_ok (movement_applied n c t a b d)"
  unfolding entries_ok_def movement_applied_def
  by (auto simp: ball_Un bex_Un dest: entries_of_transfer)

lemma ledger_ok_movement:
  assumes "ledger_ok d" and "movable c a b d"
  shows "ledger_ok (movement_applied n c (movement_row c r (next_uuid d) t) a b d)"
  using accounts_ok_movement [OF _ assms(2)] transfers_ok_movement [OF assms] entries_ok_movement assms(1)
  by (simp add: ledger_ok_def)

lemma keeps_ledger_post: "keeps ledger_ok (post_double_entry c)"
  unfolding keeps_def
proof (rule tripleI)
  fix env s p s'
  assume ok: "ledger_ok (data s)" and run: "post_double_entry c env s = (Inr p, s')"
  from run show "\<not> aborted s' \<and> ledger_ok (data s')"
    by (rule post_double_entry_Inr) (use ledger_ok_movement [OF ok] in simp)
qed

section \<open>Statements that leave the books alone\<close>

text \<open>
  The invariant reads four components of the database. A statement that keeps them, or only
  advances the supply of ids, keeps the invariant.
\<close>

definition same_books :: "db \<Rightarrow> db \<Rightarrow> bool" where
  "same_books d d' \<longleftrightarrow>
     accounts_t d' = accounts_t d \<and> transfers_t d' = transfers_t d \<and> entries_t d' = entries_t d \<and>
     next_uuid d \<le> next_uuid d'"

lemma same_books_ledger_ok:
  assumes "same_books d d'" and "ledger_ok d"
  shows "ledger_ok d'"
proof -
  have e: "entry_sum i d' = entry_sum i d" "account_ids d' = account_ids d"
    "complete_entry t d' = complete_entry t d" for i t
    using assms(1) by (simp_all add: same_books_def entry_sum_def account_ids_def complete_entry_def)
  show ?thesis
    using assms unfolding ledger_ok_def accounts_ok_def transfers_ok_def entries_ok_def e
    by (auto simp: same_books_def)
qed

lemma ledger_frame: "ledger_ok d \<Longrightarrow> same_books d d' \<Longrightarrow> ledger_ok d'"
  by (rule same_books_ledger_ok)

lemma keeps_ledger_query:
  "(\<And>env d a d'. f env d = Inr (a, d') \<Longrightarrow> same_books d d') \<Longrightarrow> keeps ledger_ok (query f)"
  by (rule keeps_query) (blast intro: same_books_ledger_ok)

text \<open>
  What a movement leaves alone. It is the form in which the other tables' invariants pass
  through \<open>post_double_entry\<close>.
\<close>

lemma keeps_post:
  assumes "\<And>d A T E n. I d \<Longrightarrow> next_uuid d \<le> n \<Longrightarrow>
      I (d\<lparr>accounts_t := A, transfers_t := T, entries_t := E, next_uuid := n\<rparr>)"
  shows "keeps I (post_double_entry c)"
  unfolding keeps_def
proof (rule tripleI)
  fix env s p s'
  assume i: "I (data s)" and run: "post_double_entry c env s = (Inr p, s')"
  from run show "\<not> aborted s' \<and> I (data s')"
    by (rule post_double_entry_Inr) (use assms [OF i] in \<open>simp add: movement_applied_def\<close>)
qed

end
