(* ===== verification/Idempotency.thy ===== *)
theory Idempotency
  imports Ledger
begin

text \<open>
  \<open>platform/idempotency/store.ts\<close>: the canonical request text and its hash, claiming and
  completing a key inside the transaction that does the work, and the header check.
\<close>

section \<open>The request hash\<close>

text \<open>
  \<open>canonicalize\<close>: like \<open>JSON.stringify\<close>, with the members of objects sorted by their keys.
  Keys of an object are distinct, so the stable sort by key is the sort of the code.
\<close>

fun canonicalize :: "json \<Rightarrow> string"
  and canonical_elems :: "json list \<Rightarrow> string list"
  and canonical_members :: "(string \<times> json) list \<Rightarrow> (string \<times> string) list" where
  "canonicalize JUndef = ''null''"
| "canonicalize JNull = ''null''"
| "canonicalize (JBool b) = (if b then ''true'' else ''false'')"
| "canonicalize (JNum s) = s"
| "canonicalize (JStr s) = json_string s"
| "canonicalize (JArr vs) = CHR ''['' # comma_join (canonical_elems vs) @ '']''"
| "canonicalize (JObj ms) =
     CHR ''{'' # comma_join (map (\<lambda>(k, t). json_string k @ CHR '':'' # t)
       (sort_key fst (canonical_members ms))) @ ''}''"
| "canonical_elems [] = []"
| "canonical_elems (v # vs) = canonicalize v # canonical_elems vs"
| "canonical_members [] = []"
| "canonical_members ((k, v) # ms) =
     (if v = JUndef then canonical_members ms else (k, canonicalize v) # canonical_members ms)"

definition hash_request :: "env \<Rightarrow> string \<Rightarrow> json \<Rightarrow> string" where
  "hash_request env endpoint body = sha256 env (endpoint @ char_of (10::nat) # canonicalize body)"

section \<open>Claiming and completing\<close>

datatype claim = Claimed uuid | Replay int json | Mismatch

definition same_key :: "uuid \<Rightarrow> string \<Rightarrow> idem_row \<Rightarrow> bool" where
  "same_key userId key k \<longleftrightarrow> k_user_id k = userId \<and> k_key k = key"

definition user_exists :: "uuid \<Rightarrow> db \<Rightarrow> bool" where
  "user_exists u d \<longleftrightarrow> list_ex (\<lambda>r. u_id r = u) (users_t d)"

definition claimed_row :: "uuid \<Rightarrow> uuid \<Rightarrow> string \<Rightarrow> string \<Rightarrow> string \<Rightarrow> micros \<Rightarrow> idem_row" where
  "claimed_row i userId key endpoint requestHash t =
     \<lparr>k_id = i, k_user_id = userId, k_key = key, k_endpoint = endpoint, k_request_hash = requestHash,
      k_state = IN_PROGRESS, k_response_status = None, k_response_body = None, k_created_at = t\<rparr>"

text \<open>\<open>INSERT ... ON CONFLICT (user_id, key) DO NOTHING RETURNING id\<close>.\<close>

definition insert_claim :: "uuid \<Rightarrow> string \<Rightarrow> string \<Rightarrow> string \<Rightarrow> uuid option tx" where
  "insert_claim userId key endpoint requestHash = query (\<lambda>env d.
     if length key < 8 \<or> 128 < length key then Inl (PgError CHECK_VIOLATION None)
     else if list_ex (same_key userId key) (idem_t d) then Inr (None, d)
     else if \<not> user_exists userId d then Inl (PgError FOREIGN_KEY_VIOLATION None)
     else Inr (Some (next_uuid d),
       d\<lparr>idem_t := idem_t d @ [claimed_row (next_uuid d) userId key endpoint requestHash (now env)],
         next_uuid := Suc (next_uuid d)\<rparr>))"

definition translate_lock_timeout :: "exn \<Rightarrow> 'a tx" where
  "translate_lock_timeout e =
     (if pg_error_code e = Some LOCK_NOT_AVAILABLE then tx_throw request_in_progress else tx_throw e)"

definition claim_idempotency_key :: "uuid \<Rightarrow> string \<Rightarrow> string \<Rightarrow> string \<Rightarrow> claim tx" where
  "claim_idempotency_key userId key endpoint requestHash =
     tx_bind (tx_catch (insert_claim userId key endpoint requestHash) translate_lock_timeout) (\<lambda>claimed.
     case claimed of
       Some i \<Rightarrow> tx_return (Claimed i)
     | None \<Rightarrow>
         tx_bind (select (\<lambda>_ d. select_first (same_key userId key) (idem_t d))) (\<lambda>row.
         tx_bind (the_or request_in_progress row) (\<lambda>existing.
         if k_request_hash existing \<noteq> requestHash then tx_return Mismatch
         else (case (k_state existing, k_response_status existing) of
             (COMPLETED, Some st) \<Rightarrow>
               tx_return (Replay st (case k_response_body existing of None \<Rightarrow> JNull | Some b \<Rightarrow> b))
           | _ \<Rightarrow> tx_throw request_in_progress))))"

definition complete_row :: "int \<Rightarrow> json \<Rightarrow> idem_row \<Rightarrow> idem_row" where
  "complete_row st body k =
     k\<lparr>k_state := COMPLETED, k_response_status := Some st, k_response_body := Some body\<rparr>"

definition complete_idempotency_key :: "uuid \<Rightarrow> int \<Rightarrow> json \<Rightarrow> unit tx" where
  "complete_idempotency_key i st body = query (\<lambda>_ d.
     Inr ((), d\<lparr>idem_t := upd_where (\<lambda>k. k_id k = i) (complete_row st body) (idem_t d)\<rparr>))"

section \<open>The header\<close>

datatype header = Absent | One string | Many "string list"

definition key_char :: "char \<Rightarrow> bool" where
  "key_char c \<longleftrightarrow>
     (let n = of_char c :: nat in
      65 \<le> n \<and> n \<le> 90 \<or> 97 \<le> n \<and> n \<le> 122 \<or> 48 \<le> n \<and> n \<le> 57) \<or>
     c \<in> {CHR ''_'', CHR '':'', CHR ''.'', CHR ''-''}"

definition key_pattern :: "string \<Rightarrow> bool" where
  "key_pattern k \<longleftrightarrow> 8 \<le> length k \<and> length k \<le> 128 \<and> list_all key_char k"

definition require_idempotency_key :: "header \<Rightarrow> exn + string" where
  "require_idempotency_key headerValue =
     (let key = (case headerValue of Absent \<Rightarrow> None | One k \<Rightarrow> Some k | Many ks \<Rightarrow> first_row ks) in
      case key of
        None \<Rightarrow> Inl (validation ''Idempotency-Key header is required for this endpoint. Generate one per user intent (not per HTTP attempt) so that retrying is always safe.'' [])
      | Some k \<Rightarrow>
          if k = [] then Inl (validation ''Idempotency-Key header is required for this endpoint. Generate one per user intent (not per HTTP attempt) so that retrying is always safe.'' [])
          else if \<not> key_pattern k
          then Inl (validation ''Idempotency-Key must be 8-128 characters of [A-Za-z0-9_:.-] (a UUID is ideal)'' [])
          else Inr k)"

section \<open>The keys of a database\<close>

text \<open>
  Between transactions every key is completed and carries its response, and a user has a key at
  most once.
\<close>

definition completed :: "idem_row \<Rightarrow> bool" where
  "completed k \<longleftrightarrow> k_state k = COMPLETED \<and> k_response_status k \<noteq> None \<and> k_response_body k \<noteq> None"

definition keys_ok :: "db \<Rightarrow> bool" where
  "keys_ok d \<longleftrightarrow>
     keyed k_id (idem_t d) \<and> keyed (\<lambda>k. (k_user_id k, k_key k)) (idem_t d) \<and>
     (\<forall>k\<in>set (idem_t d). completed k \<and> k_id k < next_uuid d)"

text \<open>A completed key is never forgotten: \<open>keys_with K\<close> is kept by whatever keeps \<open>keys_ok\<close>.\<close>

definition keys_with :: "idem_row set \<Rightarrow> db \<Rightarrow> bool" where
  "keys_with K d \<longleftrightarrow> keys_ok d \<and> K \<subseteq> set (idem_t d)"

lemma keys_with_empty [simp]: "keys_with {} = keys_ok"
  by (rule ext) (simp add: keys_with_def)

lemma throws_lock_timeout [simp]: "throws (translate_lock_timeout e)"
  by (simp add: translate_lock_timeout_def)

lemma insert_claim_Inr_iff [run_simps]:
  "insert_claim u key ep h env s = (Inr r, s') \<longleftrightarrow>
     faults env (stmts s) = None \<and> \<not> aborted s \<and> 8 \<le> length key \<and> length key \<le> 128 \<and>
     (if list_ex (same_key u key) (idem_t (data s)) then r = None \<and> s' = s\<lparr>stmts := Suc (stmts s)\<rparr>
      else user_exists u (data s) \<and> r = Some (next_uuid (data s)) \<and>
        s' = s\<lparr>stmts := Suc (stmts s), data := (data s)\<lparr>
          idem_t := idem_t (data s) @ [claimed_row (next_uuid (data s)) u key ep h (now env)],
          next_uuid := Suc (next_uuid (data s))\<rparr>\<rparr>)"
  by (auto simp: insert_claim_def query_Inr_iff)

lemma claim_Inr:
  assumes "claim_idempotency_key u key ep h env s = (Inr c, s')"
  shows "case c of
      Claimed i \<Rightarrow> i = next_uuid (data s) \<and> \<not> list_ex (same_key u key) (idem_t (data s)) \<and>
        user_exists u (data s) \<and>
        s' = s\<lparr>stmts := Suc (stmts s), data := (data s)\<lparr>
          idem_t := idem_t (data s) @ [claimed_row i u key ep h (now env)], next_uuid := Suc i\<rparr>\<rparr>
    | Replay st b \<Rightarrow> s' = s\<lparr>stmts := Suc (Suc (stmts s))\<rparr> \<and>
        (\<exists>k. select_first (same_key u key) (idem_t (data s)) = Some k \<and> k_request_hash k = h \<and>
             k_state k = COMPLETED \<and> k_response_status k = Some st \<and>
             b = (case k_response_body k of None \<Rightarrow> JNull | Some b \<Rightarrow> b))
    | Mismatch \<Rightarrow> s' = s\<lparr>stmts := Suc (Suc (stmts s))\<rparr> \<and>
        (\<exists>k. select_first (same_key u key) (idem_t (data s)) = Some k \<and> k_request_hash k \<noteq> h)"
    and "\<not> aborted s'"
  using assms
  by (auto simp: claim_idempotency_key_def tx_bind_Inr_iff tx_catch_Inr insert_claim_Inr_iff
      select_Inr_iff the_or_Inr_iff return_Inr_iff throw_Inr_iff
      split: option.splits if_splits idem_state.splits claim.splits)

section \<open>Idempotent endpoints\<close>

record outcome =
  out_status :: int
  out_body :: json
  out_replayed :: bool

lemma keys_ok_select:
  "keys_ok d \<Longrightarrow> k \<in> set (idem_t d) \<Longrightarrow> k_user_id k = u \<Longrightarrow> k_key k = key \<Longrightarrow>
   select_first (same_key u key) (idem_t d) = Some k"
  using select_first_key [of "\<lambda>k. (k_user_id k, k_key k)" "idem_t d" k]
  by (simp add: keys_ok_def same_key_def [abs_def])

lemma select_first_append_new:
  "\<not> list_ex P rs \<Longrightarrow> select_first P (rs @ [r]) = (if P r then Some r else None)"
  by (induction rs) auto

text \<open>
  The contract of a handler that claims a key, does its work and completes the key in one
  transaction. The work may do anything but touch the table of keys.
\<close>

text \<open>
  What callers rely on: a transaction that returns leaves its response stored under its key, and one
  that finds its key stored changes nothing.
\<close>

definition response_of :: "idem_row \<Rightarrow> outcome \<Rightarrow> bool" where
  "response_of k r \<longleftrightarrow> k_response_status k = Some (out_status r) \<and>
     out_body r = (case k_response_body k of None \<Rightarrow> JNull | Some b \<Rightarrow> b)"

definition names_response :: "uuid \<Rightarrow> string \<Rightarrow> outcome tx \<Rightarrow> bool" where
  "names_response u key fn \<longleftrightarrow> (\<forall>env s r s'. keys_ok (data s) \<and> fn env s = (Inr r, s') \<longrightarrow>
     (\<exists>k. select_first (same_key u key) (idem_t (data s')) = Some k \<and> response_of k r) \<and>
     (list_ex (same_key u key) (idem_t (data s)) \<longrightarrow> out_replayed r \<and> data s' = data s))"

locale idempotent_endpoint =
  fixes handler :: "outcome tx"
    and u :: uuid and key ep :: string and h :: "env \<Rightarrow> string"
    and work :: "uuid \<Rightarrow> (int \<times> json) tx"
  assumes handler_eq:
      "handler = tx_bind tx_env (\<lambda>env.
         tx_bind (claim_idempotency_key u key ep (h env)) (\<lambda>claim.
         case claim of
           Mismatch \<Rightarrow> tx_throw idempotency_key_reuse
         | Replay st b \<Rightarrow> tx_return \<lparr>out_status = st, out_body = b, out_replayed = True\<rparr>
         | Claimed i \<Rightarrow>
             tx_bind (work i) (\<lambda>(st, b).
             tx_bind (complete_idempotency_key i st b) (\<lambda>_.
             tx_return \<lparr>out_status = st, out_body = b, out_replayed = False\<rparr>))))"
    and work_keys: "\<And>K n i. keeps (\<lambda>d. idem_t d = K \<and> n \<le> next_uuid d) (work i)"
begin

lemma cases:
  assumes run: "handler env s = (Inr r, s')"
  obtains (replayed) k where "select_first (same_key u key) (idem_t (data s)) = Some k"
      "k_request_hash k = h env" "k_response_status k = Some (out_status r)" "out_replayed r"
      "out_body r = (case k_response_body k of None \<Rightarrow> JNull | Some b \<Rightarrow> b)"
      "data s' = data s" "\<not> aborted s'"
    | (executed) i s1 s2 where "\<not> list_ex (same_key u key) (idem_t (data s))" "i = next_uuid (data s)"
      "data s1 = (data s)\<lparr>idem_t := idem_t (data s) @ [claimed_row i u key ep (h env) (now env)],
                          next_uuid := Suc i\<rparr>"
      "\<not> aborted s1" "locks s1 = locks s" "hooks s1 = hooks s" "user_exists u (data s)"
      "work i env s1 = (Inr (out_status r, out_body r), s2)" "\<not> out_replayed r" "\<not> aborted s'"
      "data s' = (data s2)\<lparr>idem_t := upd_where (\<lambda>k. k_id k = i)
         (complete_row (out_status r) (out_body r)) (idem_t (data s2))\<rparr>"
      "locks s' = locks s2" "hooks s' = hooks s2"
proof -
  from run obtain c s1 where c: "claim_idempotency_key u key ep (h env) env s = (Inr c, s1)" and
    rest: "(case c of
           Mismatch \<Rightarrow> tx_throw idempotency_key_reuse
         | Replay st b \<Rightarrow> tx_return \<lparr>out_status = st, out_body = b, out_replayed = True\<rparr>
         | Claimed i \<Rightarrow>
             tx_bind (work i) (\<lambda>(st, b).
             tx_bind (complete_idempotency_key i st b) (\<lambda>_.
             tx_return \<lparr>out_status = st, out_body = b, out_replayed = False\<rparr>))) env s1 = (Inr r, s')"
    unfolding handler_eq by (auto simp: tx_bind_Inr_iff env_Inr_iff)
  note cl = claim_Inr [OF c]
  show thesis
  proof (cases c)
    case (Claimed i)
    from rest obtain st b s2 where w: "work i env s1 = (Inr (st, b), s2)" and
      x: "tx_bind (complete_idempotency_key i st b) (\<lambda>_.
             tx_return \<lparr>out_status = st, out_body = b, out_replayed = False\<rparr>) env s2 = (Inr r, s')"
      unfolding Claimed by (auto simp: tx_bind_Inr_iff split: prod.splits)
    show thesis
      by (rule executed [of i s1 s2])
        (use cl w x in \<open>auto simp: Claimed run_simps complete_idempotency_key_def\<close>)
  next
    case (Replay st b)
    with cl rest show thesis by (auto simp: run_simps intro: replayed)
  next
    case Mismatch
    with rest show thesis by (simp add: run_simps)
  qed
qed

text \<open>The work leaves the key as claimed, and the completion fills in the response.\<close>

lemma executed_row:
  assumes w: "work i env s1 = (Inr (st, b), s2)" and "\<not> aborted s1" and "keys_ok d"
    and "i = next_uuid d" and "\<not> list_ex (same_key u key) (idem_t d)"
    and s1: "data s1 = d\<lparr>idem_t := idem_t d @ [claimed_row i u key ep hh t], next_uuid := Suc i\<rparr>"
  shows "upd_where (\<lambda>k. k_id k = i) (complete_row st b) (idem_t (data s2)) =
           idem_t d @ [complete_row st b (claimed_row i u key ep hh t)]"
    and "Suc i \<le> next_uuid (data s2)"
proof -
  have *: "idem_t (data s2) = idem_t d @ [claimed_row i u key ep hh t] \<and> Suc i \<le> next_uuid (data s2)"
    using tripleD [OF work_keys [unfolded keeps_def, of "idem_t d @ [claimed_row i u key ep hh t]" "Suc i"]
      w assms(2)] s1 by simp
  have "upd_where (\<lambda>k. k_id k = i) (complete_row st b) (idem_t d) = idem_t d"
    using assms(3,4) by (intro upd_where_id) (auto simp: keys_ok_def)
  with * show "upd_where (\<lambda>k. k_id k = i) (complete_row st b) (idem_t (data s2)) =
           idem_t d @ [complete_row st b (claimed_row i u key ep hh t)]"
    by (simp add: claimed_row_def)
  from * show "Suc i \<le> next_uuid (data s2)" by simp
qed

lemma keys_ok_extend:
  assumes "keys_ok d" and "\<not> list_ex (same_key u key) (idem_t d)" and "i = next_uuid d"
    and "idem_t d' = idem_t d @ [complete_row st b (claimed_row i u key ep hh t)]" "Suc i \<le> next_uuid d'"
  shows "keys_ok d'"
proof -
  have n: "q \<in> set (idem_t d) \<Longrightarrow> k_id q < i \<and> \<not> (k_user_id q = u \<and> k_key q = key) \<and> completed q" for q
    using assms(1-3) by (auto simp: keys_ok_def list_ex_iff same_key_def)
  have "keyed k_id (idem_t d')" "keyed (\<lambda>k. (k_user_id k, k_key k)) (idem_t d')"
    unfolding assms(4) keyed_append1 using assms(1) n
    by (auto simp: keys_ok_def complete_row_def claimed_row_def)
  moreover have "\<forall>k\<in>set (idem_t d'). completed k \<and> k_id k < next_uuid d'"
    unfolding assms(4) using n assms(5) by (fastforce simp: complete_row_def claimed_row_def completed_def)
  ultimately show ?thesis by (simp add: keys_ok_def)
qed

lemma keeps_keys: "keeps (keys_with K) handler"
  unfolding keeps_def
proof (rule tripleI)
  fix env s r s'
  assume K: "keys_with K (data s)" and run: "handler env s = (Inr r, s')"
  then have ok: "keys_ok (data s)" by (simp add: keys_with_def)
  from run show "\<not> aborted s' \<and> keys_with K (data s')"
  proof (cases rule: cases)
    case (replayed k)
    with K show ?thesis by simp
  next
    case (executed i s1 s2)
    note ex = executed_row [OF executed(8,4) ok executed(2,1,3)]
    show ?thesis
      using keys_ok_extend [OF ok executed(1,2), of "data s'"] ex executed(10,11) K
      by (auto simp: keys_with_def)
  qed
qed

text \<open>The response is stored under the key.\<close>

lemma stored:
  assumes ok: "keys_ok (data s)" and run: "handler env s = (Inr r, s')"
  shows "\<exists>k. select_first (same_key u key) (idem_t (data s')) = Some k \<and>
    k_response_status k = Some (out_status r) \<and>
    out_body r = (case k_response_body k of None \<Rightarrow> JNull | Some b \<Rightarrow> b)"
  using run
proof (cases rule: cases)
  case (replayed k)
  then show ?thesis by auto
next
  case (executed i s1 s2)
  note ex = executed_row [OF executed(8,4) ok executed(2,1,3)]
  show ?thesis
    by (rule exI [of _ "complete_row (out_status r) (out_body r) (claimed_row i u key ep (h env) (now env))"])
      (use executed(1,11) ex(1) in
        \<open>auto simp: select_first_append_new same_key_def claimed_row_def complete_row_def\<close>)
qed

text \<open>Whoever asks again gets the stored response.\<close>

lemma names_response: "names_response u key handler"
  unfolding names_response_def
proof (intro allI impI)
  fix env s r s'
  assume *: "keys_ok (data s) \<and> handler env s = (Inr r, s')"
  then have "\<exists>k. select_first (same_key u key) (idem_t (data s')) = Some k \<and> response_of k r"
    using stored [of s env r s'] by (auto simp: response_of_def)
  moreover have "out_replayed r \<and> data s' = data s" if "list_ex (same_key u key) (idem_t (data s))"
    using * that by (auto elim: cases)
  ultimately show "(\<exists>k. select_first (same_key u key) (idem_t (data s')) = Some k \<and> response_of k r) \<and>
     (list_ex (same_key u key) (idem_t (data s)) \<longrightarrow> out_replayed r \<and> data s' = data s)" by blast
qed

lemma replays:
  assumes ok: "keys_ok d" and k: "k \<in> set (idem_t d)" "same_key u key k" "k_request_hash k = h env"
    and len: "8 \<le> length key" "length key \<le> 128" and env: "reliable env"
  shows "\<exists>r s. handler env (begin_state d) = (Inr r, s) \<and> \<not> aborted s \<and> data s = d \<and> out_replayed r \<and> response_of k r"
proof -
  have "select_first (same_key u key) (idem_t d) = Some k"
    using keys_ok_select [OF ok k(1)] k(2) by (simp add: same_key_def)
  moreover have "list_ex (same_key u key) (idem_t d)" using k(1,2) by (auto simp: list_ex_iff)
  moreover obtain st b where "k_state k = COMPLETED" "k_response_status k = Some st" "k_response_body k = Some b"
    using ok k(1) by (auto simp: keys_ok_def completed_def)
  ultimately show ?thesis
    using env k(3) len
    by (simp add: handler_eq claim_idempotency_key_def insert_claim_def eval_simps reliable_def response_of_def)
qed

text \<open>A key used with another request text is refused, whatever that request is.\<close>

lemma reuse_refused:
  assumes "select_first (same_key u key) (idem_t (data s)) = Some k" and "k_request_hash k \<noteq> h env"
  shows "handler env s \<noteq> (Inr r, s')"
proof
  assume "handler env s = (Inr r, s')"
  then show False
  proof (cases rule: cases)
    case (executed i s1 s2)
    with assms(1) show False by (auto simp: list_ex_iff dest: select_first_SomeD)
  qed (use assms in auto)
qed

end

end
