(* ===== verification/Outbox.thy ===== *)
theory Outbox
  imports Idempotency
begin

text \<open>
  The rows every operation writes beside its own: outbox events (\<open>platform/outbox/index.ts\<close>),
  audit entries (\<open>insertAuditLog\<close> of \<open>modules/auth/auth.repo.ts\<close>) and the record of the write
  position for read routing (\<open>trackWrite\<close> of \<open>platform/db/read-router.ts\<close>).
\<close>

section \<open>Outbox events\<close>

record outbox_event =
  ev_type :: string
  ev_aggregate_type :: string
  ev_aggregate_id :: uuid
  ev_payload :: json

definition event_row :: "outbox_event \<Rightarrow> uuid \<Rightarrow> micros \<Rightarrow> outbox_row" where
  "event_row e i t =
     \<lparr>x_id = i, x_event_type = ev_type e, x_aggregate_type = ev_aggregate_type e,
      x_aggregate_id = ev_aggregate_id e, x_payload = ev_payload e, x_status = X_PENDING,
      x_attempts = 0, x_last_error = None, x_next_attempt_at = t, x_created_at = t\<rparr>"

definition enqueue_event :: "outbox_event \<Rightarrow> uuid tx" where
  "enqueue_event e = query (\<lambda>env d.
     Inr (next_uuid d, d\<lparr>outbox_t := outbox_t d @ [event_row e (next_uuid d) (now env)],
                         next_uuid := Suc (next_uuid d)\<rparr>))"

definition enqueue_events :: "outbox_event list \<Rightarrow> unit tx" where
  "enqueue_events es = tx_iter (\<lambda>e. tx_bind (enqueue_event e) (\<lambda>_. tx_return ())) es"

section \<open>Audit entries\<close>

record request_context =
  ctx_ip :: "string option"
  ctx_user_agent :: "string option"
  ctx_request_id :: "string option"

definition audit_row_of ::
  "uuid option \<Rightarrow> string \<Rightarrow> string \<Rightarrow> string option \<Rightarrow> json \<Rightarrow> request_context \<Rightarrow> nat \<Rightarrow> micros \<Rightarrow> audit_row" where
  "audit_row_of actor action entityType entityId metadata ctx n t =
     \<lparr>l_id = n, l_actor_user_id = actor, l_action = action, l_entity_type = entityType,
      l_entity_id = entityId, l_metadata = metadata, l_ip = ctx_ip ctx, l_user_agent = ctx_user_agent ctx,
      l_request_id = ctx_request_id ctx, l_created_at = t\<rparr>"

text \<open>The actor references a user; an unknown one is refused.\<close>

definition insert_audit_log ::
  "uuid option \<Rightarrow> string \<Rightarrow> string \<Rightarrow> string option \<Rightarrow> json \<Rightarrow> request_context \<Rightarrow> unit tx" where
  "insert_audit_log actor action entityType entityId metadata ctx = query (\<lambda>env d.
     if (case actor of None \<Rightarrow> False | Some u \<Rightarrow> \<not> user_exists u d)
     then Inl (PgError FOREIGN_KEY_VIOLATION None)
     else Inr ((), d\<lparr>audit_t := audit_t d @
       [audit_row_of actor action entityType entityId metadata ctx (draw_serial (drawn_audit env) (map l_id (audit_t d))) (now env)]\<rparr>))"

section \<open>Write tracking\<close>

definition track_write :: "uuid option list \<Rightarrow> unit tx" where
  "track_write userIds =
     tx_bind tx_env (\<lambda>env.
     (let targets = List.map_filter id userIds in
      if \<not> REPLICA_CONFIGURED (cfg env) \<or> targets = [] then tx_return ()
      else tx_bind (select (\<lambda>env _. wal_lsn env)) (\<lambda>lsn.
           if lsn = [] then tx_return () else after_commit [TrackWrites targets lsn])))"

section \<open>What they leave alone\<close>

lemma enqueue_event_Inr_iff [run_simps]:
  "enqueue_event e env s = (Inr i, s') \<longleftrightarrow>
     faults env (stmts s) = None \<and> \<not> aborted s \<and> i = next_uuid (data s) \<and>
     s' = s\<lparr>stmts := Suc (stmts s), data := (data s)\<lparr>
       outbox_t := outbox_t (data s) @ [event_row e i (now env)], next_uuid := Suc i\<rparr>\<rparr>"
  by (auto simp: enqueue_event_def query_Inr_iff)

lemma insert_audit_log_Inr_iff [run_simps]:
  "insert_audit_log actor ac ty en md rq env s = (Inr u, s') \<longleftrightarrow>
     faults env (stmts s) = None \<and> \<not> aborted s \<and>
     (case actor of None \<Rightarrow> True | Some v \<Rightarrow> user_exists v (data s)) \<and>
     s' = s\<lparr>stmts := Suc (stmts s), data := (data s)\<lparr>
       audit_t := audit_t (data s) @ [audit_row_of actor ac ty en md rq (draw_serial (drawn_audit env) (map l_id (audit_t (data s)))) (now env)]\<rparr>\<rparr>"
  by (auto simp: insert_audit_log_def query_Inr_iff split: option.splits)

lemma track_write_Inr:
  "track_write us env s = (Inr u, s') \<Longrightarrow> \<not> aborted s \<Longrightarrow>
   \<not> aborted s' \<and> data s' = data s \<and> locks s' = locks s"
  by (auto simp: track_write_def run_simps Let_def split: if_splits)

text \<open>\<open>logged d d'\<close>: as \<open>d\<close>, but for events, audit entries and the supply of ids.\<close>

definition logged :: "db \<Rightarrow> db \<Rightarrow> bool" where
  "logged d d' \<longleftrightarrow>
     users_t d' = users_t d \<and> accounts_t d' = accounts_t d \<and> transfers_t d' = transfers_t d \<and>
     entries_t d' = entries_t d \<and> idem_t d' = idem_t d \<and> requests_t d' = requests_t d \<and>
     splits_t d' = splits_t d \<and> schedules_t d' = schedules_t d \<and> occurrences_t d' = occurrences_t d \<and>
     notifications_t d' = notifications_t d \<and> tokens_t d' = tokens_t d \<and> next_uuid d \<le> next_uuid d'"

lemma logged_refl [simp]: "logged d d"
  by (simp add: logged_def)

lemma logged_trans [trans]: "logged d d' \<Longrightarrow> logged d' d'' \<Longrightarrow> logged d d''"
  unfolding logged_def by simp

lemma logged_simps:
  assumes "logged d d'"
  shows "users_t d' = users_t d" "accounts_t d' = accounts_t d" "transfers_t d' = transfers_t d"
    "entries_t d' = entries_t d" "idem_t d' = idem_t d" "requests_t d' = requests_t d"
    "splits_t d' = splits_t d" "schedules_t d' = schedules_t d" "occurrences_t d' = occurrences_t d"
    "notifications_t d' = notifications_t d" "tokens_t d' = tokens_t d" "next_uuid d \<le> next_uuid d'"
  using assms by (simp_all add: logged_def)

lemma logged_outbox: "next_uuid d \<le> n \<Longrightarrow> logged d (d\<lparr>outbox_t := xs, next_uuid := n\<rparr>)"
  by (simp add: logged_def)

lemma logged_audit: "logged d (d\<lparr>audit_t := ys\<rparr>)"
  by (simp add: logged_def)

lemma enqueue_event_frame:
  "enqueue_event e env s = (Inr i, s') \<Longrightarrow>
   logged (data s) (data s') \<and> locks s' = locks s \<and> hooks s' = hooks s \<and> \<not> aborted s'"
  by (auto simp: enqueue_event_Inr_iff intro: logged_outbox)

lemma insert_audit_log_frame:
  "insert_audit_log actor ac ty en md rq env s = (Inr u, s') \<Longrightarrow>
   logged (data s) (data s') \<and> locks s' = locks s \<and> hooks s' = hooks s \<and> \<not> aborted s'"
  by (auto simp: insert_audit_log_Inr_iff intro: logged_audit)

lemma track_write_frame:
  "track_write us env s = (Inr u, s') \<Longrightarrow> \<not> aborted s \<Longrightarrow>
   logged (data s) (data s') \<and> locks s' = locks s \<and> \<not> aborted s'"
  by (auto dest: track_write_Inr)

lemma keeps_enqueue_event:
  "(\<And>d xs n. I d \<Longrightarrow> next_uuid d \<le> n \<Longrightarrow> I (d\<lparr>outbox_t := xs, next_uuid := n\<rparr>)) \<Longrightarrow>
   keeps I (enqueue_event e)"
  unfolding enqueue_event_def by (rule keeps_query) auto

lemma keeps_enqueue_events:
  "(\<And>d xs n. I d \<Longrightarrow> next_uuid d \<le> n \<Longrightarrow> I (d\<lparr>outbox_t := xs, next_uuid := n\<rparr>)) \<Longrightarrow>
   keeps I (enqueue_events es)"
  unfolding enqueue_events_def by (intro keeps_intros keeps_enqueue_event)

lemma keeps_insert_audit_log:
  "(\<And>d xs. I d \<Longrightarrow> I (d\<lparr>audit_t := xs\<rparr>)) \<Longrightarrow> keeps I (insert_audit_log actor ac ty en md rq)"
  unfolding insert_audit_log_def by (rule keeps_query) (auto split: if_splits)

lemma keeps_track_write [keeps_intros]: "keeps I (track_write us)"
  unfolding track_write_def Let_def by (intro keeps_intros)

lemma keeps_insert_claim:
  "(\<And>d xs n. I d \<Longrightarrow> next_uuid d \<le> n \<Longrightarrow> I (d\<lparr>idem_t := xs, next_uuid := n\<rparr>)) \<Longrightarrow>
   keeps I (insert_claim u key ep h)"
  unfolding insert_claim_def by (rule keeps_query) (auto split: if_splits)

lemma keeps_claim:
  "(\<And>d xs n. I d \<Longrightarrow> next_uuid d \<le> n \<Longrightarrow> I (d\<lparr>idem_t := xs, next_uuid := n\<rparr>)) \<Longrightarrow>
   keeps I (claim_idempotency_key u key ep h)"
  unfolding claim_idempotency_key_def
  by (intro keeps_intros keeps_catch keeps_insert_claim throws_lock_timeout)
    (auto intro: keeps_intros split: idem_state.split option.split)

lemma keeps_complete:
  "(\<And>d xs. I d \<Longrightarrow> I (d\<lparr>idem_t := xs\<rparr>)) \<Longrightarrow> keeps I (complete_idempotency_key i st b)"
  unfolding complete_idempotency_key_def by (rule keeps_query) auto

lemmas keeps_common =
  keeps_enqueue_event keeps_enqueue_events keeps_insert_audit_log keeps_track_write keeps_claim
  keeps_complete

end
