(* ===== verification/Timestamp.thy ===== *)
theory Timestamp
  imports Errors
begin

text \<open>
  \<open>shared/timestamp.ts\<close>: the texts of Postgres timestamps that make the round trip, and their
  conversion to a \<open>Date\<close>.
\<close>

type_synonym pg_timestamp = string

section \<open>The pattern\<close>

text \<open>The optional zone group \<open>([+-]\<backslash>d{2}(:?\<backslash>d{2})?|Z)?\<close> at the end of the pattern.\<close>

definition is_sign :: "char \<Rightarrow> bool" where
  "is_sign c \<longleftrightarrow> c = CHR ''+'' \<or> c = CHR ''-''"

definition zone_shape :: "string \<Rightarrow> bool" where
  "zone_shape z \<longleftrightarrow>
     (case z of
        [] \<Rightarrow> True
      | [c] \<Rightarrow> c = CHR ''Z''
      | [g, a, b] \<Rightarrow> is_sign g \<and> is_digit a \<and> is_digit b
      | [g, a, b, c, d] \<Rightarrow> is_sign g \<and> list_all is_digit [a, b, c, d]
      | [g, a, b, k, c, d] \<Rightarrow> is_sign g \<and> k = CHR '':'' \<and> list_all is_digit [a, b, c, d]
      | _ \<Rightarrow> False)"

definition is_pg_timestamp :: "string \<Rightarrow> bool" where
  "is_pg_timestamp s =
     (case (do {
        (_, s) <- parse_date s; s <- lit {CHR '' '', CHR ''T''} s;
        (_, s) <- parse_clock s; (_, s) <- parse_fraction s; Some s }) of
        None \<Rightarrow> False
      | Some z \<Rightarrow> zone_shape z)"

definition as_pg_timestamp :: "string \<Rightarrow> exn + pg_timestamp" where
  "as_pg_timestamp s =
     (if is_pg_timestamp s then Inr s
      else Inl (JsError None (''Not a Postgres timestamp: '' @ json_string s)))"

section \<open>Conversion to a Date\<close>

text \<open>\<open>String.prototype.replace\<close> with a string pattern: the first occurrence.\<close>

fun replace_first :: "char \<Rightarrow> char \<Rightarrow> string \<Rightarrow> string" where
  "replace_first a b [] = []"
| "replace_first a b (c # s) = (if c = a then b # s else c # replace_first a b s)"

text \<open>The two replacements anchored at the end, on the reversed text.\<close>

definition colon_hours :: "string \<Rightarrow> string" where
  "colon_hours s =
     (case rev s of
        b # a # g # _ \<Rightarrow> if is_digit a \<and> is_digit b \<and> is_sign g then s @ '':00'' else s
      | _ \<Rightarrow> s)"

definition colon_minutes :: "string \<Rightarrow> string" where
  "colon_minutes s =
     (case rev s of
        d # c # b # a # g # r \<Rightarrow>
          if list_all is_digit [a, b, c, d] \<and> is_sign g
          then rev r @ [g, a, b, CHR '':'', c, d] else s
      | _ \<Rightarrow> s)"

definition to_date :: "pg_timestamp \<Rightarrow> exn + millis" where
  "to_date value =
     (case date_parse (colon_minutes (colon_hours (replace_first CHR '' '' CHR ''T'' value))) of
        Some t \<Rightarrow> Inr t
      | None \<Rightarrow> Inl (JsError None (''Could not parse Postgres timestamp: '' @ json_string value)))"

section \<open>Reading back what Postgres renders\<close>

lemma zone_shape_minutes: "zone_shape z \<Longrightarrow> zone_minutes z \<noteq> None"
  by (auto simp: zone_shape_def is_sign_def split: list.splits)

lemma replace_first_append:
  "a \<notin> set s \<Longrightarrow> replace_first a b (s @ a # t) = s @ b # t"
  by (induction s) auto

lemma colon_hours_utc: "colon_hours (s @ ''+00'') = s @ ''+00:00''"
  by (simp add: colon_hours_def is_sign_def)

lemma colon_minutes_colon: "colon_minutes (s @ ''+00:00'') = s @ ''+00:00''"
  by (simp add: colon_minutes_def is_digit_def)

lemma pg_text_shape:
  "pg_text t = date_text (t div 86400000000) @ CHR '' '' #
     clock_text (t mod 86400000000 div 1000000) @ pg_fraction (t mod 1000000) @ ''+00''"
  using micros_split(4) [of t] by (simp add: pg_text_def Let_def)

lemma zone_shape_utc: "zone_shape ''+00''"
  by (simp add: zone_shape_def is_sign_def)

lemma is_pg_timestamp_steps:
  assumes "parse_date s = Some (x, CHR '' '' # r1)" and "parse_clock r1 = Some (y, r2)"
    and "parse_fraction r2 = Some (f, r3)" and "zone_shape r3"
  shows "is_pg_timestamp s"
  unfolding is_pg_timestamp_def assms(1) using assms(2-) by simp

lemma is_pg_timestamp_text:
  assumes "four_digit_year t"
  shows "is_pg_timestamp (pg_text t)"
proof -
  obtain y m k where "parse_date (pg_text t) = Some ((nat y, nat (m + 1), nat k),
      CHR '' '' # clock_text (t mod 86400000000 div 1000000) @ pg_fraction (t mod 1000000) @ ''+00'')"
    by (rule pg_text_parts [OF assms])
  then show ?thesis
    using parse_clock_text [OF micros_split(2,3) [of t]]
      parse_fraction_text [of "t mod 1000000"] zone_shape_utc
    by (rule is_pg_timestamp_steps) simp_all
qed

lemma no_space_fixed: "CHR '' '' \<notin> set (fixed k n)"
  using fixed_digits [of k n] by (auto simp: list_all_iff is_digit_def)

lemma no_space_date_text: "CHR '' '' \<notin> set (date_text d)"
  by (auto simp: date_text_def year_text_def no_space_fixed split: prod.splits)

lemma to_date_iso:
  "colon_minutes (colon_hours (replace_first CHR '' '' CHR ''T'' (pg_text t))) =
     date_text (t div 86400000000) @ CHR ''T'' #
     clock_text (t mod 86400000000 div 1000000) @ pg_fraction (t mod 1000000) @ ''+00:00''"
  (is "?l = ?d @ _ # ?c @ ?f @ _")
proof -
  have "replace_first CHR '' '' CHR ''T'' (pg_text t) = (?d @ CHR ''T'' # ?c @ ?f) @ ''+00''"
    unfolding pg_text_shape by (simp add: replace_first_append no_space_date_text)
  then have "?l = (?d @ CHR ''T'' # ?c @ ?f) @ ''+00:00''"
    by (simp only: colon_hours_utc colon_minutes_colon)
  then show ?thesis by simp
qed

lemma millis_split: "t = q * 1000000 + u \<Longrightarrow> q * 1000 + u div 1000 = t div (1000::int)"
  by simp

lemma to_date_text:
  assumes "four_digit_year t"
  shows "to_date (pg_text t) = Inr (date_of_micros t)"
proof -
  obtain y m k where c: "civil (t div 86400000000) = (y, m, k)" and y: "1 \<le> y" "y \<le> 9999"
    by (rule pg_text_parts [OF assms])
  note s = micros_split [of t]
  have y0: "0 \<le> y" using y by simp
  have r: "1 \<le> nat (m + 1)" "nat (m + 1) \<le> 12" "1 \<le> nat k" "nat k \<le> 31"
    using civil_range [OF c] month_len_bounds [of m "leap y"] by auto
  let ?z = "colon_minutes (colon_hours (replace_first CHR '' '' CHR ''T'' (pg_text t)))"
  have "date_parse ?z =
      Some ((t div 86400000000 * 86400 + t mod 86400000000 div 1000000) * 1000 +
        t mod 1000000 div 1000)"
    unfolding to_date_iso
    by (rule date_parse_parts [OF parse_date_text [OF c y0 y(2)] s(2,3) _ _ r
        seconds_of_civil [OF c y0 s(2,3)]]) simp_all
  then show ?thesis
    unfolding to_date_def date_of_micros_def millis_split [OF s(1), symmetric] by simp
qed

text \<open>
  C34. A timestamp text as Postgres prints it is accepted, the driver's \<open>Date\<close> made from it is the
  instant with its microseconds dropped, and sent back as text it denotes the same instant to
  the microsecond.
\<close>

theorem timestamp_round_trip:
  assumes "four_digit_year t"
  shows "as_pg_timestamp (pg_text t) = Inr (pg_text t) \<and> to_date (pg_text t) = Inr (date_of_micros t) \<and>
     pg_parse (pg_text t) = Some t"
  using is_pg_timestamp_text [OF assms] to_date_text [OF assms] pg_parse_text [OF assms]
  by (simp_all add: as_pg_timestamp_def)

lemma timestamp_round_trip_witness: "pg_parse (pg_text 1767225600000123) = Some 1767225600000123"
proof -
  have "four_digit_year 1767225600000123"
    by (simp add: four_digit_year_def year_of_day_def day_from_year_def Let_def)
  from timestamp_round_trip [OF this] show ?thesis by simp
qed

end
