(* ===== verification/Uuid.thy ===== *)
theory Uuid
  imports Json Instants
begin

text \<open>
  Texts of uuids: the lower-case form Postgres prints, the pattern the code tests ids with, and
  the value of a text in either case.
\<close>

fun hex_fixed :: "nat \<Rightarrow> nat \<Rightarrow> string" where
  "hex_fixed 0 n = []"
| "hex_fixed (Suc k) n = hex_fixed k (n div 16) @ [hex_char (n mod 16)]"

definition is_hex :: "char \<Rightarrow> bool" where
  "is_hex c \<longleftrightarrow>
     (let n = of_char c :: nat in
      48 \<le> n \<and> n \<le> 57 \<or> 97 \<le> n \<and> n \<le> 102 \<or> 65 \<le> n \<and> n \<le> 70)"

definition hex_value :: "string \<Rightarrow> nat" where
  "hex_value s = foldl (\<lambda>a c. a * 16 + hex_val c) 0 s"

definition uuid_text :: "uuid \<Rightarrow> string" where
  "uuid_text n =
     (let h = hex_fixed 32 n in
      take 8 h @ CHR ''-'' # take 4 (drop 8 h) @ CHR ''-'' # take 4 (drop 12 h) @
      CHR ''-'' # take 4 (drop 16 h) @ CHR ''-'' # drop 20 h)"

text \<open>\<open>/^[0-9a-f]{8}-[0-9a-f]{4}-[0-9a-f]{4}-[0-9a-f]{4}-[0-9a-f]{12}$/i\<close>.\<close>

definition hexes :: "nat \<Rightarrow> string \<Rightarrow> string option" where
  "hexes k s = (if k \<le> length s \<and> list_all is_hex (take k s) then Some (drop k s) else None)"

definition is_uuid :: "string \<Rightarrow> bool" where
  "is_uuid s \<longleftrightarrow>
     (do {
        s <- hexes 8 s; s <- lit {CHR ''-''} s;
        s <- hexes 4 s; s <- lit {CHR ''-''} s;
        s <- hexes 4 s; s <- lit {CHR ''-''} s;
        s <- hexes 4 s; s <- lit {CHR ''-''} s;
        hexes 12 s }) = Some []"

definition uuid_value :: "string \<Rightarrow> uuid" where
  "uuid_value s = hex_value (filter (\<lambda>c. c \<noteq> CHR ''-'') s)"

section \<open>Round trip\<close>

lemma hex_char_code: "n < 16 \<Longrightarrow> (of_char (hex_char n) :: nat) = (if n < 10 then 48 + n else 87 + n)"
  by (simp add: hex_char_def of_char_digit_char)

lemma is_hex_hex_char [simp]: "n < 16 \<Longrightarrow> is_hex (hex_char n)"
  by (auto simp: is_hex_def Let_def hex_char_code)

lemma is_hex_not_minus: "is_hex c \<Longrightarrow> c \<noteq> CHR ''-''"
  by (auto simp: is_hex_def)

lemma length_hex_fixed [simp]: "length (hex_fixed k n) = k"
  by (induction k arbitrary: n) auto

lemma hex_fixed_hex: "c \<in> set (hex_fixed k n) \<Longrightarrow> is_hex c"
  by (induction k arbitrary: n) auto

lemma hex_value_snoc: "hex_value (s @ [c]) = hex_value s * 16 + hex_val c"
  by (simp add: hex_value_def)

lemma hex_value_fixed: "n < 16 ^ k \<Longrightarrow> hex_value (hex_fixed k n) = n"
proof (induction k arbitrary: n)
  case (Suc k)
  then have "n div 16 < 16 ^ k" by (simp add: div_less_iff_less_mult mult.commute)
  then show ?case using Suc.IH by (simp add: hex_value_snoc hex_val_hex_char)
qed (simp add: hex_value_def)

lemma filter_hex: "(\<And>c. c \<in> set s \<Longrightarrow> is_hex c) \<Longrightarrow> filter (\<lambda>c. c \<noteq> CHR ''-'') s = s"
  by (rule filter_True) (auto dest: is_hex_not_minus)

text \<open>The five groups of the printed form.\<close>

lemma uuid_text_groups:
  obtains a b c d e where
    "uuid_text n = a @ CHR ''-'' # b @ CHR ''-'' # c @ CHR ''-'' # d @ CHR ''-'' # e"
    "a @ b @ c @ d @ e = hex_fixed 32 n"
    "length a = 8" "length b = 4" "length c = 4" "length d = 4" "length e = 12"
proof -
  obtain h where h: "h = hex_fixed 32 n" by simp
  then have l: "length h = 32" by (metis length_hex_fixed)
  have "take 12 h = take 8 h @ take 4 (drop 8 h)" using take_add [of 8 4 h] by simp
  moreover have "take 16 h = take 12 h @ take 4 (drop 12 h)" using take_add [of 12 4 h] by simp
  moreover have "take 20 h = take 16 h @ take 4 (drop 16 h)" using take_add [of 16 4 h] by simp
  moreover have "take 20 h @ drop 20 h = h" by simp
  ultimately have e: "take 8 h @ take 4 (drop 8 h) @ take 4 (drop 12 h) @ take 4 (drop 16 h) @ drop 20 h = h"
    by (metis append_assoc)
  have t: "uuid_text n = take 8 h @ CHR ''-'' # take 4 (drop 8 h) @ CHR ''-'' #
      take 4 (drop 12 h) @ CHR ''-'' # take 4 (drop 16 h) @ CHR ''-'' # drop 20 h"
    unfolding uuid_text_def Let_def h ..
  show thesis by (rule that [OF t trans [OF e h]]) (simp_all add: l)
qed

lemma uuid_value_text:
  assumes "n < 16 ^ 32"
  shows "uuid_value (uuid_text n) = n"
proof -
  obtain a b c d e where
    t: "uuid_text n = a @ CHR ''-'' # b @ CHR ''-'' # c @ CHR ''-'' # d @ CHR ''-'' # e" and
    h: "a @ b @ c @ d @ e = hex_fixed 32 n"
    by (rule uuid_text_groups)
  have "filter (\<lambda>c. c \<noteq> CHR ''-'') (a @ b @ c @ d @ e) = a @ b @ c @ d @ e"
    unfolding h by (rule filter_hex) (rule hex_fixed_hex)
  then have "filter (\<lambda>c. c \<noteq> CHR ''-'') (uuid_text n) = hex_fixed 32 n"
    unfolding t h [symmetric] by simp
  then show ?thesis unfolding uuid_value_def using hex_value_fixed [OF assms] by (simp only:)
qed

lemma uuid_text_inj: "m < 16 ^ 32 \<Longrightarrow> n < 16 ^ 32 \<Longrightarrow> uuid_text m = uuid_text n \<Longrightarrow> m = n"
  by (metis uuid_value_text)

lemma hexes_append:
  "length a = k \<Longrightarrow> list_all is_hex a \<Longrightarrow> hexes k (a @ r) = Some r"
  by (simp add: hexes_def)

lemma is_uuid_text: "is_uuid (uuid_text n)"
proof -
  obtain a b c d e where
    t: "uuid_text n = a @ CHR ''-'' # b @ CHR ''-'' # c @ CHR ''-'' # d @ CHR ''-'' # e" and
    h: "a @ b @ c @ d @ e = hex_fixed 32 n" and
    l: "length a = 8" "length b = 4" "length c = 4" "length d = 4" "length e = 12"
    by (rule uuid_text_groups)
  have "list_all is_hex (a @ b @ c @ d @ e)"
    unfolding h list_all_iff using hex_fixed_hex by blast
  then have x: "list_all is_hex a" "list_all is_hex b" "list_all is_hex c" "list_all is_hex d"
    "list_all is_hex e" by simp_all
  have "hexes 12 e = Some []" using hexes_append [OF l(5) x(5), of "[]"] by simp
  then show ?thesis
    unfolding is_uuid_def t
    by (simp add: hexes_append [OF l(1) x(1)] hexes_append [OF l(2) x(2)]
        hexes_append [OF l(3) x(3)] hexes_append [OF l(4) x(4)])
qed

lemma uuid_text_no_bar: "CHR ''|'' \<notin> set (uuid_text n)"
proof -
  obtain a b c d e where
    t: "uuid_text n = a @ CHR ''-'' # b @ CHR ''-'' # c @ CHR ''-'' # d @ CHR ''-'' # e" and
    h: "a @ b @ c @ d @ e = hex_fixed 32 n"
    by (rule uuid_text_groups)
  have "\<not> is_hex CHR ''|''" by (simp add: is_hex_def)
  then have "CHR ''|'' \<notin> set (a @ b @ c @ d @ e)" unfolding h using hex_fixed_hex by blast
  then show ?thesis unfolding t by simp
qed

end
