(* ===== verification/Cursor.thy ===== *)
theory Cursor
  imports Timestamp Uuid
begin

text \<open>
  \<open>shared/cursor.ts\<close>: keyset cursors, their base64url text, and the page a limited query
  yields. The bytes of an undecodable UTF-8 sequence become characters outside ASCII; which ones
  is irrelevant, since every accepted cursor is ASCII.
\<close>

section \<open>Base64url\<close>

definition b64_char :: "nat \<Rightarrow> char" where
  "b64_char n =
     (if n < 26 then char_of (65 + n) else if n < 52 then char_of (71 + n)
      else if n < 62 then char_of (n - 4) else if n = 62 then CHR ''-'' else CHR ''_'')"

text \<open>The reader accepts both alphabets.\<close>

definition b64_value :: "char \<Rightarrow> nat option" where
  "b64_value c =
     (let n = of_char c :: nat in
      if 65 \<le> n \<and> n \<le> 90 then Some (n - 65) else if 97 \<le> n \<and> n \<le> 122 then Some (n - 71)
      else if 48 \<le> n \<and> n \<le> 57 then Some (n + 4)
      else if n = 45 \<or> n = 43 then Some 62 else if n = 95 \<or> n = 47 then Some 63 else None)"

fun b64_groups :: "nat list \<Rightarrow> nat list" where
  "b64_groups [] = []"
| "b64_groups [a] = [a div 4, a mod 4 * 16]"
| "b64_groups [a, b] = [a div 4, a mod 4 * 16 + b div 16, b mod 16 * 4]"
| "b64_groups (a # b # c # r) =
     a div 4 # (a mod 4 * 16 + b div 16) # (b mod 16 * 4 + c div 64) # c mod 64 # b64_groups r"

fun b64_bytes :: "nat list \<Rightarrow> nat list" where
  "b64_bytes (w # x # y # z # r) =
     (w * 4 + x div 16) # (x mod 16 * 16 + y div 4) # (y mod 4 * 64 + z) # b64_bytes r"
| "b64_bytes [w, x, y] = [w * 4 + x div 16, x mod 16 * 16 + y div 4]"
| "b64_bytes [w, x] = [w * 4 + x div 16]"
| "b64_bytes _ = []"

definition utf8_bytes :: "string \<Rightarrow> nat list" where
  "utf8_bytes s = concat (map (\<lambda>c.
     let n = of_char c :: nat in if n < 128 then [n] else [192 + n div 64, 128 + n mod 64]) s)"

definition utf8_text :: "nat list \<Rightarrow> string" where
  "utf8_text bs = map char_of bs"

definition base64url :: "string \<Rightarrow> string" where
  "base64url s = map b64_char (b64_groups (utf8_bytes s))"

text \<open>Characters outside the alphabet are skipped.\<close>

definition from_base64url :: "string \<Rightarrow> string" where
  "from_base64url s = utf8_text (b64_bytes (List.map_filter b64_value s))"

section \<open>Cursors\<close>

record cursor =
  cur_created_at :: pg_timestamp
  cur_id :: string

definition encode_cursor :: "cursor \<Rightarrow> string" where
  "encode_cursor c = base64url (cur_created_at c @ CHR ''|'' # cur_id c)"

definition invalid_cursor :: exn where
  "invalid_cursor = validation ''Invalid pagination cursor'' []"

definition valid_cursor_id :: "string \<Rightarrow> bool" where
  "valid_cursor_id s \<longleftrightarrow> is_uuid s \<or> (s \<noteq> [] \<and> length s \<le> 19 \<and> list_all is_digit s)"

text \<open>\<open>!raw\<close> holds of an absent and of an empty parameter.\<close>

definition decode_cursor :: "string option \<Rightarrow> exn + cursor option" where
  "decode_cursor raw =
     (if raw = None \<or> raw = Some [] then Inr None
      else
        (let decoded = from_base64url (the raw) in
         case last_index_of CHR ''|'' decoded of
           None \<Rightarrow> Inl invalid_cursor
         | Some separator \<Rightarrow>
             (let rawTimestamp = take separator decoded;
                  i = drop (separator + 1) decoded
              in if \<not> valid_cursor_id i then Inl invalid_cursor
                 else (case as_pg_timestamp rawTimestamp of
                     Inl _ \<Rightarrow> Inl invalid_cursor
                   | Inr t \<Rightarrow> Inr (Some \<lparr>cur_created_at = t, cur_id = i\<rparr>)))))"

definition to_page :: "('r \<Rightarrow> pg_timestamp) \<Rightarrow> ('r \<Rightarrow> string) \<Rightarrow> 'r list \<Rightarrow> nat \<Rightarrow> 'r list \<times> string option" where
  "to_page createdAtRaw rid rows limit =
     (if length rows \<le> limit then (rows, None)
      else
        (let items = take limit rows; l = last items
         in (items, Some (encode_cursor \<lparr>cur_created_at = createdAtRaw l, cur_id = rid l\<rparr>))))"

section \<open>Round trips\<close>

lemma b64_value_char: "n < 64 \<Longrightarrow> b64_value (b64_char n) = Some n"
proof -
  assume "n < 64"
  then consider "n < 26" | "26 \<le> n" "n < 52" | "52 \<le> n" "n < 62" | "n = 62" | "n = 63" by linarith
  then show ?thesis by cases (auto simp: b64_char_def b64_value_def Let_def)
qed

lemma b64_values: "\<forall>n\<in>set ns. n < 64 \<Longrightarrow> List.map_filter b64_value (map b64_char ns) = ns"
  by (induction ns) (simp_all add: map_filter_simps b64_value_char)

lemma b64_groups_bound: "\<forall>b\<in>set bs. b < 256 \<Longrightarrow> \<forall>n\<in>set (b64_groups bs). n < 64"
proof (induction bs rule: b64_groups.induct)
  case (2 a)
  then have "a div 4 < 64" "a mod 4 < 4" by auto
  then show ?case by auto
next
  case (3 a b)
  then have "a div 4 < 64" "a mod 4 < 4" "b div 16 < 16" "b mod 16 < 16" by auto
  then show ?case by auto
next
  case (4 a b c r)
  then have "a div 4 < 64" "a mod 4 < 4" "b div 16 < 16" "b mod 16 < 16" "c div 64 < 4" by auto
  with 4 show ?case by auto
qed simp

lemma b64_bytes_groups: "\<forall>b\<in>set bs. b < 256 \<Longrightarrow> b64_bytes (b64_groups bs) = bs"
proof (induction bs rule: b64_groups.induct)
  case (3 a b)
  then have "b div 16 < 16" by auto
  then show ?case by simp
next
  case (4 a b c r)
  then have "b div 16 < 16" "c div 64 < 4" by auto
  with 4 show ?case by simp
qed simp_all

definition ascii :: "string \<Rightarrow> bool" where
  "ascii s \<longleftrightarrow> list_all (\<lambda>c. (of_char c :: nat) < 128) s"

lemma utf8_ascii: "ascii s \<Longrightarrow> utf8_bytes s = map of_char s"
  by (induction s) (auto simp: ascii_def utf8_bytes_def Let_def)

lemma from_base64url_base64url:
  assumes "ascii s"
  shows "from_base64url (base64url s) = s"
proof -
  have b: "\<forall>b\<in>set (utf8_bytes s). b < 256" using assms by (auto simp: utf8_ascii)
  show ?thesis
    unfolding from_base64url_def base64url_def b64_values [OF b64_groups_bound [OF b]]
      b64_bytes_groups [OF b]
    using assms by (simp add: utf8_text_def utf8_ascii comp_def)
qed

lemma base64url_nonempty: "s \<noteq> [] \<Longrightarrow> ascii s \<Longrightarrow> base64url s \<noteq> []"
  using from_base64url_base64url [of s] by (auto simp: from_base64url_def utf8_text_def map_filter_simps)

lemma ascii_append [simp]: "ascii (s @ t) \<longleftrightarrow> ascii s \<and> ascii t"
  by (simp add: ascii_def)

lemma ascii_Cons [simp]: "ascii (c # s) \<longleftrightarrow> (of_char c :: nat) < 128 \<and> ascii s"
  by (simp add: ascii_def)

lemma ascii_Nil [simp]: "ascii []"
  by (simp add: ascii_def)

lemma ascii_digits: "list_all is_digit s \<Longrightarrow> ascii s"
  by (auto simp: ascii_def list_all_iff is_digit_def)

lemma ascii_hex: "\<forall>c\<in>set s. is_hex c \<Longrightarrow> ascii s"
  by (fastforce simp: ascii_def list_all_iff is_hex_def Let_def)

lemma ascii_uuid_text: "ascii (uuid_text n)"
proof -
  obtain a b c d e where
    t: "uuid_text n = a @ CHR ''-'' # b @ CHR ''-'' # c @ CHR ''-'' # d @ CHR ''-'' # e" and
    h: "a @ b @ c @ d @ e = hex_fixed 32 n"
    by (rule uuid_text_groups)
  have "ascii (a @ b @ c @ d @ e)" unfolding h by (rule ascii_hex) (auto intro: hex_fixed_hex)
  then show ?thesis unfolding t by simp
qed

lemma ascii_pg_text: "ascii (pg_text t)"
proof -
  have "ascii (fixed k n)" for k n by (simp add: ascii_digits)
  moreover have "ascii (strip_zeros (fixed k n))" for k n by (simp add: ascii_digits strip_zeros_digits)
  ultimately show ?thesis
    by (simp add: pg_text_shape date_text_def year_text_def clock_text_def pg_fraction_def split: prod.splits)
qed

lemma valid_id_ascii_no_bar:
  assumes "valid_cursor_id i" and "is_uuid i \<Longrightarrow> ascii i \<and> CHR ''|'' \<notin> set i"
  shows "ascii i \<and> CHR ''|'' \<notin> set i"
  using assms ascii_digits [of i] by (auto simp: valid_cursor_id_def list_all_iff is_digit_def)

lemma decode_encode_cursor:
  assumes "ascii (cur_created_at c)" "is_pg_timestamp (cur_created_at c)"
    and "valid_cursor_id (cur_id c)" "ascii (cur_id c)" "CHR ''|'' \<notin> set (cur_id c)"
  shows "decode_cursor (Some (encode_cursor c)) = Inr (Some c)"
proof -
  let ?s = "cur_created_at c @ CHR ''|'' # cur_id c"
  have a: "ascii ?s" using assms by simp
  have "base64url ?s \<noteq> []" using a by (intro base64url_nonempty) simp_all
  moreover have "last_index_of CHR ''|'' ?s = Some (length (cur_created_at c))"
    using assms by (simp add: last_index_of_append)
  ultimately show ?thesis
    using assms from_base64url_base64url [OF a]
    by (simp add: decode_cursor_def encode_cursor_def as_pg_timestamp_def Let_def)
qed

text \<open>The cursors the queries build: a rendered timestamp with a uuid or an identity value.\<close>

lemma decode_encode_uuid:
  "four_digit_year t \<Longrightarrow>
   decode_cursor (Some (encode_cursor \<lparr>cur_created_at = pg_text t, cur_id = uuid_text u\<rparr>)) =
     Inr (Some \<lparr>cur_created_at = pg_text t, cur_id = uuid_text u\<rparr>)"
  by (rule decode_encode_cursor)
    (simp_all add: ascii_pg_text is_pg_timestamp_text valid_cursor_id_def is_uuid_text
      ascii_uuid_text uuid_text_no_bar)

lemma decode_encode_serial:
  "four_digit_year t \<Longrightarrow> n < 10 ^ 19 \<Longrightarrow>
   decode_cursor (Some (encode_cursor \<lparr>cur_created_at = pg_text t, cur_id = nat_text n\<rparr>)) =
     Inr (Some \<lparr>cur_created_at = pg_text t, cur_id = nat_text n\<rparr>)"
  by (rule decode_encode_cursor)
    (use length_nat_text_le [of n 19] nat_text_digits [of n] in
      \<open>auto simp: ascii_pg_text is_pg_timestamp_text valid_cursor_id_def ascii_digits
        list_all_iff is_digit_def\<close>)

text \<open>
  The cursor a page ends with is read back as exactly the position it was made from, to the
  microsecond, for the uuid keys of the listings and the serial keys of the ledger.
\<close>

theorem cursor_round_trip:
  assumes "four_digit_year t"
  shows "decode_cursor (Some (encode_cursor \<lparr>cur_created_at = pg_text t, cur_id = uuid_text u\<rparr>)) =
     Inr (Some \<lparr>cur_created_at = pg_text t, cur_id = uuid_text u\<rparr>)"
  by (rule decode_encode_uuid [OF assms])

lemma cursor_round_trip_witness:
  "decode_cursor (Some (encode_cursor \<lparr>cur_created_at = pg_text 0, cur_id = uuid_text 7\<rparr>)) =
     Inr (Some \<lparr>cur_created_at = pg_text 0, cur_id = uuid_text 7\<rparr>)"
  by (rule cursor_round_trip) (simp add: four_digit_year_def year_of_day_def day_from_year_def Let_def)

end
