(* ===== verification/Auth.thy ===== *)
theory Auth
  imports Outbox Cursor
begin

text \<open>
  \<open>modules/auth\<close> and \<open>platform/auth\<close>: PIN verification with its lockout, the funded
  registration, login, refresh rotation with reuse detection, logout.
\<close>

section \<open>Secrets\<close>

definition verify_secret :: "env \<Rightarrow> string \<Rightarrow> string \<Rightarrow> bool" where
  "verify_secret env hash plain = (case argon_verify env hash plain of None \<Rightarrow> False | Some b \<Rightarrow> b)"

definition hash_token :: "env \<Rightarrow> string \<Rightarrow> string" where
  "hash_token env token = sha256 env token"

definition generate_refresh_token :: "env \<Rightarrow> string \<times> string" where
  "generate_refresh_token env =
     (let token = map b64_char (b64_groups (random32 env)) in (token, hash_token env token))"

definition issue_access_token :: "env \<Rightarrow> uuid \<Rightarrow> string \<Rightarrow> string \<times> int" where
  "issue_access_token env userId phone =
     (jwt_sign env (JObj [(''phone'', JStr phone), (''jti'', JStr (uuid_text (random_jti env))),
                          (''sub'', JStr (uuid_text userId))]),
      ACCESS_TOKEN_TTL_SECONDS (cfg env))"

section \<open>Repository\<close>

definition phone_ok :: "string \<Rightarrow> bool" where
  "phone_ok p \<longleftrightarrow>
     length p = 11 \<and> take 2 p = ''01'' \<and> p ! 2 \<in> set ''3456789'' \<and> list_all is_digit (drop 3 p)"

definition btrim :: "string \<Rightarrow> string" where
  "btrim s = rev (dropWhile (\<lambda>c. c = CHR '' '') (rev (dropWhile (\<lambda>c. c = CHR '' '') s)))"

definition new_user_row :: "uuid \<Rightarrow> string \<Rightarrow> string \<Rightarrow> string \<Rightarrow> string \<Rightarrow> micros \<Rightarrow> user_row" where
  "new_user_row i phone name passwordHash pinHash t =
     \<lparr>u_id = i, u_phone = phone, u_name = name, u_password_hash = passwordHash, u_pin_hash = pinHash,
      u_failed_pin_attempts = 0, u_pin_locked_until = None, u_status = U_ACTIVE, u_created_at = t\<rparr>"

definition insert_user :: "string \<Rightarrow> string \<Rightarrow> string \<Rightarrow> string \<Rightarrow> user_row tx" where
  "insert_user phone name passwordHash pinHash = query (\<lambda>env d.
     if \<not> phone_ok phone \<or> length (btrim name) < 2 \<or> 80 < length (btrim name)
     then Inl (PgError CHECK_VIOLATION None)
     else if list_ex (\<lambda>r. u_phone r = phone) (users_t d)
     then Inl (PgError UNIQUE_VIOLATION (Some ''users_phone_key''))
     else
       (let row = new_user_row (next_uuid d) phone name passwordHash pinHash (now env)
        in Inr (row, d\<lparr>users_t := users_t d @ [row], next_uuid := Suc (next_uuid d)\<rparr>)))"

definition new_account_row :: "uuid \<Rightarrow> uuid \<Rightarrow> account_row" where
  "new_account_row i userId =
     \<lparr>a_id = i, a_user_id = Some userId, a_type = USER, a_status = A_ACTIVE,
      a_balance_minor = 0, a_version = 0\<rparr>"

definition insert_user_account :: "uuid \<Rightarrow> uuid tx" where
  "insert_user_account userId = query (\<lambda>_ d.
     if \<not> user_exists userId d then Inl (PgError FOREIGN_KEY_VIOLATION None)
     else if list_ex (\<lambda>a. a_user_id a = Some userId) (accounts_t d)
     then Inl (PgError UNIQUE_VIOLATION (Some ''accounts_user_id_key''))
     else Inr (next_uuid d, d\<lparr>accounts_t := accounts_t d @ [new_account_row (next_uuid d) userId],
                              next_uuid := Suc (next_uuid d)\<rparr>))"

definition find_user_by_phone :: "string \<Rightarrow> db \<Rightarrow> user_row option" where
  "find_user_by_phone phone d = select_first (\<lambda>r. u_phone r = phone) (users_t d)"

definition find_user_by_id :: "uuid \<Rightarrow> db \<Rightarrow> user_row option" where
  "find_user_by_id i d = select_first (\<lambda>r. u_id r = i) (users_t d)"

definition find_account_by_user_id :: "uuid \<Rightarrow> db \<Rightarrow> account_row option" where
  "find_account_by_user_id i d = select_first (\<lambda>a. a_user_id a = Some i) (accounts_t d)"

definition insert_refresh_token :: "uuid \<Rightarrow> uuid \<Rightarrow> string \<Rightarrow> millis \<Rightarrow> uuid tx" where
  "insert_refresh_token userId familyId tokenHash expiresAt = query (\<lambda>env d.
     if \<not> user_exists userId d then Inl (PgError FOREIGN_KEY_VIOLATION None)
     else if list_ex (\<lambda>r. rt_token_hash r = tokenHash) (tokens_t d)
     then Inl (PgError UNIQUE_VIOLATION (Some ''refresh_tokens_token_hash_key''))
     else Inr (next_uuid d, d\<lparr>tokens_t := tokens_t d @
         [\<lparr>rt_id = next_uuid d, rt_user_id = userId, rt_family_id = familyId,
           rt_token_hash = tokenHash, rt_expires_at = micros_of_date expiresAt,
           rt_revoked_at = None, rt_replaced_by = None, rt_created_at = now env\<rparr>],
         next_uuid := Suc (next_uuid d)\<rparr>))"

definition find_refresh_token_by_hash :: "string \<Rightarrow> token_row option tx" where
  "find_refresh_token_by_hash tokenHash =
     select (\<lambda>_ d. select_first (\<lambda>r. rt_token_hash r = tokenHash) (tokens_t d))"

definition mark_refresh_token_replaced :: "uuid \<Rightarrow> uuid \<Rightarrow> unit tx" where
  "mark_refresh_token_replaced tokenId replacedBy = query (\<lambda>env d.
     Inr ((), d\<lparr>tokens_t := upd_where (\<lambda>r. rt_id r = tokenId)
       (\<lambda>r. r\<lparr>rt_revoked_at := Some (now env), rt_replaced_by := Some replacedBy\<rparr>) (tokens_t d)\<rparr>))"

definition revoke_family :: "uuid \<Rightarrow> nat tx" where
  "revoke_family familyId = query (\<lambda>env d.
     (let P = (\<lambda>r. rt_family_id r = familyId \<and> rt_revoked_at r = None) in
      Inr (count_where P (tokens_t d),
        d\<lparr>tokens_t := upd_where P (\<lambda>r. r\<lparr>rt_revoked_at := Some (now env)\<rparr>) (tokens_t d)\<rparr>)))"

definition revoke_token :: "string \<Rightarrow> nat tx" where
  "revoke_token tokenHash = query (\<lambda>env d.
     (let P = (\<lambda>r. rt_token_hash r = tokenHash \<and> rt_revoked_at r = None) in
      Inr (count_where P (tokens_t d),
        d\<lparr>tokens_t := upd_where P (\<lambda>r. r\<lparr>rt_revoked_at := Some (now env)\<rparr>) (tokens_t d)\<rparr>)))"

section \<open>PIN verification\<close>

definition pin_failed :: "env \<Rightarrow> user_row \<Rightarrow> user_row" where
  "pin_failed env r =
     r\<lparr>u_failed_pin_attempts := u_failed_pin_attempts r + 1,
       u_pin_locked_until :=
         (if MAX_PIN_ATTEMPTS (cfg env) \<le> u_failed_pin_attempts r + 1
          then Some (now env + PIN_LOCKOUT_MINUTES (cfg env) * 60 * 1000000)
          else u_pin_locked_until r)\<rparr>"

definition record_failed_attempt :: "uuid \<Rightarrow> int tx" where
  "record_failed_attempt userId = query (\<lambda>env d.
     Inr (case first_row (returning (\<lambda>r. u_id r = userId) (pin_failed env) (users_t d)) of
            None \<Rightarrow> 0 | Some r \<Rightarrow> u_failed_pin_attempts r,
          d\<lparr>users_t := upd_where (\<lambda>r. u_id r = userId) (pin_failed env) (users_t d)\<rparr>))"

definition pin_cleared :: "user_row \<Rightarrow> user_row" where
  "pin_cleared r = r\<lparr>u_failed_pin_attempts := 0, u_pin_locked_until := None\<rparr>"

definition clear_failed_attempts :: "uuid \<Rightarrow> unit tx" where
  "clear_failed_attempts userId = query (\<lambda>_ d.
     Inr ((), d\<lparr>users_t := upd_where (\<lambda>r. u_id r = userId) pin_cleared (users_t d)\<rparr>))"

definition pin_is_locked :: "env \<Rightarrow> user_row \<Rightarrow> bool" where
  "pin_is_locked env r =
     (case u_pin_locked_until r of None \<Rightarrow> False | Some t \<Rightarrow> date_now env < date_of_micros t)"

text \<open>
  The lookup runs on the pool in the environment \<open>env\<close>, the counter in a transaction of its own,
  whose attempts see \<open>envs\<close>.
\<close>

definition verify_pin :: "uuid \<Rightarrow> string \<Rightarrow> env \<Rightarrow> (nat \<Rightarrow> env) \<Rightarrow> db \<Rightarrow> (exn + unit) \<times> db" where
  "verify_pin userId pin env envs d =
     (case pool_query (\<lambda>_ d. Inr (find_user_by_id userId d, d)) env d of
        (Inl e, d) \<Rightarrow> (Inl e, d)
      | (Inr None, d) \<Rightarrow> (Inl (not_found ''User''), d)
      | (Inr (Some user), d) \<Rightarrow>
          if u_status user \<noteq> U_ACTIVE then (Inl (forbidden ''This account is suspended''), d)
          else if pin_is_locked env user
          then (Inl (pin_locked (date_of_micros (the (u_pin_locked_until user)))), d)
          else if \<not> verify_secret env (u_pin_hash user) pin
          then (case transact (record_failed_attempt userId) envs d of
                  (Inl e, d') \<Rightarrow> (Inl e, d')
                | (Inr (attempts, _), d') \<Rightarrow>
                    (let remaining = max 0 (MAX_PIN_ATTEMPTS (cfg env) - attempts) in
                     if remaining = 0
                     then (Inl (pin_locked (date_now env + PIN_LOCKOUT_MINUTES (cfg env) * 60000)), d')
                     else (Inl (invalid_pin remaining), d')))
          else if 0 < u_failed_pin_attempts user \<or> u_pin_locked_until user \<noteq> None
          then (case transact (clear_failed_attempts userId) envs d of
                  (Inl e, d') \<Rightarrow> (Inl e, d')
                | (Inr _, d') \<Rightarrow> (Inr (), d'))
          else (Inr (), d))"

section \<open>Sessions\<close>

record session =
  ses_access_token :: string
  ses_refresh_token :: string
  ses_expires_in :: int
  ses_token_id :: uuid

definition issue_session :: "uuid \<Rightarrow> string \<Rightarrow> uuid \<Rightarrow> session tx" where
  "issue_session userId phone familyId =
     tx_bind tx_env (\<lambda>env.
     (let (refreshToken, hash) = generate_refresh_token env;
          (accessToken, expiresIn) = issue_access_token env userId phone in
      tx_bind (insert_refresh_token userId familyId hash
        (date_now env + REFRESH_TOKEN_TTL_SECONDS (cfg env) * 1000)) (\<lambda>tokenId.
      tx_return \<lparr>ses_access_token = accessToken, ses_refresh_token = refreshToken,
                 ses_expires_in = expiresIn, ses_token_id = tokenId\<rparr>)))"

record auth_result =
  ar_user_id :: uuid
  ar_phone :: string
  ar_name :: string
  ar_account :: "(uuid \<times> json) option"
  ar_access_token :: string
  ar_refresh_token :: string
  ar_expires_in :: int

definition auth_result_of :: "user_row \<Rightarrow> (uuid \<times> json) option \<Rightarrow> session \<Rightarrow> auth_result" where
  "auth_result_of user account ses =
     \<lparr>ar_user_id = u_id user, ar_phone = u_phone user, ar_name = u_name user, ar_account = account,
      ar_access_token = ses_access_token ses, ar_refresh_token = ses_refresh_token ses,
      ar_expires_in = ses_expires_in ses\<rparr>"

record register_input =
  reg_phone :: string
  reg_name :: string
  reg_password :: string
  reg_pin :: string

definition mint_command :: "env \<Rightarrow> uuid \<Rightarrow> post_command" where
  "mint_command env accountId =
     \<lparr>pc_from = pick_treasury_stripe (random_stripe env), pc_to = accountId,
      pc_amount = SIGNUP_BONUS_MINOR (cfg env), pc_type = MINT, pc_note = Some ''Welcome bonus'',
      pc_idem = None, pc_reversal_of = None\<rparr>"

lemma mint_command_simps [simp]:
  "pc_from (mint_command env i) = pick_treasury_stripe (random_stripe env)"
  "pc_to (mint_command env i) = i" "pc_amount (mint_command env i) = SIGNUP_BONUS_MINOR (cfg env)"
  "pc_type (mint_command env i) = MINT"
  by (simp_all add: mint_command_def)

lemma new_user_row_simps [simp]:
  "u_id (new_user_row i p n ph pn t) = i" "u_phone (new_user_row i p n ph pn t) = p"
  "u_password_hash (new_user_row i p n ph pn t) = ph" "u_pin_hash (new_user_row i p n ph pn t) = pn"
  by (simp_all add: new_user_row_def)

definition register_tx :: "register_input \<Rightarrow> string \<Rightarrow> string \<Rightarrow> request_context \<Rightarrow> auth_result tx" where
  "register_tx input passwordHash pinHash ctx =
     tx_bind (insert_user (reg_phone input) (reg_name input) passwordHash pinHash) (\<lambda>user.
     tx_bind (insert_user_account (u_id user)) (\<lambda>accountId.
     tx_bind tx_env (\<lambda>env.
     tx_bind (post_double_entry (mint_command env accountId)) (\<lambda>mint.
     tx_bind (enqueue_event
       \<lparr>ev_type = ''USER_REGISTERED'', ev_aggregate_type = ''user'', ev_aggregate_id = u_id user,
        ev_payload = JObj [(''userId'', JStr (uuid_text (u_id user))), (''phone'', JStr (u_phone user)),
          (''name'', JStr (u_name user)), (''accountId'', JStr (uuid_text accountId)),
          (''bonusMinor'', JStr (int_text (SIGNUP_BONUS_MINOR (cfg env)))),
          (''transferReference'', JStr (p_reference mint))]\<rparr>) (\<lambda>_.
     tx_bind (track_write [Some (u_id user)]) (\<lambda>_.
     tx_bind (insert_audit_log (Some (u_id user)) ''USER_REGISTERED'' ''user''
       (Some (uuid_text (u_id user)))
       (JObj [(''accountId'', JStr (uuid_text accountId)), (''mintReference'', JStr (p_reference mint))])
       ctx) (\<lambda>_.
     tx_bind (issue_session (u_id user) (u_phone user) (random_uuid env)) (\<lambda>ses.
     tx_return (auth_result_of user (Some (accountId, money (p_receiver_after mint))) ses)))))))))"

text \<open>Any unique violation is reported as a duplicate phone number.\<close>

definition register_user ::
  "register_input \<Rightarrow> request_context \<Rightarrow> env \<Rightarrow> (nat \<Rightarrow> env) \<Rightarrow> db \<Rightarrow> (exn + auth_result \<times> hook list) \<times> db" where
  "register_user input ctx env envs d =
     (let passwordHash = argon_hash env (reg_password input);
          pinHash = argon_hash env (reg_pin input) in
      case transact (register_tx input passwordHash pinHash ctx) envs d of
        (Inl e, d') \<Rightarrow>
          (Inl (if pg_error_code e = Some UNIQUE_VIOLATION
                then duplicate ''An account with this phone number already exists'' else e), d')
      | (Inr r, d') \<Rightarrow> (Inr r, d'))"

definition DECOY_HASH :: string where
  "DECOY_HASH = ''$argon2id$v=19$m=19456,t=2,p=1$c29tZXNhbHRzb21lc2FsdA$Qw3sHwGYyGCFVPz9Zq7uJ7dJ3v0e9nJ1t2xQK5xW8Yk''"

definition login_tx :: "user_row \<Rightarrow> account_row \<Rightarrow> request_context \<Rightarrow> auth_result tx" where
  "login_tx user account ctx =
     tx_bind tx_env (\<lambda>env.
     tx_bind (issue_session (u_id user) (u_phone user) (random_uuid env)) (\<lambda>ses.
     tx_bind (insert_audit_log (Some (u_id user)) ''USER_LOGIN'' ''user'' (Some (uuid_text (u_id user)))
       (JObj []) ctx) (\<lambda>_.
     tx_return (auth_result_of user (Some (a_id account, money (a_balance_minor account))) ses))))"

definition login_user ::
  "string \<Rightarrow> string \<Rightarrow> request_context \<Rightarrow> env \<Rightarrow> env \<Rightarrow> (nat \<Rightarrow> env) \<Rightarrow> db \<Rightarrow>
   (exn + auth_result \<times> hook list) \<times> db" where
  "login_user phone password ctx env1 env2 envs d =
     (case pool_query (\<lambda>_ d. Inr (find_user_by_phone phone d, d)) env1 d of
        (Inl e, d) \<Rightarrow> (Inl e, d)
      | (Inr found, d) \<Rightarrow>
          (let passwordOk = verify_secret env1
                 (case found of None \<Rightarrow> DECOY_HASH | Some user \<Rightarrow> u_password_hash user) password in
           case found of
             None \<Rightarrow> (Inl invalid_credentials, d)
           | Some user \<Rightarrow>
               if \<not> passwordOk then (Inl invalid_credentials, d)
               else if u_status user \<noteq> U_ACTIVE then (Inl (forbidden ''This account is suspended''), d)
               else (case pool_query (\<lambda>_ d. Inr (find_account_by_user_id (u_id user) d, d)) env2 d of
                   (Inl e, d) \<Rightarrow> (Inl e, d)
                 | (Inr None, d) \<Rightarrow> (Inl (not_found ''Account''), d)
                 | (Inr (Some account), d) \<Rightarrow> transact (login_tx user account ctx) envs d)))"

datatype refresh_outcome = Rotated auth_result | Reuse_Detected | Already_Revoked

definition refresh_tx :: "string \<Rightarrow> request_context \<Rightarrow> refresh_outcome tx" where
  "refresh_tx refreshTokenPlain ctx =
     tx_bind tx_env (\<lambda>env.
     tx_bind (find_refresh_token_by_hash (hash_token env refreshTokenPlain)) (\<lambda>found.
     tx_bind (the_or (unauthenticated ''Invalid refresh token'') found) (\<lambda>existing.
     if rt_revoked_at existing \<noteq> None \<and> rt_replaced_by existing = None
     then tx_return Already_Revoked
     else if rt_revoked_at existing \<noteq> None
     then
       tx_bind (revoke_family (rt_family_id existing)) (\<lambda>revoked.
       tx_bind (insert_audit_log (Some (rt_user_id existing)) ''REFRESH_TOKEN_REUSE_DETECTED'' ''session''
         (Some (uuid_text (rt_family_id existing)))
         (JObj [(''revokedSessions'', jint (int revoked))]) ctx) (\<lambda>_.
       tx_return Reuse_Detected))
     else
       tx_bind (throw_if (date_of_micros (rt_expires_at existing) \<le> date_now env)
         (unauthenticated ''Refresh token expired'')) (\<lambda>_.
       tx_bind (select (\<lambda>_ d. find_user_by_id (rt_user_id existing) d)) (\<lambda>u.
       tx_bind (the_or (unauthenticated ''Session is no longer valid'') u) (\<lambda>user.
       tx_bind (throw_if (u_status user \<noteq> U_ACTIVE) (unauthenticated ''Session is no longer valid'')) (\<lambda>_.
       tx_bind (issue_session (u_id user) (u_phone user) (rt_family_id existing)) (\<lambda>ses.
       tx_bind (mark_refresh_token_replaced (rt_id existing) (ses_token_id ses)) (\<lambda>_.
       tx_return (Rotated (auth_result_of user None ses)))))))))))"

definition refresh ::
  "string \<Rightarrow> request_context \<Rightarrow> (nat \<Rightarrow> env) \<Rightarrow> db \<Rightarrow> (exn + auth_result \<times> hook list) \<times> db" where
  "refresh refreshTokenPlain ctx envs d =
     (case transact (refresh_tx refreshTokenPlain ctx) envs d of
        (Inl e, d') \<Rightarrow> (Inl e, d')
      | (Inr (Rotated r, hs), d') \<Rightarrow> (Inr (r, hs), d')
      | (Inr (Reuse_Detected, _), d') \<Rightarrow>
          (Inl (unauthenticated ''Refresh token has already been used''), d')
      | (Inr (Already_Revoked, _), d') \<Rightarrow>
          (Inl (unauthenticated ''This session has been revoked''), d'))"

definition logout_tx :: "string \<Rightarrow> unit tx" where
  "logout_tx refreshTokenPlain =
     tx_bind tx_env (\<lambda>env.
     tx_bind (revoke_token (hash_token env refreshTokenPlain)) (\<lambda>_. tx_return ()))"

definition logout :: "string \<Rightarrow> (nat \<Rightarrow> env) \<Rightarrow> db \<Rightarrow> (exn + unit \<times> hook list) \<times> db" where
  "logout refreshTokenPlain envs d = transact (logout_tx refreshTokenPlain) envs d"

section \<open>Users\<close>

definition users_ok :: "db \<Rightarrow> bool" where
  "users_ok d \<longleftrightarrow>
     keyed u_id (users_t d) \<and> keyed u_phone (users_t d) \<and>
     (\<forall>u\<in>set (users_t d). u_id u < next_uuid d)"

lemma select_first_upd_key:
  assumes "\<And>r. k (f r) = k r"
  shows "select_first (\<lambda>r. k r = i) (upd_where (\<lambda>r. k r = i) f rs) =
           map_option f (select_first (\<lambda>r. k r = i) rs)"
  using assms by (induction rs) auto

lemma pin_failed_simps [simp]:
  "u_id (pin_failed env r) = u_id r" "u_phone (pin_failed env r) = u_phone r"
  "u_pin_hash (pin_failed env r) = u_pin_hash r" "u_status (pin_failed env r) = u_status r"
  "u_failed_pin_attempts (pin_failed env r) = u_failed_pin_attempts r + 1"
  "u_pin_locked_until (pin_failed env r) =
     (if MAX_PIN_ATTEMPTS (cfg env) \<le> u_failed_pin_attempts r + 1
      then Some (now env + PIN_LOCKOUT_MINUTES (cfg env) * 60 * 1000000) else u_pin_locked_until r)"
  by (simp_all add: pin_failed_def)

lemma pin_cleared_simps [simp]:
  "u_id (pin_cleared r) = u_id r" "u_phone (pin_cleared r) = u_phone r"
  "u_pin_hash (pin_cleared r) = u_pin_hash r" "u_status (pin_cleared r) = u_status r"
  "u_failed_pin_attempts (pin_cleared r) = 0" "u_pin_locked_until (pin_cleared r) = None"
  by (simp_all add: pin_cleared_def)

lemma first_row_returning:
  "first_row (returning P f rs) = map_option f (select_first P rs)"
  by (induction rs) (auto simp: returning_def first_row_def select_first_def)

lemma record_failed_attempt_Inr_iff [run_simps]:
  "record_failed_attempt i env s = (Inr n, s') \<longleftrightarrow>
     faults env (stmts s) = None \<and> \<not> aborted s \<and>
     n = (case find_user_by_id i (data s) of None \<Rightarrow> 0 | Some u \<Rightarrow> u_failed_pin_attempts u + 1) \<and>
     s' = s\<lparr>stmts := Suc (stmts s), data := (data s)\<lparr>
       users_t := upd_where (\<lambda>r. u_id r = i) (pin_failed env) (users_t (data s))\<rparr>\<rparr>"
  by (auto simp: record_failed_attempt_def query_Inr_iff first_row_returning find_user_by_id_def
      split: option.splits)

lemma pool_query_cases:
  assumes "pool_query f env d = (r, d')"
  obtains (failed) e where "r = Inl e" "d' = d" | (answered) a where "f env d = Inr (a, d')" "r = Inr a"
  using assms by (auto simp: pool_query_def split: option.splits sum.splits)

text \<open>The outcome of one check, for every state of the account and every failure.\<close>

lemma verify_pin_cases:
  assumes "verify_pin i pin env envs d = (r, d')"
  obtains (unreachable) e where "r = Inl e" "d' = d" "\<And>u. find_user_by_id i d = Some u \<Longrightarrow>
        connect_fault env \<noteq> None \<or> faults env 0 \<noteq> None"
    | (suspended) u where "find_user_by_id i d = Some u" "u_status u \<noteq> U_ACTIVE" "d' = d" "\<exists>e. r = Inl e"
    | (locked) u where "find_user_by_id i d = Some u" "pin_is_locked env u" "d' = d"
        "r = Inl (pin_locked (date_of_micros (the (u_pin_locked_until u))))"
    | (wrong) u where "find_user_by_id i d = Some u" "u_status u = U_ACTIVE" "\<not> pin_is_locked env u"
        "\<not> verify_secret env (u_pin_hash u) pin" "\<exists>e. r = Inl e"
        "d' = d \<or> (\<exists>n. d' = d\<lparr>users_t := upd_where (\<lambda>r. u_id r = i) (pin_failed (envs n)) (users_t d)\<rparr>)"
    | (right) u where "find_user_by_id i d = Some u" "u_status u = U_ACTIVE" "\<not> pin_is_locked env u"
        "verify_secret env (u_pin_hash u) pin"
        "d' = d \<or> d' = d\<lparr>users_t := upd_where (\<lambda>r. u_id r = i) pin_cleared (users_t d)\<rparr>"
proof -
  obtain q d1 where q: "pool_query (\<lambda>_ d. Inr (find_user_by_id i d, d)) env d = (q, d1)" by fastforce
  have t: "triple (\<lambda>_ x. x = d) (record_failed_attempt i) (\<lambda>env _ x.
      x = d\<lparr>users_t := upd_where (\<lambda>r. u_id r = i) (pin_failed env) (users_t d)\<rparr>)"
    by (rule tripleI) (auto simp: run_simps)
  have t': "triple (\<lambda>_ x. x = d) (clear_failed_attempts i) (\<lambda>_ _ x.
      x = d\<lparr>users_t := upd_where (\<lambda>r. u_id r = i) pin_cleared (users_t d)\<rparr>)"
    unfolding clear_failed_attempts_def by (rule triple_query) auto
  from q show thesis
  proof (cases rule: pool_query_cases)
    case (failed e)
    with assms q show thesis
      by (intro unreachable [of e]) (auto simp: verify_pin_def pool_query_def split: option.splits)
  next
    case (answered found)
    then have d1: "d1 = d" and f: "found = find_user_by_id i d" by auto
    show thesis
    proof (cases "find_user_by_id i d")
      case None
      with assms q answered f show thesis by (intro unreachable) (auto simp: verify_pin_def)
    next
      case (Some u)
      note run = assms [unfolded verify_pin_def q answered(2) f d1 Some, simplified]
      consider "u_status u \<noteq> U_ACTIVE" | "u_status u = U_ACTIVE" "pin_is_locked env u"
        | "u_status u = U_ACTIVE" "\<not> pin_is_locked env u" "\<not> verify_secret env (u_pin_hash u) pin"
        | "u_status u = U_ACTIVE" "\<not> pin_is_locked env u" "verify_secret env (u_pin_hash u) pin"
        by blast
      then show thesis
      proof cases
        case 1
        with run Some show thesis by (intro suspended) auto
      next
        case 2
        with run Some show thesis by (intro locked) auto
      next
        case 3
        obtain x d2 where x: "transact (record_failed_attempt i) envs d = (x, d2)" by fastforce
        from transact_triple [OF t _ x] have
          "d2 = d \<or> (\<exists>n. d2 = d\<lparr>users_t := upd_where (\<lambda>r. u_id r = i) (pin_failed (envs n)) (users_t d)\<rparr>)"
          by auto
        with 3 run Some x show thesis
          by (intro wrong) (auto simp: Let_def split: sum.splits prod.splits if_splits)
      next
        case 4
        obtain x d2 where x: "transact (clear_failed_attempts i) envs d = (x, d2)" by fastforce
        from transact_triple [OF t' _ x] have
          "d2 = d \<or> d2 = d\<lparr>users_t := upd_where (\<lambda>r. u_id r = i) pin_cleared (users_t d)\<rparr>"
          by auto
        with 4 run Some x show thesis
          by (intro right) (auto split: sum.splits prod.splits if_splits)
      qed
    qed
  qed
qed

text \<open>Without failures around it, a wrong PIN is counted, and the fifth one locks.\<close>

lemma verify_pin_wrong:
  assumes "reliable env" "reliable (envs 1)" "find_user_by_id i d = Some u" "u_status u = U_ACTIVE"
    and "\<not> pin_is_locked env u" "\<not> verify_secret env (u_pin_hash u) pin"
  shows "snd (verify_pin i pin env envs d) =
           d\<lparr>users_t := upd_where (\<lambda>r. u_id r = i) (pin_failed (envs 1)) (users_t d)\<rparr>"
    and "\<exists>e. fst (verify_pin i pin env envs d) = Inl e"
proof -
  have "record_failed_attempt i (envs 1) (begin_state d) =
      (Inr (u_failed_pin_attempts u + 1), (begin_state d)\<lparr>stmts := 1, data :=
        d\<lparr>users_t := upd_where (\<lambda>r. u_id r = i) (pin_failed (envs 1)) (users_t d)\<rparr>\<rparr>)"
    using assms by (simp add: record_failed_attempt_Inr_iff reliable_def)
  note f = this
  have t: "transact (record_failed_attempt i) envs d = (Inr (u_failed_pin_attempts u + 1, []),
      d\<lparr>users_t := upd_where (\<lambda>r. u_id r = i) (pin_failed (envs 1)) (users_t d)\<rparr>)"
    using transact_reliable [where envs = envs and d = d and fn = "record_failed_attempt i", OF assms(2) f] by simp
  have q: "pool_query (\<lambda>_ d. Inr (find_user_by_id i d, d)) env d = (Inr (Some u), d)"
    by (rule pool_query_reliable) (simp_all add: assms)
  show "snd (verify_pin i pin env envs d) =
           d\<lparr>users_t := upd_where (\<lambda>r. u_id r = i) (pin_failed (envs 1)) (users_t d)\<rparr>"
    and "\<exists>e. fst (verify_pin i pin env envs d) = Inl e"
    using assms by (simp_all add: verify_pin_def q t Let_def)
qed

lemma find_user_pin_failed:
  "find_user_by_id i (d\<lparr>users_t := upd_where (\<lambda>r. u_id r = i) (pin_failed env) (users_t d)\<rparr>) =
     map_option (pin_failed env) (find_user_by_id i d)"
  by (simp add: find_user_by_id_def select_first_upd_key)

section \<open>Registration\<close>

lemma entry_account_known:
  assumes "ledger_ok d" and e: "e \<in> set (entries_t d)"
  shows "e_account_id e \<in> account_ids d"
proof -
  obtain t where t: "t \<in> set (transfers_t d)" "t_id t = e_transfer_id e"
    using assms unfolding ledger_ok_def entries_ok_def by blast
  then have ok: "complete_entry t d" "t_from_account_id t \<in> account_ids d" "t_to_account_id t \<in> account_ids d"
    using assms(1) unfolding ledger_ok_def transfers_ok_def by blast+
  then obtain x y n where f: "filter (\<lambda>e. e_transfer_id e = t_id t) (entries_t d) = entries_of t x y n"
    unfolding complete_entry_def by blast
  have "e \<in> set (filter (\<lambda>e. e_transfer_id e = t_id t) (entries_t d))" using e t(2) by simp
  then have "e \<in> set (entries_of t x y n)" unfolding f .
  then have "e_account_id e = t_from_account_id t \<or> e_account_id e = t_to_account_id t"
    by (auto simp: entries_of_def)
  with ok show ?thesis by auto
qed

lemma account_ids_less: "ledger_ok d \<Longrightarrow> i \<in> account_ids d \<Longrightarrow> i < next_uuid d"
  unfolding ledger_ok_def accounts_ok_def account_ids_def by blast

lemma new_account_ledger_ok:
  assumes ok: "ledger_ok d" and i: "i = next_uuid d"
  shows "ledger_ok (d\<lparr>accounts_t := accounts_t d @ [new_account_row i u], next_uuid := Suc i\<rparr>)"
    (is "ledger_ok ?d")
proof -
  have "e_account_id e \<noteq> i" if "e \<in> set (entries_t d)" for e
    using account_ids_less [OF ok entry_account_known [OF ok that]] i by simp
  then have z: "entry_sum i d = 0" unfolding entry_sum_def by (intro sum_where_none) simp
  have s: "entry_sum j ?d = entry_sum j d" for j by (simp add: entry_sum_def)
  have A: "accounts_ok d" "transfers_ok d" "entries_ok d" using ok by (simp_all add: ledger_ok_def)
  have "accounts_ok ?d"
    using A(1) z unfolding accounts_ok_def s
    by (fastforce simp: keyed_append1 new_account_row_def owner_fits_def i)
  moreover have c: "complete_entry t ?d = complete_entry t d" for t by (simp add: complete_entry_def)
  have sub: "account_ids ?d = insert i (account_ids d)" by (simp add: account_ids_def new_account_row_def)
  have "transfers_ok ?d"
    using A(2) unfolding transfers_ok_def c sub by (fastforce simp: i)
  moreover have "entries_ok ?d" using A(3) by (simp add: entries_ok_def)
  ultimately show ?thesis by (simp add: ledger_ok_def)
qed

lemma insert_user_account_Inr_iff [run_simps]:
  "insert_user_account u env s = (Inr i, s') \<longleftrightarrow>
     faults env (stmts s) = None \<and> \<not> aborted s \<and> user_exists u (data s) \<and>
     \<not> list_ex (\<lambda>a. a_user_id a = Some u) (accounts_t (data s)) \<and> i = next_uuid (data s) \<and>
     s' = s\<lparr>stmts := Suc (stmts s), data := (data s)\<lparr>
       accounts_t := accounts_t (data s) @ [new_account_row i u], next_uuid := Suc i\<rparr>\<rparr>"
  by (auto simp: insert_user_account_def query_Inr_iff)

lemma insert_user_Inr_iff [run_simps]:
  "insert_user p n ph pn env s = (Inr r, s') \<longleftrightarrow>
     faults env (stmts s) = None \<and> \<not> aborted s \<and> phone_ok p \<and>
     2 \<le> length (btrim n) \<and> length (btrim n) \<le> 80 \<and>
     \<not> list_ex (\<lambda>r. u_phone r = p) (users_t (data s)) \<and>
     r = new_user_row (next_uuid (data s)) p n ph pn (now env) \<and>
     s' = s\<lparr>stmts := Suc (stmts s), data := (data s)\<lparr>
       users_t := users_t (data s) @ [r], next_uuid := Suc (next_uuid (data s))\<rparr>\<rparr>"
  by (auto simp: insert_user_def query_Inr_iff Let_def)

lemma keeps_issue_session:
  "(\<And>d xs n. I d \<Longrightarrow> next_uuid d \<le> n \<Longrightarrow> I (d\<lparr>tokens_t := xs, next_uuid := n\<rparr>)) \<Longrightarrow>
   keeps I (issue_session u p f)"
  unfolding issue_session_def insert_refresh_token_def Let_def
  by (intro keeps_intros keeps_query) (auto split: if_splits)

lemma keeps_ledger_register: "keeps ledger_ok (register_tx input ph pn ctx)"
proof -
  have u: "keeps ledger_ok (insert_user a b c e)" for a b c e
    unfolding insert_user_def
    by (rule keeps_query) (auto simp: Let_def same_books_def split: if_splits elim!: ledger_frame)
  have a: "keeps ledger_ok (insert_user_account x)" for x
    unfolding insert_user_account_def
    by (rule keeps_query) (auto split: if_splits intro: new_account_ledger_ok)
  show ?thesis
    unfolding register_tx_def
    by (intro keeps_intros u a keeps_ledger_post keeps_common keeps_issue_session;
        erule ledger_frame; simp add: same_books_def)
qed

lemma issue_session_Inr:
  assumes "issue_session u p f env s = (Inr ses, s')"
  shows "\<not> aborted s'" and "user_exists u (data s)" and "ses_token_id ses = next_uuid (data s)"
    and "\<not> list_ex (\<lambda>r. rt_token_hash r = snd (generate_refresh_token env)) (tokens_t (data s))"
    and "ses_refresh_token ses = fst (generate_refresh_token env)"
    and "data s' = (data s)\<lparr>tokens_t := tokens_t (data s) @
         [\<lparr>rt_id = next_uuid (data s), rt_user_id = u, rt_family_id = f,
           rt_token_hash = snd (generate_refresh_token env),
           rt_expires_at = micros_of_date (date_now env + REFRESH_TOKEN_TTL_SECONDS (cfg env) * 1000),
           rt_revoked_at = None, rt_replaced_by = None, rt_created_at = now env\<rparr>],
         next_uuid := Suc (next_uuid (data s))\<rparr>"
    and "locks s' = locks s"
  using assms
  by (auto simp: issue_session_def insert_refresh_token_def run_simps Let_def
      split: prod.splits if_splits)

lemma new_account_found:
  assumes "\<not> list_ex (\<lambda>a. a_user_id a = Some u) A" and "k \<noteq> i"
  shows "select_first (\<lambda>a. a_user_id a = Some u)
           (upd_where (\<lambda>q. a_id q = i) (bump x) (upd_where (\<lambda>q. a_id q = k) (bump y) (A @ [new_account_row i u]))) =
         Some (bump x (new_account_row i u))"
  using assms by (induction A) (auto simp: new_account_row_def)

text \<open>What a registration that returns has written.\<close>

lemma register_tx_Inr:
  assumes run: "register_tx input ph pn ctx env s = (Inr r, s')" and ok: "ledger_ok (data s)"
  obtains u i d where "users_t (data s') = users_t (data s) @ [u]" "u_phone u = reg_phone input"
    "u_id u = ar_user_id r" "u_password_hash u = ph" "u_pin_hash u = pn" "ar_phone r = reg_phone input"
    "find_account_by_user_id (u_id u) (data s') = Some (bump (SIGNUP_BONUS_MINOR (cfg env)) (new_account_row i (u_id u)))"
    "ar_account r = Some (i, money (SIGNUP_BONUS_MINOR (cfg env)))"
    "\<exists>t. transfers_t (data s') = transfers_t (data s) @ [t] \<and> t_type t = MINT \<and> t_to_account_id t = i \<and>
         t_amount_minor t = SIGNUP_BONUS_MINOR (cfg env) \<and>
         t_from_account_id t = pick_treasury_stripe (random_stripe env)"
    "\<not> aborted s'"
proof -
  from run obtain u s1 i s2 mint s3 ev x s4 y s5 ac ty en md rq z s6 ses where
    s1: "insert_user (reg_phone input) (reg_name input) ph pn env s = (Inr u, s1)" and
    s2: "insert_user_account (u_id u) env s1 = (Inr i, s2)" and
    s3: "post_double_entry (mint_command env i) env s2 = (Inr mint, s3)" and
    e4: "enqueue_event ev env s3 = (Inr x, s4)" and
    s5: "track_write [Some (u_id u)] env s4 = (Inr y, s5)" and
    e6: "insert_audit_log ac ty en md rq ctx env s5 = (Inr z, s6)" and
    s': "issue_session (u_id u) (u_phone u) (random_uuid env) env s6 = (Inr ses, s')" and
    r: "r = auth_result_of u (Some (i, money (p_receiver_after mint))) ses"
    unfolding register_tx_def tx_bind_Inr_iff env_Inr_iff return_Inr_iff
    by (elim exE conjE, hypsubst) (rule that; (assumption | rule refl))
  have u: "u = new_user_row (next_uuid (data s)) (reg_phone input) (reg_name input) ph pn (now env)"
    using s1 by (simp add: insert_user_Inr_iff)
  have s4: "accounts_t (data s4) = accounts_t (data s3)" "users_t (data s4) = users_t (data s3)"
      "transfers_t (data s4) = transfers_t (data s3)" and l4: "\<not> aborted s4"
    using e4 by (auto simp: enqueue_event_Inr_iff)
  have s6: "accounts_t (data s6) = accounts_t (data s5)" "users_t (data s6) = users_t (data s5)"
      "transfers_t (data s6) = transfers_t (data s5)"
    using e6 by (auto simp: insert_audit_log_Inr_iff)
  have d1: "users_t (data s1) = users_t (data s) @ [u]" "accounts_t (data s1) = accounts_t (data s)"
    "transfers_t (data s1) = transfers_t (data s)" "next_uuid (data s) < next_uuid (data s1)"
    using s1 by (auto simp: insert_user_Inr_iff)
  have d2: "users_t (data s2) = users_t (data s) @ [u]" "i = next_uuid (data s1)"
    "\<not> list_ex (\<lambda>a. a_user_id a = Some (u_id u)) (accounts_t (data s))"
    "accounts_t (data s2) = accounts_t (data s) @ [new_account_row i (u_id u)]"
    "transfers_t (data s2) = transfers_t (data s)"
    using s2 d1 by (auto simp: insert_user_account_Inr_iff)
  have new: "account_by_id i (data s2) = Some (new_account_row i (u_id u))"
  proof -
    have "\<not> list_ex (\<lambda>a. a_id a = i) (accounts_t (data s))"
      using ok d1(4) d2(2) by (auto simp: list_ex_iff ledger_ok_def accounts_ok_def)
    then show ?thesis
      by (simp add: account_by_id_def d2(4) select_first_append_new) (simp add: new_account_row_def)
  qed
  from s3 obtain a b where m: "movable (mint_command env i) a b (data s2)" and
    d3: "data s3 = movement_applied (next_entry_ids env (data s2)) (mint_command env i)
      (movement_row (mint_command env i) (p_reference mint) (p_id mint) (now env)) a b (data s2)" and
    rec: "p_receiver_after mint = a_balance_minor b + SIGNUP_BONUS_MINOR (cfg env)"
    by (rule post_double_entry_Inr) auto
  have b: "b = new_account_row i (u_id u)" using m new by (simp add: movable_def)
  have ne: "pick_treasury_stripe (random_stripe env) \<noteq> i" using m by (simp add: movable_def)
  have bal: "a_balance_minor (new_account_row i x) = 0" for x by (simp add: new_account_row_def)
  have d5: "data s5 = data s4" using track_write_Inr [OF s5 l4] by simp
  note d' = issue_session_Inr [OF s']
  have A: "accounts_t (data s') = accounts_t (data s3)" "users_t (data s') = users_t (data s3)"
    "transfers_t (data s') = transfers_t (data s3)"
    unfolding d'(6) using s4 s6 d5 by simp_all
  have acc: "accounts_t (data s') = upd_where (\<lambda>q. a_id q = i) (bump (SIGNUP_BONUS_MINOR (cfg env)))
      (upd_where (\<lambda>q. a_id q = pick_treasury_stripe (random_stripe env)) (bump (- SIGNUP_BONUS_MINOR (cfg env)))
        (accounts_t (data s) @ [new_account_row i (u_id u)]))"
    unfolding A d3 movement_applied_def mint_command_simps d2(4) by (simp del: upd_where_append)
  show thesis
  proof (rule that [of u i])
    show "find_account_by_user_id (u_id u) (data s') =
        Some (bump (SIGNUP_BONUS_MINOR (cfg env)) (new_account_row i (u_id u)))"
      unfolding find_account_by_user_id_def acc by (rule new_account_found [OF d2(3) ne])
    show "ar_account r = Some (i, money (SIGNUP_BONUS_MINOR (cfg env)))"
      by (simp add: r auth_result_of_def rec b bal)
  qed (use A d2 d3 d'(1) in \<open>auto simp: movement_applied_def r auth_result_of_def u\<close>)
qed

section \<open>Refresh rotation\<close>

abbreviation token_by_hash :: "string \<Rightarrow> db \<Rightarrow> token_row option" where
  "token_by_hash h d \<equiv> select_first (\<lambda>r. rt_token_hash r = h) (tokens_t d)"

definition replaced_row :: "micros \<Rightarrow> uuid \<Rightarrow> token_row \<Rightarrow> token_row" where
  "replaced_row t n r = r\<lparr>rt_revoked_at := Some t, rt_replaced_by := Some n\<rparr>"

lemma rotated_cases:
  assumes run: "refresh_tx tok ctx env s = (Inr (Rotated r), s')"
  obtains row new where "token_by_hash (hash_token env tok) (data s) = Some row"
    "rt_revoked_at row = None" "date_now env < date_of_micros (rt_expires_at row)"
    "rt_family_id new = rt_family_id row" "rt_user_id new = rt_user_id row" "rt_revoked_at new = None"
    "rt_token_hash new = snd (generate_refresh_token env)"
    "ar_refresh_token r = fst (generate_refresh_token env)"
    "user_exists (rt_user_id row) (data s)"
    "tokens_t (data s') = upd_where (\<lambda>r. rt_id r = rt_id row) (replaced_row (now env) (rt_id new))
       (tokens_t (data s) @ [new])"
    "users_t (data s') = users_t (data s)" "\<not> aborted s'"
proof -
  from run obtain row u ses s2 where
    row: "token_by_hash (hash_token env tok) (data s) = Some row" "rt_revoked_at row = None"
      "date_now env < date_of_micros (rt_expires_at row)" and
    u: "find_user_by_id (rt_user_id row) (data s) = Some u" and
    ses: "issue_session (u_id u) (u_phone u) (rt_family_id row) env (s\<lparr>stmts := Suc (Suc (stmts s))\<rparr>) = (Inr ses, s2)" and
    s': "mark_refresh_token_replaced (rt_id row) (ses_token_id ses) env s2 = (Inr (), s')" and
    r: "ar_refresh_token r = ses_refresh_token ses"
    unfolding refresh_tx_def find_refresh_token_by_hash_def
    by (auto simp: tx_bind_Inr_iff env_Inr_iff select_Inr_iff the_or_Inr_iff throw_if_Inr_iff
        return_Inr_iff not_le auth_result_of_def split: if_splits)
  have id: "u_id u = rt_user_id row"
    using u by (auto simp: find_user_by_id_def dest: select_first_SomeD)
  note i = issue_session_Inr [OF ses, unfolded id, simplified]
  let ?new = "\<lparr>rt_id = next_uuid (data s), rt_user_id = rt_user_id row, rt_family_id = rt_family_id row,
       rt_token_hash = snd (generate_refresh_token env),
       rt_expires_at = micros_of_date (date_now env + REFRESH_TOKEN_TTL_SECONDS (cfg env) * 1000),
       rt_revoked_at = None, rt_replaced_by = None, rt_created_at = now env\<rparr>"
  have "data s' = (data s2)\<lparr>tokens_t := upd_where (\<lambda>r. rt_id r = rt_id row)
      (replaced_row (now env) (ses_token_id ses)) (tokens_t (data s2))\<rparr>" and l: "\<not> aborted s'"
    using s' i(1) by (auto simp: mark_refresh_token_replaced_def query_Inr_iff replaced_row_def [abs_def])
  then have "tokens_t (data s') = upd_where (\<lambda>r. rt_id r = rt_id row)
      (replaced_row (now env) (rt_id ?new)) (tokens_t (data s) @ [?new])"
      "users_t (data s') = users_t (data s)"
    using i(3,6) by simp_all
  with row i(2,5) r l show thesis
    by (intro that [of row ?new]) simp_all
qed

text \<open>After a rotation the presented token is marked as replaced.\<close>

lemma rotated_spent:
  assumes "refresh_tx tok ctx env s = (Inr (Rotated r), s')"
  obtains row where "token_by_hash (hash_token env tok) (data s') = Some row"
    "rt_revoked_at row \<noteq> None" "rt_replaced_by row \<noteq> None" "user_exists (rt_user_id row) (data s')"
proof -
  from assms obtain row new where
    row: "token_by_hash (hash_token env tok) (data s) = Some row" "user_exists (rt_user_id row) (data s)" and
    tok: "tokens_t (data s') = upd_where (\<lambda>r. rt_id r = rt_id row) (replaced_row (now env) (rt_id new))
       (tokens_t (data s) @ [new])" and
    us: "users_t (data s') = users_t (data s)"
    by (rule rotated_cases)
  have "token_by_hash (hash_token env tok) (data s') =
      map_option (\<lambda>r. if rt_id r = rt_id row then replaced_row (now env) (rt_id new) r else r)
        (select_first (\<lambda>r. rt_token_hash r = hash_token env tok) (tokens_t (data s) @ [new]))"
    unfolding tok by (rule select_first_upd_where) (simp add: replaced_row_def)
  also have "\<dots> = Some (replaced_row (now env) (rt_id new) row)"
    using row(1) by (simp add: select_first_append)
  finally show thesis
    by (rule that) (use row(2) us in \<open>simp_all add: replaced_row_def user_exists_def\<close>)
qed

lemma refresh_Inr_rotated:
  assumes "refresh tok ctx envs d = (Inr (r, hs), d')"
  obtains i s where "refresh_tx tok ctx (envs i) (begin_state d) = (Inr (Rotated r), s)" "d' = data s"
proof -
  from assms have t: "transact (refresh_tx tok ctx) envs d = (Inr (Rotated r, hs), d')"
    by (auto simp: refresh_def split: prod.splits sum.splits refresh_outcome.splits)
  from t obtain i s where f: "refresh_tx tok ctx (envs i) (begin_state d) = (Inr (Rotated r), s)"
      and d': "d' = (if aborted s then d else data s)"
    by (rule transact_Inr)
  from f have "\<not> aborted s" by (rule rotated_cases)
  with f d' show thesis by (intro that) simp_all
qed

lemma spent_token_refused:
  assumes "token_by_hash (hash_token env tok) (data s) = Some row" "rt_revoked_at row \<noteq> None"
  shows "refresh_tx tok ctx env s \<noteq> (Inr (Rotated r), s')"
proof
  assume "refresh_tx tok ctx env s = (Inr (Rotated r), s')"
  then obtain q where "token_by_hash (hash_token env tok) (data s) = Some q" "rt_revoked_at q = None"
    by (rule rotated_cases)
  with assms show False by simp
qed

lemma reuse_detected_run:
  assumes "reliable env" "token_by_hash (hash_token env tok) d = Some row" "rt_revoked_at row \<noteq> None"
    and "rt_replaced_by row \<noteq> None" "user_exists (rt_user_id row) d"
  obtains s where "refresh_tx tok ctx env (begin_state d) = (Inr Reuse_Detected, s)" "\<not> aborted s"
    "\<And>q. q \<in> set (tokens_t (data s)) \<Longrightarrow> rt_family_id q = rt_family_id row \<Longrightarrow> rt_revoked_at q \<noteq> None"
proof -
  have "\<exists>s. refresh_tx tok ctx env (begin_state d) = (Inr Reuse_Detected, s) \<and> \<not> aborted s \<and>
      tokens_t (data s) = upd_where (\<lambda>r. rt_family_id r = rt_family_id row \<and> rt_revoked_at r = None)
        (\<lambda>r. r\<lparr>rt_revoked_at := Some (now env)\<rparr>) (tokens_t d)"
    using assms
    by (simp add: refresh_tx_def find_refresh_token_by_hash_def insert_audit_log_def revoke_family_def
        reliable_def Let_def user_exists_def eval_simps)
  then obtain s where s: "refresh_tx tok ctx env (begin_state d) = (Inr Reuse_Detected, s)" "\<not> aborted s"
    and t: "tokens_t (data s) = upd_where (\<lambda>r. rt_family_id r = rt_family_id row \<and> rt_revoked_at r = None)
        (\<lambda>r. r\<lparr>rt_revoked_at := Some (now env)\<rparr>) (tokens_t d)" by blast
  show thesis
    by (rule that [OF s]) (auto simp: t set_upd_where)
qed

end
