(* ===== verification/Transfers.thy ===== *)
theory Transfers
  imports Auth
begin

text \<open>
  \<open>modules/transfers\<close>: velocity limiting and anomaly detection, the queries of
  \<open>transfer.repo.ts\<close>, sending money and reversing a transfer.
\<close>

section \<open>Velocity\<close>

definition initial_policy :: "config \<Rightarrow> velocity_policy" where
  "initial_policy c = \<lparr>windowSeconds = VELOCITY_WINDOW_SECONDS c,
     maxTransfers = VELOCITY_MAX_TRANSFERS c, alertThresholdMinor = FRAUD_ALERT_THRESHOLD_MINOR c\<rparr>"

record policy_update =
  up_window :: "int option"
  up_max :: "int option"
  up_alert :: "int option"

definition set_velocity_policy :: "policy_update \<Rightarrow> velocity_policy \<Rightarrow> velocity_policy" where
  "set_velocity_policy up p = \<lparr>
     windowSeconds = (case up_window up of None \<Rightarrow> windowSeconds p | Some x \<Rightarrow> x),
     maxTransfers = (case up_max up of None \<Rightarrow> maxTransfers p | Some x \<Rightarrow> x),
     alertThresholdMinor = (case up_alert up of None \<Rightarrow> alertThresholdMinor p | Some x \<Rightarrow> x)\<rparr>"

definition counted_transfer :: "env \<Rightarrow> uuid \<Rightarrow> transfer_row \<Rightarrow> bool" where
  "counted_transfer env accountId t \<longleftrightarrow>
     t_from_account_id t = accountId \<and> t_type t \<in> {P2P, REQUEST_SETTLEMENT} \<and>
     now env - windowSeconds (policy env) * 1000000 \<le> t_created_at t"

fun min_list_opt :: "int list \<Rightarrow> int option" where
  "min_list_opt [] = None"
| "min_list_opt (x # xs) = (case min_list_opt xs of None \<Rightarrow> Some x | Some y \<Rightarrow> Some (min x y))"

text \<open>\<open>Math.max(1, Math.ceil(windowSeconds - (Date.now() - oldest) / 1000))\<close>.\<close>

definition retry_after :: "env \<Rightarrow> millis option \<Rightarrow> int" where
  "retry_after env oldest =
     (case oldest of
        None \<Rightarrow> windowSeconds (policy env)
      | Some t \<Rightarrow> max 1 (- ((date_now env - t - windowSeconds (policy env) * 1000) div 1000)))"

definition enforce_velocity :: "uuid \<Rightarrow> unit tx" where
  "enforce_velocity accountId =
     tx_bind (query (\<lambda>_ d. Inr ((), d))) (\<lambda>_.
     tx_bind (select (\<lambda>env d.
       (let rows = filter (counted_transfer env accountId) (transfers_t d) in
        (int (length rows), map_option date_of_micros (min_list_opt (map t_created_at rows)))))) (\<lambda>(recent, oldest).
     tx_bind tx_env (\<lambda>env.
     if recent < maxTransfers (policy env) then tx_return ()
     else tx_throw (rate_limited (retry_after env oldest)))))"

definition is_anomalous :: "env \<Rightarrow> int \<Rightarrow> bool" where
  "is_anomalous env amountMinor \<longleftrightarrow> alertThresholdMinor (policy env) \<le> amountMinor"

section \<open>Repository\<close>

record payee_account =
  pa_user_id :: uuid
  pa_account_id :: uuid
  pa_name :: string
  pa_phone :: string
  pa_account_status :: account_status
  pa_user_status :: user_status

definition payee_rows :: "string \<Rightarrow> db \<Rightarrow> payee_account list" where
  "payee_rows phone d =
     concat (map (\<lambda>u. map (\<lambda>a.
         \<lparr>pa_user_id = u_id u, pa_account_id = a_id a, pa_name = u_name u, pa_phone = u_phone u,
          pa_account_status = a_status a, pa_user_status = u_status u\<rparr>)
       (filter (\<lambda>a. a_user_id a = Some (u_id u)) (accounts_t d)))
     (filter (\<lambda>u. u_phone u = phone) (users_t d)))"

definition find_payee_by_phone :: "string \<Rightarrow> payee_account option tx" where
  "find_payee_by_phone phone = select (\<lambda>_ d. first_row (payee_rows phone d))"

definition find_account_id_for_user :: "uuid \<Rightarrow> uuid option tx" where
  "find_account_id_for_user userId = select (\<lambda>_ d. map_option a_id (find_account_by_user_id userId d))"

definition limited_type :: "transfer_type \<Rightarrow> bool" where
  "limited_type t \<longleftrightarrow> t \<in> {P2P, REQUEST_SETTLEMENT, SCHEDULED}"

definition spent_since :: "micros \<Rightarrow> uuid \<Rightarrow> db \<Rightarrow> int" where
  "spent_since t accountId d =
     sum_where (\<lambda>q. t_from_account_id q = accountId \<and> limited_type (t_type q) \<and>
                    t_status q = T_COMPLETED \<and> t \<le> t_created_at q) t_amount_minor (transfers_t d)"

definition outbound_in_window :: "uuid \<Rightarrow> int tx" where
  "outbound_in_window accountId = select (\<lambda>env d. spent_since (now env - 24 * 3600 * 1000000) accountId d)"

definition user_of_account :: "uuid \<Rightarrow> db \<Rightarrow> user_row option" where
  "user_of_account accountId d =
     (case account_by_id accountId d of
        None \<Rightarrow> None
      | Some a \<Rightarrow> (case a_user_id a of None \<Rightarrow> None | Some u \<Rightarrow> find_user_by_id u d))"

text \<open>Names and phones of both sides, with the defaults for a system account.\<close>

definition names_for_accounts :: "uuid \<Rightarrow> uuid \<Rightarrow> ((string \<times> string) \<times> (string \<times> string)) tx" where
  "names_for_accounts fromAccountId toAccountId = select (\<lambda>_ d.
     (let side = (\<lambda>i. case user_of_account i d of
            None \<Rightarrow> (''TakaFlow'', '''') | Some u \<Rightarrow> (u_name u, u_phone u))
      in (side fromAccountId, side toAccountId)))"

section \<open>Sending money\<close>

record transfer_input =
  ti_to_phone :: string
  ti_amount :: int
  ti_note :: "string option"
  ti_pin :: string

definition SEND_ENDPOINT :: string where
  "SEND_ENDPOINT = ''POST /api/v1/transfers''"

definition send_command :: "transfer_input \<Rightarrow> uuid \<Rightarrow> uuid \<Rightarrow> uuid \<Rightarrow> post_command" where
  "send_command input senderAccountId payeeAccountId claimId =
     \<lparr>pc_from = senderAccountId, pc_to = payeeAccountId, pc_amount = ti_amount input, pc_type = P2P,
      pc_note = ti_note input, pc_idem = Some claimId, pc_reversal_of = None\<rparr>"

definition daily_limit_error :: "int \<Rightarrow> int \<Rightarrow> int \<Rightarrow> exn" where
  "daily_limit_error dailyLimit spent attempted =
     limit_exceeded ''This transfer would exceed your daily sending limit''
       [(''dailyLimitMinor'', JStr (int_text dailyLimit)), (''alreadySentMinor'', JStr (int_text spent)),
        (''attemptedMinor'', JStr (int_text attempted))]"

definition receipt_body :: "bool \<Rightarrow> posted_transfer \<Rightarrow> payee_account \<Rightarrow> json" where
  "receipt_body flagged posted payee = JObj (
     (if flagged then [(''securityAlert'', JBool True)] else []) @
     [(''transfer'', JObj [
         (''reference'', JStr (p_reference posted)), (''status'', JStr ''COMPLETED''),
         (''type'', JStr (type_text (p_type posted))), (''amount'', money (p_amount posted)),
         (''note'', jopt (p_note posted)), (''createdAt'', JStr (iso_string (p_created_at posted))),
         (''counterparty'', JObj [(''name'', JStr (pa_name payee)), (''phone'', JStr (pa_phone payee))]),
         (''direction'', JStr ''OUT'')]),
      (''balance'', money (p_sender_after posted))])"

definition send_money_work :: "uuid \<Rightarrow> transfer_input \<Rightarrow> request_context \<Rightarrow> uuid \<Rightarrow> (int \<times> json) tx" where
  "send_money_work senderUserId input ctx claimId =
     tx_bind (find_account_id_for_user senderUserId) (\<lambda>acc.
     tx_bind (the_or (not_found ''Account'') acc) (\<lambda>senderAccountId.
     tx_bind (enforce_velocity senderAccountId) (\<lambda>_.
     tx_bind (find_payee_by_phone (ti_to_phone input)) (\<lambda>pay.
     tx_bind (the_or (not_found ''Recipient'') pay) (\<lambda>payee.
     tx_bind (throw_if (pa_user_status payee \<noteq> U_ACTIVE) (not_found ''Recipient'')) (\<lambda>_.
     tx_bind (throw_if (pa_user_id payee = senderUserId) self_transfer) (\<lambda>_.
     tx_bind (outbound_in_window senderAccountId) (\<lambda>spent.
     tx_bind tx_env (\<lambda>env.
     tx_bind (throw_if (DAILY_TRANSFER_LIMIT_MINOR (cfg env) < spent + ti_amount input)
       (daily_limit_error (DAILY_TRANSFER_LIMIT_MINOR (cfg env)) spent (ti_amount input))) (\<lambda>_.
     tx_bind (post_double_entry (send_command input senderAccountId (pa_account_id payee) claimId)) (\<lambda>posted.
     tx_bind (enqueue_event
       \<lparr>ev_type = ''MONEY_RECEIVED'', ev_aggregate_type = ''transfer'', ev_aggregate_id = p_id posted,
        ev_payload = JObj [(''transferId'', JStr (uuid_text (p_id posted))),
          (''reference'', JStr (p_reference posted)), (''senderUserId'', JStr (uuid_text senderUserId)),
          (''recipientUserId'', JStr (uuid_text (pa_user_id payee))),
          (''amountMinor'', JStr (int_text (p_amount posted))), (''note'', jopt (p_note posted))]\<rparr>) (\<lambda>_.
     tx_bind (track_write [Some senderUserId, Some (pa_user_id payee)]) (\<lambda>_.
     tx_bind (insert_audit_log (Some senderUserId) ''TRANSFER_SENT'' ''transfer'' (Some (uuid_text (p_id posted)))
       (JObj [(''reference'', JStr (p_reference posted)), (''amountMinor'', JStr (int_text (p_amount posted))),
              (''recipientUserId'', JStr (uuid_text (pa_user_id payee)))]) ctx) (\<lambda>_.
     (let flagged = is_anomalous env (p_amount posted) in
     tx_bind (if flagged
       then tx_bind (enqueue_event
           \<lparr>ev_type = ''SECURITY_ALERT'', ev_aggregate_type = ''transfer'', ev_aggregate_id = p_id posted,
            ev_payload = JObj [(''userId'', JStr (uuid_text senderUserId)),
              (''reference'', JStr (p_reference posted)), (''amountMinor'', JStr (int_text (p_amount posted)))]\<rparr>)
           (\<lambda>_. after_commit [SendSecurityAlert senderUserId (p_reference posted) (p_amount posted)])
       else tx_return ()) (\<lambda>_.
     tx_return (201, receipt_body flagged posted payee)))))))))))))))))"

definition send_money_tx ::
  "uuid \<Rightarrow> string \<Rightarrow> transfer_input \<Rightarrow> json \<Rightarrow> request_context \<Rightarrow> outcome tx" where
  "send_money_tx senderUserId idempotencyKey input rawBody ctx =
     tx_bind tx_env (\<lambda>env.
     tx_bind (claim_idempotency_key senderUserId idempotencyKey SEND_ENDPOINT
       (hash_request env SEND_ENDPOINT rawBody)) (\<lambda>claim.
     case claim of
       Mismatch \<Rightarrow> tx_throw idempotency_key_reuse
     | Replay st b \<Rightarrow> tx_return \<lparr>out_status = st, out_body = b, out_replayed = True\<rparr>
     | Claimed i \<Rightarrow>
         tx_bind (send_money_work senderUserId input ctx i) (\<lambda>(st, b).
         tx_bind (complete_idempotency_key i st b) (\<lambda>_.
         tx_return \<lparr>out_status = st, out_body = b, out_replayed = False\<rparr>))))"

definition formatted :: "int \<Rightarrow> string" where
  "formatted n = format_taka n"

text \<open>The PIN is checked in \<open>env\<close> and \<open>penvs\<close>, the transfer runs in \<open>envs\<close>.\<close>

definition send_money ::
  "uuid \<Rightarrow> string \<Rightarrow> transfer_input \<Rightarrow> json \<Rightarrow> request_context \<Rightarrow> env \<Rightarrow> (nat \<Rightarrow> env) \<Rightarrow> (nat \<Rightarrow> env) \<Rightarrow> db \<Rightarrow>
   (exn + outcome \<times> hook list) \<times> db" where
  "send_money senderUserId idempotencyKey input rawBody ctx env penvs envs d =
     (let minT = MIN_TRANSFER_MINOR (cfg env); maxT = MAX_TRANSFER_MINOR (cfg env) in
      if ti_amount input < minT
      then (Inl (validation (''Minimum transfer is '' @ formatted minT @ '' BDT'') []), d)
      else if maxT < ti_amount input
      then (Inl (limit_exceeded (''Maximum transfer is '' @ formatted maxT @ '' BDT'')
                  [(''maxMinor'', JStr (int_text maxT))]), d)
      else
        (case verify_pin senderUserId (ti_pin input) env penvs d of
           (Inl e, d') \<Rightarrow> (Inl e, d')
         | (Inr _, d') \<Rightarrow> transact (send_money_tx senderUserId idempotencyKey input rawBody ctx) envs d'))"

section \<open>What sending money does\<close>

lemma keeps_enforce_velocity [keeps_intros]: "keeps I (enforce_velocity a)"
  unfolding enforce_velocity_def by (intro keeps_intros keeps_query) auto

lemma keeps_repo [keeps_intros]:
  "keeps I (find_payee_by_phone p)" "keeps I (find_account_id_for_user u)" "keeps I (outbound_in_window a)"
  "keeps I (names_for_accounts a b)"
  unfolding find_payee_by_phone_def find_account_id_for_user_def outbound_in_window_def names_for_accounts_def
  by (rule keeps_select)+

lemma keeps_send_money_work:
  assumes "\<And>e. keeps I (enqueue_event e)"
    and "\<And>d xs. I d \<Longrightarrow> I (d\<lparr>audit_t := xs\<rparr>)"
    and post: "\<And>a b. keeps I (post_double_entry (send_command input a b i))"
  shows "keeps I (send_money_work u input ctx i)"
  unfolding send_money_work_def Let_def
  by (intro keeps_intros post keeps_insert_audit_log assms)

lemma keys_frame:
  "idem_t d = K \<and> n \<le> next_uuid d \<Longrightarrow> idem_t d' = idem_t d \<Longrightarrow> next_uuid d \<le> next_uuid d' \<Longrightarrow>
   idem_t d' = K \<and> n \<le> next_uuid d'"
  by simp

interpretation send: idempotent_endpoint "send_money_tx u key input raw ctx" u key SEND_ENDPOINT
    "\<lambda>env. hash_request env SEND_ENDPOINT raw" "send_money_work u input ctx" for u key input raw ctx
proof
  show "send_money_tx u key input raw ctx = tx_bind tx_env (\<lambda>env.
         tx_bind (claim_idempotency_key u key SEND_ENDPOINT (hash_request env SEND_ENDPOINT raw)) (\<lambda>claim.
         case claim of
           Mismatch \<Rightarrow> tx_throw idempotency_key_reuse
         | Replay st b \<Rightarrow> tx_return \<lparr>out_status = st, out_body = b, out_replayed = True\<rparr>
         | Claimed i \<Rightarrow>
             tx_bind (send_money_work u input ctx i) (\<lambda>(st, b).
             tx_bind (complete_idempotency_key i st b) (\<lambda>_.
             tx_return \<lparr>out_status = st, out_body = b, out_replayed = False\<rparr>))))"
    by (simp only: send_money_tx_def)
  show "keeps (\<lambda>d. idem_t d = K \<and> n \<le> next_uuid d) (send_money_work u input ctx i)" for K n i
    by (rule keeps_send_money_work) (auto intro!: keeps_post keeps_enqueue_event)
qed

text \<open>The conditions under which the work returns, and the database it leaves.\<close>

lemma enforce_velocity_Inr:
  assumes "enforce_velocity a env s = (Inr u, s')"
  shows "int (length (filter (counted_transfer env a) (transfers_t (data s)))) < maxTransfers (policy env)"
    and "data s' = data s" and "locks s' = locks s" and "\<not> aborted s'"
  using assms by (auto simp: enforce_velocity_def run_simps Let_def split: if_splits prod.splits)

lemma first_row_SomeD: "first_row xs = Some x \<Longrightarrow> x \<in> set xs"
  by (cases xs) (auto simp: first_row_def)

lemma payee_row_known:
  assumes "first_row (payee_rows p d) = Some r"
  shows "\<exists>u a. u \<in> set (users_t d) \<and> u_phone u = p \<and> a \<in> set (accounts_t d) \<and> a_user_id a = Some (u_id u) \<and>
     pa_user_id r = u_id u \<and> pa_account_id r = a_id a \<and> pa_user_status r = u_status u \<and>
     pa_name r = u_name u \<and> pa_phone r = p \<and> pa_account_status r = a_status a"
  using first_row_SomeD [OF assms] by (force simp: payee_rows_def)

lemma send_money_work_Inr:
  assumes run: "send_money_work u input ctx i env s = (Inr (st, b), s')"
  obtains sa payee s1 posted s2 where
    "find_account_by_user_id u (data s) = Some sa"
    "int (length (filter (counted_transfer env (a_id sa)) (transfers_t (data s)))) < maxTransfers (policy env)"
    "first_row (payee_rows (ti_to_phone input) (data s)) = Some payee"
    "pa_user_status payee = U_ACTIVE" "pa_user_id payee \<noteq> u"
    "spent_since (now env - 24 * 3600 * 1000000) (a_id sa) (data s) + ti_amount input
       \<le> DAILY_TRANSFER_LIMIT_MINOR (cfg env)"
    "post_double_entry (send_command input (a_id sa) (pa_account_id payee) i) env s1 = (Inr posted, s2)"
    "data s1 = data s" "locks s1 = locks s"
    "accounts_t (data s') = accounts_t (data s2)" "transfers_t (data s') = transfers_t (data s2)"
    "entries_t (data s') = entries_t (data s2)" "idem_t (data s') = idem_t (data s2)"
    "users_t (data s') = users_t (data s2)" "locks s' = locks s2"
    "st = 201" "b = receipt_body (is_anomalous env (p_amount posted)) posted payee"
    "x_event_type (last (outbox_t (data s'))) = (if is_anomalous env (p_amount posted) then ''SECURITY_ALERT'' else ''MONEY_RECEIVED'')"
    "outbox_t (data s') \<noteq> []"
proof -
  from run obtain acc s11 said s12 y s13 pay s14 payee s15 z s16 w s17 spent s18 v s1 posted s2 ev x s4 y' s5 ac ty en md rq z' s6 rid v' where
    f: "find_account_id_for_user u env s = (Inr acc, s11)" "the_or (not_found ''Account'') acc env s11 = (Inr said, s12)" and
    vel: "enforce_velocity said env s12 = (Inr y, s13)" and
    p: "find_payee_by_phone (ti_to_phone input) env s13 = (Inr pay, s14)"
       "the_or (not_found ''Recipient'') pay env s14 = (Inr payee, s15)"
       "throw_if (pa_user_status payee \<noteq> U_ACTIVE) (not_found ''Recipient'') env s15 = (Inr z, s16)"
       "throw_if (pa_user_id payee = u) self_transfer env s16 = (Inr w, s17)" and
    o: "outbound_in_window said env s17 = (Inr spent, s18)"
       "throw_if (DAILY_TRANSFER_LIMIT_MINOR (cfg env) < spent + ti_amount input)
          (daily_limit_error (DAILY_TRANSFER_LIMIT_MINOR (cfg env)) spent (ti_amount input)) env s18 = (Inr v, s1)" and
    post: "post_double_entry (send_command input said (pa_account_id payee) i) env s1 = (Inr posted, s2)" and
    e4: "enqueue_event ev env s2 = (Inr x, s4)" and ev: "ev_type ev = ''MONEY_RECEIVED''" and
    s5: "track_write [Some u, Some (pa_user_id payee)] env s4 = (Inr y', s5)" and
    e6: "insert_audit_log ac ty en md rq rid env s5 = (Inr z', s6)" and
    fl: "(if is_anomalous env (p_amount posted)
       then tx_bind (enqueue_event
           \<lparr>ev_type = ''SECURITY_ALERT'', ev_aggregate_type = ''transfer'', ev_aggregate_id = p_id posted,
            ev_payload = JObj [(''userId'', JStr (uuid_text u)),
              (''reference'', JStr (p_reference posted)), (''amountMinor'', JStr (int_text (p_amount posted)))]\<rparr>)
           (\<lambda>_. after_commit [SendSecurityAlert u (p_reference posted) (p_amount posted)])
       else tx_return ()) env s6 = (Inr v', s')" and
    r: "(st, b) = (201, receipt_body (is_anomalous env (p_amount posted)) posted payee)"
    unfolding send_money_work_def Let_def tx_bind_Inr_iff env_Inr_iff return_Inr_iff
    by (elim exE conjE, hypsubst) (rule that, (assumption | rule refl | simp)+)
  have d4: "accounts_t (data s4) = accounts_t (data s2)" "transfers_t (data s4) = transfers_t (data s2)"
    "entries_t (data s4) = entries_t (data s2)" "idem_t (data s4) = idem_t (data s2)"
    "users_t (data s4) = users_t (data s2)" "locks s4 = locks s2" "outbox_t (data s4) \<noteq> []"
    "x_event_type (last (outbox_t (data s4))) = ''MONEY_RECEIVED''" "\<not> aborted s4"
    using e4 ev by (auto simp: enqueue_event_Inr_iff event_row_def)
  note d5 = track_write_Inr [OF s5 d4(9)]
  have d6: "accounts_t (data s6) = accounts_t (data s5)" "transfers_t (data s6) = transfers_t (data s5)"
    "entries_t (data s6) = entries_t (data s5)" "idem_t (data s6) = idem_t (data s5)"
    "users_t (data s6) = users_t (data s5)" "locks s6 = locks s5" "outbox_t (data s6) = outbox_t (data s5)"
    using e6 by (auto simp: insert_audit_log_Inr_iff)
  have d7: "accounts_t (data s') = accounts_t (data s6)" "transfers_t (data s') = transfers_t (data s6)"
    "entries_t (data s') = entries_t (data s6)" "idem_t (data s') = idem_t (data s6)"
    "users_t (data s') = users_t (data s6)" "locks s' = locks s6"
    "if is_anomalous env (p_amount posted) then x_event_type (last (outbox_t (data s'))) = ''SECURITY_ALERT'' \<and> outbox_t (data s') \<noteq> []
     else outbox_t (data s') = outbox_t (data s6)"
    using fl by (auto simp: run_simps event_row_def split: if_splits)
  note v = enforce_velocity_Inr [OF vel]
  obtain sa where sa: "find_account_by_user_id u (data s) = Some sa" "said = a_id sa" and s12: "data s12 = data s" "locks s12 = locks s"
    using f by (auto simp: find_account_id_for_user_def run_simps)
  have p': "first_row (payee_rows (ti_to_phone input) (data s)) = Some payee" "pa_user_status payee = U_ACTIVE"
    "pa_user_id payee \<noteq> u" "data s17 = data s" "locks s17 = locks s"
    using p v s12 by (auto simp: find_payee_by_phone_def run_simps)
  have o': "spent_since (now env - 24 * 3600 * 1000000) (a_id sa) (data s) + ti_amount input
       \<le> DAILY_TRANSFER_LIMIT_MINOR (cfg env)" "data s1 = data s" "locks s1 = locks s"
    using o p' sa(2) by (auto simp: outbound_in_window_def run_simps)
  show thesis
    by (rule that [OF sa(1) v(1) [unfolded s12 sa(2)] p'(1-3) o'(1) post [unfolded sa(2)] o'(2,3)])
      (use d4 d5 d6 d7 r in \<open>auto split: if_splits\<close>)
qed

lemma keeps_ledger_send_work: "keeps ledger_ok (send_money_work u input ctx i)"
  by (rule keeps_send_money_work)
    (auto intro: keeps_ledger_post intro!: keeps_enqueue_event elim!: ledger_frame simp: same_books_def)

lemma keeps_ledger_claim: "keeps ledger_ok (claim_idempotency_key u key ep h)"
  by (rule keeps_claim) (auto elim!: ledger_frame simp: same_books_def)

lemma keeps_ledger_complete: "keeps ledger_ok (complete_idempotency_key i st b)"
  by (rule keeps_complete) (auto elim!: ledger_frame simp: same_books_def)

lemma keeps_claim_cases:
  "keeps I m \<Longrightarrow> (\<And>i. keeps I (f i)) \<Longrightarrow> (\<And>st b. keeps I (g st b)) \<Longrightarrow>
   keeps I (case c of Claimed i \<Rightarrow> f i | Replay st b \<Rightarrow> g st b | Mismatch \<Rightarrow> m)"
  by (cases c) auto

lemma keeps_ledger_send: "keeps ledger_ok (send_money_tx u key input raw ctx)"
  unfolding send_money_tx_def
  by (intro keeps_intros keeps_claim_cases keeps_ledger_claim keeps_ledger_complete keeps_ledger_send_work)

section \<open>Balances\<close>

definition balance_of :: "uuid \<Rightarrow> db \<Rightarrow> int option" where
  "balance_of i d = map_option a_balance_minor (account_by_id i d)"

lemma account_by_id_movement:
  assumes "pc_from c \<noteq> pc_to c"
  shows "account_by_id i (movement_applied n c t a b d) =
     map_option (if i = pc_from c then bump (- pc_amount c) else if i = pc_to c then bump (pc_amount c) else id)
       (account_by_id i d)"
proof -
  have "select_first (\<lambda>q. a_id q = i) (upd_where (\<lambda>q. a_id q = j) (bump x) A) =
      map_option (if i = j then bump x else id) (select_first (\<lambda>q. a_id q = i) A)" for j x A
    by (induction A) auto
  then show ?thesis
    using assms
    by (simp add: account_by_id_def movement_applied_def option.map_comp comp_def)
qed

lemma balance_of_movement:
  assumes "pc_from c \<noteq> pc_to c"
  shows "balance_of i (movement_applied n c t a b d) =
     map_option (\<lambda>x. x + (if i = pc_from c then - pc_amount c else if i = pc_to c then pc_amount c else 0))
       (balance_of i d)"
  by (simp add: balance_of_def account_by_id_movement [OF assms] option.map_comp comp_def)

lemma account_by_id_eq: "accounts_t d = accounts_t d' \<Longrightarrow> account_by_id i d = account_by_id i d'"
  by (simp add: account_by_id_def)

lemma balance_of_eq: "accounts_t d = accounts_t d' \<Longrightarrow> balance_of i d = balance_of i d'"
  by (simp add: balance_of_def account_by_id_def)

end
