(* ===== verification/Reversal.thy ===== *)
theory Reversal
  imports Transfers
begin

text \<open>
  \<open>modules/transfers/reversal.service.ts\<close>: undoing a transfer inside its time window by a
  compensating movement.
\<close>

section \<open>The operation\<close>

record original_transfer =
  or_id :: uuid
  or_created_at_raw :: pg_timestamp
  or_created_at :: millis
  or_reference :: string
  or_from :: uuid
  or_to :: uuid
  or_amount :: int
  or_status :: transfer_status
  or_type :: transfer_type
  or_sender :: "uuid option"
  or_recipient :: "uuid option"

text \<open>The query of \<open>loadOriginal\<close>: the joins drop a transfer whose accounts are missing.\<close>

definition original_matches :: "string \<Rightarrow> (millis \<times> millis) option \<Rightarrow> transfer_row \<Rightarrow> bool" where
  "original_matches reference window t \<longleftrightarrow>
     t_reference t = reference \<and>
     (case window of None \<Rightarrow> True
      | Some (lo, hi) \<Rightarrow> micros_of_date lo \<le> t_created_at t \<and> t_created_at t < micros_of_date hi)"

definition joined_accounts :: "db \<Rightarrow> transfer_row \<Rightarrow> bool" where
  "joined_accounts d t \<longleftrightarrow>
     account_by_id (t_from_account_id t) d \<noteq> None \<and> account_by_id (t_to_account_id t) d \<noteq> None"

definition account_user :: "uuid \<Rightarrow> db \<Rightarrow> uuid option" where
  "account_user i d = (case account_by_id i d of None \<Rightarrow> None | Some a \<Rightarrow> a_user_id a)"

definition load_original :: "string \<Rightarrow> original_transfer option tx" where
  "load_original reference =
     tx_bind (select (\<lambda>_ d.
       map_option (\<lambda>t. (t, account_user (t_from_account_id t) d, account_user (t_to_account_id t) d))
         (select_first (\<lambda>t. original_matches reference (reference_date_range reference) t \<and> joined_accounts d t)
            (transfers_t d)))) (\<lambda>row.
     case row of
       None \<Rightarrow> tx_return None
     | Some (t, sender, recipient) \<Rightarrow>
         tx_bind (from_sum (as_pg_timestamp (pg_text (t_created_at t)))) (\<lambda>raw.
         tx_bind (from_sum (to_date raw)) (\<lambda>created.
         tx_return (Some
           \<lparr>or_id = t_id t, or_created_at_raw = raw, or_created_at = created, or_reference = t_reference t,
            or_from = t_from_account_id t, or_to = t_to_account_id t, or_amount = t_amount_minor t,
            or_status = t_status t, or_type = t_type t, or_sender = sender, or_recipient = recipient\<rparr>))))"

definition REVERSE_ENDPOINT :: string where
  "REVERSE_ENDPOINT = ''POST /api/v1/transfers/:reference/reverse''"

text \<open>\<open>Math.round(ms / 1000)\<close>, and the literal of the seconds.\<close>

definition rounded_seconds :: "int \<Rightarrow> int" where
  "rounded_seconds ms = (ms + 500) div 1000"

text \<open>
  \<open>UPDATE transfers SET status = 'REVERSED' WHERE id AND created_at = $2::timestamptz AND status =
  'COMPLETED'\<close>, with its row count; a text that is no timestamp is an error of the cast.
\<close>

definition mark_reversed :: "uuid \<Rightarrow> pg_timestamp \<Rightarrow> nat tx" where
  "mark_reversed i raw = query (\<lambda>_ d.
     case pg_parse raw of
       None \<Rightarrow> Inl (PgError ''22007'' None)
     | Some t \<Rightarrow>
         (let P = (\<lambda>q. t_id q = i \<and> t_created_at q = t \<and> t_status q = T_COMPLETED) in
          Inr (count_where P (transfers_t d),
               d\<lparr>transfers_t := upd_where P (\<lambda>q. q\<lparr>t_status := T_REVERSED\<rparr>) (transfers_t d)\<rparr>)))"

definition reversal_command :: "original_transfer \<Rightarrow> uuid \<Rightarrow> post_command" where
  "reversal_command original claimId =
     \<lparr>pc_from = or_to original, pc_to = or_from original, pc_amount = or_amount original,
      pc_type = REVERSAL, pc_note = Some (''Reversal of '' @ or_reference original),
      pc_idem = Some claimId, pc_reversal_of = Some (or_id original)\<rparr>"

definition reversal_body :: "original_transfer \<Rightarrow> posted_transfer \<Rightarrow> json" where
  "reversal_body original compensating = JObj [
     (''reversal'', JObj [(''reference'', JStr (p_reference compensating)),
        (''reversalOf'', JStr (or_reference original)), (''amount'', money (or_amount original)),
        (''createdAt'', JStr (iso_string (p_created_at compensating)))]),
     (''balance'', money (p_receiver_after compensating))]"

definition reverse_work :: "uuid \<Rightarrow> string \<Rightarrow> request_context \<Rightarrow> uuid \<Rightarrow> (int \<times> json) tx" where
  "reverse_work actorUserId reference ctx claimId =
     tx_bind (load_original reference) (\<lambda>found.
     tx_bind (the_or (not_found ''Transfer'') found) (\<lambda>original.
     tx_bind (throw_if (or_sender original \<noteq> Some actorUserId) (not_found ''Transfer'')) (\<lambda>_.
     tx_bind (throw_if (or_type original = MINT \<or> or_type original = REVERSAL)
       (invalid_state ''This kind of transfer cannot be reversed''
         [(''type'', JStr (type_text (or_type original)))])) (\<lambda>_.
     tx_bind (throw_if (or_status original \<noteq> T_COMPLETED)
       (invalid_state ''This transfer has already been reversed''
         [(''status'', JStr (transfer_status_text (or_status original)))])) (\<lambda>_.
     tx_bind tx_env (\<lambda>env.
     (let ageMs = date_now env - or_created_at original in
     tx_bind (throw_if (REVERSAL_WINDOW_SECONDS (cfg env) * 1000 < ageMs)
       (invalid_state (''A transfer can only be reversed within '' @
           int_text (REVERSAL_WINDOW_SECONDS (cfg env)) @ '' seconds'')
         [(''ageSeconds'', jint (rounded_seconds ageMs))])) (\<lambda>_.
     tx_bind (mark_reversed (or_id original) (or_created_at_raw original)) (\<lambda>rowCount.
     tx_bind (throw_if (rowCount \<noteq> 1) (invalid_state ''This transfer has already been reversed'' [])) (\<lambda>_.
     tx_bind (post_double_entry (reversal_command original claimId)) (\<lambda>compensating.
     tx_bind (track_write [Some actorUserId, or_recipient original]) (\<lambda>_.
     tx_bind (enqueue_event
       \<lparr>ev_type = ''TRANSFER_REVERSED'', ev_aggregate_type = ''transfer'', ev_aggregate_id = or_id original,
        ev_payload = JObj [(''originalReference'', JStr (or_reference original)),
          (''reversalReference'', JStr (p_reference compensating)),
          (''senderUserId'', JStr (uuid_text actorUserId)),
          (''recipientUserId'', jopt (map_option uuid_text (or_recipient original))),
          (''amountMinor'', JStr (int_text (or_amount original)))]\<rparr>) (\<lambda>_.
     tx_bind (insert_audit_log (Some actorUserId) ''TRANSFER_REVERSED'' ''transfer''
       (Some (uuid_text (or_id original)))
       (JObj [(''originalReference'', JStr (or_reference original)),
              (''reversalReference'', JStr (p_reference compensating)),
              (''ageSeconds'', jint (rounded_seconds ageMs))]) ctx) (\<lambda>_.
     tx_return (201, reversal_body original compensating)))))))))))))))"

definition reverse_tx :: "uuid \<Rightarrow> string \<Rightarrow> string \<Rightarrow> json \<Rightarrow> request_context \<Rightarrow> outcome tx" where
  "reverse_tx actorUserId reference idempotencyKey rawBody ctx =
     (let endpoint = REVERSE_ENDPOINT @ '':'' @ reference in
     tx_bind tx_env (\<lambda>env.
     tx_bind (claim_idempotency_key actorUserId idempotencyKey endpoint
       (hash_request env endpoint rawBody)) (\<lambda>claim.
     case claim of
       Mismatch \<Rightarrow> tx_throw idempotency_key_reuse
     | Replay st b \<Rightarrow> tx_return \<lparr>out_status = st, out_body = b, out_replayed = True\<rparr>
     | Claimed i \<Rightarrow>
         tx_bind (reverse_work actorUserId reference ctx i) (\<lambda>(st, b).
         tx_bind (complete_idempotency_key i st b) (\<lambda>_.
         tx_return \<lparr>out_status = st, out_body = b, out_replayed = False\<rparr>)))))"

definition reverse_transfer ::
  "uuid \<Rightarrow> string \<Rightarrow> string \<Rightarrow> string \<Rightarrow> json \<Rightarrow> request_context \<Rightarrow> env \<Rightarrow> (nat \<Rightarrow> env) \<Rightarrow> (nat \<Rightarrow> env) \<Rightarrow> db \<Rightarrow>
   (exn + outcome \<times> hook list) \<times> db" where
  "reverse_transfer actorUserId reference idempotencyKey pin rawBody ctx env penvs envs d =
     (case verify_pin actorUserId pin env penvs d of
        (Inl e, d') \<Rightarrow> (Inl e, d')
      | (Inr _, d') \<Rightarrow> transact (reverse_tx actorUserId reference idempotencyKey rawBody ctx) envs d')"

section \<open>What a reversal does\<close>

lemma keeps_load_original [keeps_intros]: "keeps I (load_original r)"
  unfolding load_original_def by (intro keeps_intros)

definition reversed :: "transfer_row \<Rightarrow> transfer_row" where
  "reversed q = q\<lparr>t_status := T_REVERSED\<rparr>"

lemma reversed_simps [simp]:
  "t_id (reversed q) = t_id q" "t_from_account_id (reversed q) = t_from_account_id q"
  "t_to_account_id (reversed q) = t_to_account_id q" "t_amount_minor (reversed q) = t_amount_minor q"
  "t_created_at (reversed q) = t_created_at q" "t_type (reversed q) = t_type q"
  "t_reference (reversed q) = t_reference q" "t_status (reversed q) = T_REVERSED"
  by (simp_all add: reversed_def)

lemma entries_of_reversed [simp]: "entries_of (reversed t) x y n = entries_of t x y n"
  by (simp add: entries_of_def)

text \<open>Marking rows as reversed keeps the books: the invariant does not read the status.\<close>

lemma ledger_ok_reversed:
  assumes "ledger_ok d"
  shows "ledger_ok (d\<lparr>transfers_t := upd_where P reversed (transfers_t d)\<rparr>)" (is "ledger_ok ?d")
proof -
  have A: "accounts_ok d" "transfers_ok d" "entries_ok d" using assms by (simp_all add: ledger_ok_def)
  have e: "entry_sum i ?d = entry_sum i d" "account_ids ?d = account_ids d"
    "complete_entry t ?d = complete_entry t d" for i t
    by (simp_all add: entry_sum_def account_ids_def complete_entry_def)
  have c: "complete_entry (reversed t) d = complete_entry t d" for t by (simp add: complete_entry_def)
  have T: "transfers_t ?d = upd_where P reversed (transfers_t d)" by simp
  have "accounts_ok ?d" using A(1) unfolding accounts_ok_def e by auto
  moreover have "transfers_ok ?d"
    using A(2) unfolding transfers_ok_def e T
    by (auto simp: keyed_upd_where set_upd_where c)
  moreover have "entries_ok ?d"
    unfolding entries_ok_def T
  proof
    fix x assume "x \<in> set (entries_t ?d)"
    then obtain t where t: "t \<in> set (transfers_t d)" "t_id t = e_transfer_id x" "t_created_at t = e_created_at x"
      using A(3) by (auto simp: entries_ok_def)
    then have "(if P t then reversed t else t) \<in> set (upd_where P reversed (transfers_t d))"
      by (auto simp: upd_where_def)
    moreover have "t_id (if P t then reversed t else t) = e_transfer_id x"
      "t_created_at (if P t then reversed t else t) = e_created_at x" using t by auto
    ultimately show "\<exists>t\<in>set (upd_where P reversed (transfers_t d)).
        t_id t = e_transfer_id x \<and> t_created_at t = e_created_at x" by blast
  qed
  ultimately show ?thesis by (simp add: ledger_ok_def)
qed

lemma keeps_mark_reversed:
  "(\<And>d P. I d \<Longrightarrow> I (d\<lparr>transfers_t := upd_where P reversed (transfers_t d)\<rparr>)) \<Longrightarrow>
   keeps I (mark_reversed i raw)"
  unfolding mark_reversed_def reversed_def [symmetric, abs_def]
  by (rule keeps_query) (auto simp: Let_def split: option.splits)

lemma keeps_reverse_work:
  assumes "\<And>e. keeps I (enqueue_event e)"
    and "\<And>d xs. I d \<Longrightarrow> I (d\<lparr>audit_t := xs\<rparr>)"
    and "\<And>d P. I d \<Longrightarrow> I (d\<lparr>transfers_t := upd_where P reversed (transfers_t d)\<rparr>)"
    and "\<And>c. keeps I (post_double_entry c)"
  shows "keeps I (reverse_work u r ctx i)"
  unfolding reverse_work_def Let_def
  by (intro keeps_intros keeps_insert_audit_log keeps_mark_reversed assms)

lemma keeps_ledger_reverse: "keeps ledger_ok (reverse_tx u r key raw ctx)"
proof -
  have "keeps ledger_ok (reverse_work u r ctx i)" for i
    by (rule keeps_reverse_work) (rule keeps_enqueue_event, erule ledger_frame, simp add: same_books_def,
        erule ledger_frame, simp add: same_books_def, erule ledger_ok_reversed, rule keeps_ledger_post)
  then show ?thesis
    unfolding reverse_tx_def Let_def
    by (intro keeps_intros keeps_claim_cases keeps_ledger_claim keeps_ledger_complete)
qed

interpretation reverse: idempotent_endpoint "reverse_tx u r key raw ctx" u key
    "REVERSE_ENDPOINT @ '':'' @ r" "\<lambda>env. hash_request env (REVERSE_ENDPOINT @ '':'' @ r) raw"
    "reverse_work u r ctx" for u r key raw ctx
proof
  show "reverse_tx u r key raw ctx = tx_bind tx_env (\<lambda>env.
         tx_bind (claim_idempotency_key u key (REVERSE_ENDPOINT @ '':'' @ r)
           (hash_request env (REVERSE_ENDPOINT @ '':'' @ r) raw)) (\<lambda>claim.
         case claim of
           Mismatch \<Rightarrow> tx_throw idempotency_key_reuse
         | Replay st b \<Rightarrow> tx_return \<lparr>out_status = st, out_body = b, out_replayed = True\<rparr>
         | Claimed i \<Rightarrow>
             tx_bind (reverse_work u r ctx i) (\<lambda>(st, b).
             tx_bind (complete_idempotency_key i st b) (\<lambda>_.
             tx_return \<lparr>out_status = st, out_body = b, out_replayed = False\<rparr>))))"
    by (simp only: reverse_tx_def Let_def)
  show "keeps (\<lambda>d. idem_t d = K \<and> n \<le> next_uuid d) (reverse_work u r ctx i)" for K n i
    by (rule keeps_reverse_work) (auto intro!: keeps_post keeps_enqueue_event)
qed

text \<open>The row a reference finds, and the conditions and effect of reversing it.\<close>

definition referenced :: "string \<Rightarrow> db \<Rightarrow> transfer_row option" where
  "referenced reference d =
     select_first (\<lambda>t. original_matches reference (reference_date_range reference) t \<and> joined_accounts d t)
       (transfers_t d)"

lemma load_original_Inr:
  assumes "load_original r env s = (Inr (Some o'), s')"
  obtains t where "referenced r (data s) = Some t" "or_id o' = t_id t" "or_from o' = t_from_account_id t"
    "or_to o' = t_to_account_id t" "or_amount o' = t_amount_minor t" "or_status o' = t_status t"
    "or_type o' = t_type t" "or_reference o' = t_reference t"
    "or_sender o' = account_user (t_from_account_id t) (data s)"
    "or_created_at_raw o' = pg_text (t_created_at t)" "to_date (pg_text (t_created_at t)) = Inr (or_created_at o')"
    "data s' = data s" "locks s' = locks s" "\<not> aborted s'"
proof -
  from assms obtain t sender recipient raw created where
    t: "referenced r (data s) = Some t" "as_pg_timestamp (pg_text (t_created_at t)) = Inr raw"
      "to_date raw = Inr created" "sender = account_user (t_from_account_id t) (data s)"
      "o' = \<lparr>or_id = t_id t, or_created_at_raw = raw, or_created_at = created, or_reference = t_reference t,
            or_from = t_from_account_id t, or_to = t_to_account_id t, or_amount = t_amount_minor t,
            or_status = t_status t, or_type = t_type t, or_sender = sender, or_recipient = recipient\<rparr>"
      "s' = s\<lparr>stmts := Suc (stmts s)\<rparr>" "\<not> aborted s"
    by (auto simp: load_original_def run_simps referenced_def split: option.splits)
  have "raw = pg_text (t_created_at t)" using t(2) by (auto simp: as_pg_timestamp_def split: if_splits)
  with t show thesis by (intro that [of t]) simp_all
qed

lemma mark_reversed_Inr:
  assumes "mark_reversed i raw env s = (Inr n, s')"
  obtains t where "pg_parse raw = Some t"
    "n = count_where (\<lambda>q. t_id q = i \<and> t_created_at q = t \<and> t_status q = T_COMPLETED) (transfers_t (data s))"
    "data s' = (data s)\<lparr>transfers_t := upd_where (\<lambda>q. t_id q = i \<and> t_created_at q = t \<and> t_status q = T_COMPLETED)
        reversed (transfers_t (data s))\<rparr>" "locks s' = locks s" "\<not> aborted s'"
  using assms
  by (auto simp: mark_reversed_def run_simps Let_def reversed_def [abs_def] split: option.splits)

lemma reverse_work_Inr:
  assumes run: "reverse_work u r ctx i env s = (Inr (st, b), s')"
  obtains t orig comp s1 s2 created where
    "referenced r (data s) = Some t" "account_user (t_from_account_id t) (data s) = Some u"
    "t_type t \<noteq> MINT" "t_type t \<noteq> REVERSAL" "t_status t = T_COMPLETED"
    "to_date (pg_text (t_created_at t)) = Inr created"
    "date_now env - created \<le> REVERSAL_WINDOW_SECONDS (cfg env) * 1000"
    "or_id orig = t_id t" "or_from orig = t_from_account_id t" "or_to orig = t_to_account_id t"
    "or_amount orig = t_amount_minor t" "or_reference orig = t_reference t"
    "data s1 = (data s)\<lparr>transfers_t := upd_where (\<lambda>q. t_id q = t_id t \<and>
         Some (t_created_at q) = pg_parse (pg_text (t_created_at t)) \<and> t_status q = T_COMPLETED)
         reversed (transfers_t (data s))\<rparr>"
    "count_where (\<lambda>q. t_id q = t_id t \<and> Some (t_created_at q) = pg_parse (pg_text (t_created_at t)) \<and>
         t_status q = T_COMPLETED) (transfers_t (data s)) = 1"
    "post_double_entry (reversal_command orig i) env s1 = (Inr comp, s2)" "locks s1 = locks s"
    "accounts_t (data s') = accounts_t (data s2)" "transfers_t (data s') = transfers_t (data s2)"
    "entries_t (data s') = entries_t (data s2)" "idem_t (data s') = idem_t (data s2)" "locks s' = locks s2"
    "st = 201" "b = reversal_body orig comp"
proof -
  from run obtain found s11 orig s12 x1 s13 x2 s14 x3 s15 x4 s16 n s17 x5 s1 comp s2 x6 s3 ev x7 s4 ac ty en md rq rid x8 where
    l: "load_original r env s = (Inr found, s11)" "the_or (not_found ''Transfer'') found env s11 = (Inr orig, s12)" and
    g: "throw_if (or_sender orig \<noteq> Some u) (not_found ''Transfer'') env s12 = (Inr x1, s13)"
      "throw_if (or_type orig = MINT \<or> or_type orig = REVERSAL)
         (invalid_state ''This kind of transfer cannot be reversed''
           [(''type'', JStr (type_text (or_type orig)))]) env s13 = (Inr x2, s14)"
      "throw_if (or_status orig \<noteq> T_COMPLETED)
         (invalid_state ''This transfer has already been reversed''
           [(''status'', JStr (transfer_status_text (or_status orig)))]) env s14 = (Inr x3, s15)"
      "throw_if (REVERSAL_WINDOW_SECONDS (cfg env) * 1000 < date_now env - or_created_at orig)
       (invalid_state (''A transfer can only be reversed within '' @
           int_text (REVERSAL_WINDOW_SECONDS (cfg env)) @ '' seconds'')
         [(''ageSeconds'', jint (rounded_seconds (date_now env - or_created_at orig)))]) env s15 = (Inr x4, s16)" and
    m: "mark_reversed (or_id orig) (or_created_at_raw orig) env s16 = (Inr n, s17)"
      "throw_if (n \<noteq> 1) (invalid_state ''This transfer has already been reversed'' []) env s17 = (Inr x5, s1)" and
    post: "post_double_entry (reversal_command orig i) env s1 = (Inr comp, s2)" and
    t3: "track_write [Some u, or_recipient orig] env s2 = (Inr x6, s3)" and
    e4: "enqueue_event ev env s3 = (Inr x7, s4)" and
    e5: "insert_audit_log ac ty en md rq rid env s4 = (Inr x8, s')" and
    r: "(st, b) = (201, reversal_body orig comp)"
    unfolding reverse_work_def Let_def tx_bind_Inr_iff env_Inr_iff return_Inr_iff
    by (elim exE conjE, hypsubst) (rule that, (assumption | rule refl)+)
  have f: "found = Some orig" "s12 = s11" using l(2) by (auto simp: run_simps)
  from l(1) [unfolded f] obtain t where t: "referenced r (data s) = Some t" "or_id orig = t_id t"
    "or_from orig = t_from_account_id t" "or_to orig = t_to_account_id t" "or_amount orig = t_amount_minor t"
    "or_status orig = t_status t" "or_type orig = t_type t" "or_reference orig = t_reference t"
    "or_sender orig = account_user (t_from_account_id t) (data s)"
    "or_created_at_raw orig = pg_text (t_created_at t)"
    "to_date (pg_text (t_created_at t)) = Inr (or_created_at orig)"
    "data s11 = data s" "locks s11 = locks s" "\<not> aborted s11"
    by (rule load_original_Inr)
  have s16: "s16 = s11" and c: "or_sender orig = Some u" "or_type orig \<noteq> MINT" "or_type orig \<noteq> REVERSAL"
    "or_status orig = T_COMPLETED" "date_now env - or_created_at orig \<le> REVERSAL_WINDOW_SECONDS (cfg env) * 1000"
    using g f by (auto simp: run_simps)
  from m(1) [unfolded t(2,10) s16] obtain z where z: "pg_parse (pg_text (t_created_at t)) = Some z"
    "n = count_where (\<lambda>q. t_id q = t_id t \<and> t_created_at q = z \<and> t_status q = T_COMPLETED) (transfers_t (data s11))"
    "data s17 = (data s11)\<lparr>transfers_t := upd_where (\<lambda>q. t_id q = t_id t \<and> t_created_at q = z \<and> t_status q = T_COMPLETED)
        reversed (transfers_t (data s11))\<rparr>" "locks s17 = locks s11"
    by (rule mark_reversed_Inr)
  have s1: "s1 = s17" "n = 1" using m(2) by (auto simp: run_simps)
  from post have live: "\<not> aborted s2" by (rule post_double_entry_Inr)
  note d3 = track_write_Inr [OF t3 live]
  have d': "accounts_t (data s') = accounts_t (data s2)" "transfers_t (data s') = transfers_t (data s2)"
    "entries_t (data s') = entries_t (data s2)" "idem_t (data s') = idem_t (data s2)" "locks s' = locks s2"
    using e4 e5 d3 by (auto simp: enqueue_event_Inr_iff insert_audit_log_Inr_iff)
  show thesis
  proof (rule that [OF t(1) _ _ _ _ t(11) c(5) t(2-5,8) _ _ post _ d'])
    show "st = 201" "b = reversal_body orig comp" using r by simp_all
    show "locks s1 = locks s" using s1 z(4) t(13) by simp
  qed (use c t z s1 in simp_all)
qed

end
