(* ===== verification/Keyset.thy ===== *)
theory Keyset
  imports Cursor "HOL-Library.Product_Lexorder"
begin

text \<open>
  Keyset pagination as the listing queries do it: \<open>WHERE (created_at, id) < (cursor) ORDER BY
  created_at DESC, id DESC LIMIT n\<close>.
\<close>

type_synonym row_key = "micros \<times> nat"

definition descending :: "('r \<Rightarrow> row_key) \<Rightarrow> 'r list \<Rightarrow> 'r list" where
  "descending key rs = rev (sort_key key rs)"

definition below :: "('r \<Rightarrow> row_key) \<Rightarrow> row_key option \<Rightarrow> 'r \<Rightarrow> bool" where
  "below key cursor r = (case cursor of None \<Rightarrow> True | Some c \<Rightarrow> key r < c)"

definition keyset_query :: "('r \<Rightarrow> row_key) \<Rightarrow> row_key option \<Rightarrow> nat \<Rightarrow> 'r list \<Rightarrow> 'r list" where
  "keyset_query key cursor limit rs = take limit (descending key (filter (below key cursor) rs))"

lemma set_descending [simp]: "set (descending key rs) = set rs"
  by (simp add: descending_def)

lemma length_descending [simp]: "length (descending key rs) = length rs"
  by (simp add: descending_def)

lemma filter_descending: "filter P (descending key rs) = descending key (filter P rs)"
  by (simp add: descending_def filter_sort flip: rev_filter)

lemma descending_sorted: "sorted (rev (map key (descending key rs)))"
  by (simp add: descending_def rev_map)

text \<open>In a strictly descending list, the rows below an element are the ones after it.\<close>

lemma below_after:
  assumes "sorted (rev (map key (xs @ r # ys)))" and "distinct (map key (xs @ r # ys))"
  shows "filter (below key (Some (key r))) (xs @ r # ys) = ys"
proof -
  have "\<not> key x < key r" if "x \<in> set xs" for x
    using assms(1) that by (auto simp: sorted_append)
  then have "filter (below key (Some (key r))) xs = []"
    by (auto simp: filter_empty_conv below_def)
  moreover have "key y < key r" if "y \<in> set ys" for y
  proof -
    have "key y \<le> key r" using assms(1) that by (auto simp: sorted_append)
    moreover have "key y \<noteq> key r" using assms(2) that by (auto simp: image_iff)
    ultimately show ?thesis by simp
  qed
  then have "filter (below key (Some (key r))) ys = ys"
    by (intro filter_True) (auto simp: below_def)
  ultimately show ?thesis by (simp add: below_def)
qed

end
