(* ===== verification/Requests.thy ===== *)
theory Requests
  imports Reversal Keyset
begin

text \<open>
  \<open>modules/requests\<close>: money requests. Every transition is a guarded statement; accepting is the
  transition and the payment in one transaction.
\<close>

section \<open>Repository\<close>

definition request_refused :: "request_row \<Rightarrow> db \<Rightarrow> exn option" where
  "request_refused r d =
     (if r_amount_minor r \<le> 0 \<or> r_requester_user_id r = r_payer_user_id r \<or>
         (case r_note r of None \<Rightarrow> False | Some n \<Rightarrow> 140 < length n)
      then Some (PgError CHECK_VIOLATION None)
      else if \<not> int8_range (r_amount_minor r) then Some (PgError ''22003'' None)
      else if \<not> user_exists (r_requester_user_id r) d \<or> \<not> user_exists (r_payer_user_id r) d \<or>
              (case r_split_id r of None \<Rightarrow> False | Some b \<Rightarrow> \<not> list_ex (\<lambda>q. b_id q = b) (splits_t d))
      then Some (PgError FOREIGN_KEY_VIOLATION None)
      else None)"

definition new_request_row ::
  "uuid \<Rightarrow> uuid \<Rightarrow> uuid \<Rightarrow> int \<Rightarrow> string option \<Rightarrow> millis \<Rightarrow> uuid option \<Rightarrow> micros \<Rightarrow> request_row" where
  "new_request_row i requester payer amount note expiresAt splitId t =
     \<lparr>r_id = i, r_parent_request_id = None, r_requester_user_id = requester, r_payer_user_id = payer,
      r_amount_minor = amount, r_note = note, r_status = R_PENDING,
      r_expires_at = micros_of_date expiresAt, r_settled_transfer_id = None, r_decline_reason = None,
      r_version = 0, r_created_at = t, r_split_id = splitId\<rparr>"

definition insert_request ::
  "uuid \<Rightarrow> uuid \<Rightarrow> int \<Rightarrow> string option \<Rightarrow> millis \<Rightarrow> uuid option \<Rightarrow> request_row tx" where
  "insert_request requester payer amount note expiresAt splitId = query (\<lambda>env d.
     (let r = new_request_row (next_uuid d) requester payer amount note expiresAt splitId (now env) in
      case request_refused r d of
        Some e \<Rightarrow> Inl e
      | None \<Rightarrow> Inr (r, d\<lparr>requests_t := requests_t d @ [r], next_uuid := Suc (next_uuid d)\<rparr>)))"

definition request_by_id :: "uuid \<Rightarrow> db \<Rightarrow> request_row option" where
  "request_by_id i d = select_first (\<lambda>r. r_id r = i) (requests_t d)"

definition find_request :: "uuid \<Rightarrow> request_row option tx" where
  "find_request i = select (\<lambda>_ d. request_by_id i d)"

definition settleable :: "uuid \<Rightarrow> uuid \<Rightarrow> env \<Rightarrow> request_row \<Rightarrow> bool" where
  "settleable i payerUserId env r \<longleftrightarrow>
     r_id r = i \<and> r_payer_user_id r = payerUserId \<and> r_status r = R_PENDING \<and> now env < r_expires_at r"

definition lock_settleable_request :: "uuid \<Rightarrow> uuid \<Rightarrow> request_row option tx" where
  "lock_settleable_request i payerUserId =
     select (\<lambda>env d. select_first (settleable i payerUserId env) (requests_t d))"

definition accepted_row :: "uuid \<Rightarrow> request_row \<Rightarrow> request_row" where
  "accepted_row settled r =
     r\<lparr>r_status := R_ACCEPTED, r_settled_transfer_id := Some settled, r_version := r_version r + 1\<rparr>"

definition mark_accepted :: "uuid \<Rightarrow> uuid \<Rightarrow> bool tx" where
  "mark_accepted i settled = query (\<lambda>_ d.
     (let P = (\<lambda>r. r_id r = i \<and> r_status r = R_PENDING) in
      Inr (count_where P (requests_t d) = 1,
           d\<lparr>requests_t := upd_where P (accepted_row settled) (requests_t d)\<rparr>)))"

text \<open>Decline acts on the payer column, cancel on the requester column.\<close>

definition actor_of :: "request_status \<Rightarrow> request_row \<Rightarrow> uuid" where
  "actor_of to r = (if to = R_DECLINED then r_payer_user_id r else r_requester_user_id r)"

definition counterparty_of :: "request_status \<Rightarrow> request_row \<Rightarrow> uuid" where
  "counterparty_of to r = (if to = R_DECLINED then r_requester_user_id r else r_payer_user_id r)"

definition ended_row :: "request_status \<Rightarrow> string option \<Rightarrow> request_row \<Rightarrow> request_row" where
  "ended_row to reason r =
     r\<lparr>r_status := to,
       r_decline_reason := (case reason of None \<Rightarrow> r_decline_reason r | Some x \<Rightarrow> Some x),
       r_version := r_version r + 1\<rparr>"

definition transition :: "uuid \<Rightarrow> request_status \<Rightarrow> uuid \<Rightarrow> string option \<Rightarrow> request_row option tx" where
  "transition i to actorUserId reason = query (\<lambda>_ d.
     (let P = (\<lambda>r. r_id r = i \<and> actor_of to r = actorUserId \<and> r_status r = R_PENDING) in
      Inr (first_row (returning P (ended_row to reason) (requests_t d)),
           d\<lparr>requests_t := upd_where P (ended_row to reason) (requests_t d)\<rparr>)))"

definition expired_row :: "request_row \<Rightarrow> request_row" where
  "expired_row r = r\<lparr>r_status := R_EXPIRED, r_version := r_version r + 1\<rparr>"

definition due_requests :: "env \<Rightarrow> nat \<Rightarrow> db \<Rightarrow> uuid list" where
  "due_requests env limit d =
     map r_id (take limit (sort_key r_expires_at
       (filter (\<lambda>r. r_status r = R_PENDING \<and> r_expires_at r \<le> now env \<and> r_id r \<notin> set (held env))
         (requests_t d))))"

definition expire_due :: "nat \<Rightarrow> request_row list tx" where
  "expire_due limit = query (\<lambda>env d.
     (let P = (\<lambda>r. r_id r \<in> set (due_requests env limit d)) in
      Inr (returning P expired_row (requests_t d),
           d\<lparr>requests_t := upd_where P expired_row (requests_t d)\<rparr>)))"

section \<open>Creating\<close>

definition request_dto :: "request_row \<Rightarrow> uuid \<Rightarrow> string \<times> string \<Rightarrow> string option \<Rightarrow> json" where
  "request_dto r viewerUserId counterparty settledReference = JObj [
     (''id'', JStr (uuid_text (r_id r))), (''status'', JStr (request_status_text (r_status r))),
     (''amount'', money (r_amount_minor r)), (''note'', jopt (r_note r)),
     (''role'', JStr (if r_payer_user_id r = viewerUserId then ''incoming'' else ''outgoing'')),
     (''counterparty'', JObj [(''name'', JStr (fst counterparty)), (''phone'', JStr (snd counterparty))]),
     (''expiresAt'', JStr (iso_string (date_of_micros (r_expires_at r)))),
     (''createdAt'', JStr (iso_string (date_of_micros (r_created_at r)))),
     (''settledReference'', jopt settledReference), (''declineReason'', jopt (r_decline_reason r))]"

record create_request_input =
  cr_from_phone :: string
  cr_amount :: int
  cr_note :: "string option"
  cr_expires_in_days :: int

definition CREATE_REQUEST_ENDPOINT :: string where
  "CREATE_REQUEST_ENDPOINT = ''POST /api/v1/requests''"

definition create_request_work ::
  "uuid \<Rightarrow> create_request_input \<Rightarrow> request_context \<Rightarrow> uuid \<Rightarrow> (int \<times> json) tx" where
  "create_request_work requesterUserId input ctx claimId =
     tx_bind (find_payee_by_phone (cr_from_phone input)) (\<lambda>p.
     tx_bind (the_or (not_found ''User'') p) (\<lambda>payer.
     tx_bind (throw_if (pa_user_status payer \<noteq> U_ACTIVE) (not_found ''User'')) (\<lambda>_.
     tx_bind (throw_if (pa_user_id payer = requesterUserId)
       (validation ''You cannot request money from yourself'' [])) (\<lambda>_.
     tx_bind (select (\<lambda>_ d. find_user_by_id requesterUserId d)) (\<lambda>q.
     tx_bind (the_or (not_found ''User'') q) (\<lambda>requester.
     tx_bind tx_env (\<lambda>env.
     tx_bind (insert_request requesterUserId (pa_user_id payer) (cr_amount input) (cr_note input)
       (date_now env + cr_expires_in_days input * 24 * 60 * 60 * 1000) None) (\<lambda>created.
     tx_bind (enqueue_event
       \<lparr>ev_type = ''REQUEST_CREATED'', ev_aggregate_type = ''money_request'', ev_aggregate_id = r_id created,
        ev_payload = JObj [(''requestId'', JStr (uuid_text (r_id created))),
          (''requesterUserId'', JStr (uuid_text requesterUserId)), (''requesterName'', JStr (u_name requester)),
          (''payerUserId'', JStr (uuid_text (pa_user_id payer))),
          (''amountMinor'', JStr (int_text (r_amount_minor created))), (''note'', jopt (r_note created))]\<rparr>) (\<lambda>_.
     tx_bind (insert_audit_log (Some requesterUserId) ''REQUEST_CREATED'' ''money_request''
       (Some (uuid_text (r_id created)))
       (JObj [(''payerUserId'', JStr (uuid_text (pa_user_id payer))),
              (''amountMinor'', JStr (int_text (r_amount_minor created)))]) ctx) (\<lambda>_.
     tx_return (201, JObj [(''request'',
       request_dto created requesterUserId (pa_name payer, pa_phone payer) None)])))))))))))"

definition create_request_tx ::
  "uuid \<Rightarrow> string \<Rightarrow> create_request_input \<Rightarrow> json \<Rightarrow> request_context \<Rightarrow> outcome tx" where
  "create_request_tx requesterUserId idempotencyKey input rawBody ctx =
     tx_bind tx_env (\<lambda>env.
     tx_bind (claim_idempotency_key requesterUserId idempotencyKey CREATE_REQUEST_ENDPOINT
       (hash_request env CREATE_REQUEST_ENDPOINT rawBody)) (\<lambda>claim.
     case claim of
       Mismatch \<Rightarrow> tx_throw idempotency_key_reuse
     | Replay st b \<Rightarrow> tx_return \<lparr>out_status = st, out_body = b, out_replayed = True\<rparr>
     | Claimed i \<Rightarrow>
         tx_bind (create_request_work requesterUserId input ctx i) (\<lambda>(st, b).
         tx_bind (complete_idempotency_key i st b) (\<lambda>_.
         tx_return \<lparr>out_status = st, out_body = b, out_replayed = False\<rparr>))))"

definition create_request ::
  "uuid \<Rightarrow> string \<Rightarrow> create_request_input \<Rightarrow> json \<Rightarrow> request_context \<Rightarrow> env \<Rightarrow> (nat \<Rightarrow> env) \<Rightarrow> db \<Rightarrow>
   (exn + outcome \<times> hook list) \<times> db" where
  "create_request requesterUserId idempotencyKey input rawBody ctx env envs d =
     (let minT = MIN_TRANSFER_MINOR (cfg env); maxT = MAX_TRANSFER_MINOR (cfg env) in
      if cr_amount input < minT
      then (Inl (validation (''Minimum request is '' @ formatted minT @ '' BDT'') []), d)
      else if maxT < cr_amount input
      then (Inl (limit_exceeded (''Maximum request is '' @ formatted maxT @ '' BDT'') []), d)
      else transact (create_request_tx requesterUserId idempotencyKey input rawBody ctx) envs d)"

section \<open>Accepting\<close>

definition ACCEPT_ENDPOINT :: string where
  "ACCEPT_ENDPOINT = ''POST /api/v1/requests/:id/accept''"

text \<open>\<open>status.toLowerCase()\<close> and the error built after a guarded lock found nothing.\<close>

definition already :: "request_row \<Rightarrow> exn" where
  "already r = invalid_state
     (''This request is already '' @ map lower (request_status_text (r_status r)))
     [(''status'', JStr (request_status_text (r_status r)))]"

definition explain_unsettleable :: "uuid \<Rightarrow> uuid \<Rightarrow> exn tx" where
  "explain_unsettleable requestId payerUserId =
     tx_bind (find_request requestId) (\<lambda>found.
     tx_return (case found of
         None \<Rightarrow> not_found ''Money request''
       | Some r \<Rightarrow>
           if r_payer_user_id r \<noteq> payerUserId then not_found ''Money request''
           else if r_status r \<noteq> R_PENDING then already r
           else invalid_state ''This request has expired'' [(''status'', JStr ''EXPIRED'')]))"

definition user_names :: "user_row option \<Rightarrow> string \<times> string" where
  "user_names u = (case u of None \<Rightarrow> (''Unknown'', '''') | Some x \<Rightarrow> (u_name x, u_phone x))"

definition settle_command :: "request_row \<Rightarrow> uuid \<Rightarrow> uuid \<Rightarrow> uuid \<Rightarrow> post_command" where
  "settle_command r payerAccountId requesterAccountId claimId =
     \<lparr>pc_from = payerAccountId, pc_to = requesterAccountId, pc_amount = r_amount_minor r,
      pc_type = REQUEST_SETTLEMENT, pc_note = r_note r, pc_idem = Some claimId, pc_reversal_of = None\<rparr>"

definition accept_body :: "request_row \<Rightarrow> uuid \<Rightarrow> user_row option \<Rightarrow> posted_transfer \<Rightarrow> json" where
  "accept_body r payerUserId requester posted = JObj [
     (''request'', request_dto (r\<lparr>r_status := R_ACCEPTED, r_settled_transfer_id := Some (p_id posted)\<rparr>)
        payerUserId (user_names requester) (Some (p_reference posted))),
     (''transfer'', JObj [(''reference'', JStr (p_reference posted)), (''amount'', money (p_amount posted)),
        (''createdAt'', JStr (iso_string (p_created_at posted)))]),
     (''balance'', money (p_sender_after posted))]"

definition accept_work :: "uuid \<Rightarrow> uuid \<Rightarrow> request_context \<Rightarrow> uuid \<Rightarrow> (int \<times> json) tx" where
  "accept_work payerUserId requestId ctx claimId =
     tx_bind (lock_settleable_request requestId payerUserId) (\<lambda>found.
     tx_bind (case found of
         None \<Rightarrow> tx_bind (explain_unsettleable requestId payerUserId) tx_throw
       | Some r \<Rightarrow> tx_return r) (\<lambda>r.
     tx_bind (find_account_id_for_user payerUserId) (\<lambda>pa.
     tx_bind (find_account_id_for_user (r_requester_user_id r)) (\<lambda>ra.
     tx_bind (the_or (not_found ''Account'') pa) (\<lambda>payerAccountId.
     tx_bind (the_or (not_found ''Account'') ra) (\<lambda>requesterAccountId.
     tx_bind (outbound_in_window payerAccountId) (\<lambda>spent.
     tx_bind tx_env (\<lambda>env.
     tx_bind (throw_if (DAILY_TRANSFER_LIMIT_MINOR (cfg env) < spent + r_amount_minor r)
       (limit_exceeded ''Settling this request would exceed your daily sending limit''
         [(''dailyLimitMinor'', JStr (int_text (DAILY_TRANSFER_LIMIT_MINOR (cfg env)))),
          (''alreadySentMinor'', JStr (int_text spent))])) (\<lambda>_.
     tx_bind (post_double_entry (settle_command r payerAccountId requesterAccountId claimId)) (\<lambda>posted.
     tx_bind (mark_accepted (r_id r) (p_id posted)) (\<lambda>accepted.
     tx_bind (throw_if (\<not> accepted) (invalid_state ''Request was modified concurrently'' [])) (\<lambda>_.
     tx_bind (select (\<lambda>_ d. find_user_by_id (r_requester_user_id r) d)) (\<lambda>requester.
     tx_bind (enqueue_event
       \<lparr>ev_type = ''REQUEST_ACCEPTED'', ev_aggregate_type = ''money_request'', ev_aggregate_id = r_id r,
        ev_payload = JObj [(''requestId'', JStr (uuid_text (r_id r))),
          (''requesterUserId'', JStr (uuid_text (r_requester_user_id r))),
          (''payerUserId'', JStr (uuid_text payerUserId)),
          (''amountMinor'', JStr (int_text (r_amount_minor r))),
          (''transferReference'', JStr (p_reference posted))]\<rparr>) (\<lambda>_.
     tx_bind (track_write [Some payerUserId, Some (r_requester_user_id r)]) (\<lambda>_.
     tx_bind (insert_audit_log (Some payerUserId) ''REQUEST_ACCEPTED'' ''money_request''
       (Some (uuid_text (r_id r))) (JObj [(''transferReference'', JStr (p_reference posted))])
       ctx) (\<lambda>_.
     tx_return (200, accept_body r payerUserId requester posted)))))))))))))))))"

definition accept_tx :: "uuid \<Rightarrow> uuid \<Rightarrow> string \<Rightarrow> json \<Rightarrow> request_context \<Rightarrow> outcome tx" where
  "accept_tx payerUserId requestId idempotencyKey rawBody ctx =
     (let endpoint = ACCEPT_ENDPOINT @ '':'' @ uuid_text requestId in
     tx_bind tx_env (\<lambda>env.
     tx_bind (claim_idempotency_key payerUserId idempotencyKey endpoint
       (hash_request env endpoint rawBody)) (\<lambda>claim.
     case claim of
       Mismatch \<Rightarrow> tx_throw idempotency_key_reuse
     | Replay st b \<Rightarrow> tx_return \<lparr>out_status = st, out_body = b, out_replayed = True\<rparr>
     | Claimed i \<Rightarrow>
         tx_bind (accept_work payerUserId requestId ctx i) (\<lambda>(st, b).
         tx_bind (complete_idempotency_key i st b) (\<lambda>_.
         tx_return \<lparr>out_status = st, out_body = b, out_replayed = False\<rparr>)))))"

definition accept_request ::
  "uuid \<Rightarrow> uuid \<Rightarrow> string \<Rightarrow> string \<Rightarrow> json \<Rightarrow> request_context \<Rightarrow> env \<Rightarrow> (nat \<Rightarrow> env) \<Rightarrow> (nat \<Rightarrow> env) \<Rightarrow> db \<Rightarrow>
   (exn + outcome \<times> hook list) \<times> db" where
  "accept_request payerUserId requestId idempotencyKey pin rawBody ctx env penvs envs d =
     (case verify_pin payerUserId pin env penvs d of
        (Inl e, d') \<Rightarrow> (Inl e, d')
      | (Inr _, d') \<Rightarrow> transact (accept_tx payerUserId requestId idempotencyKey rawBody ctx) envs d')"

section \<open>Declining, cancelling, expiring\<close>

definition terminate_tx ::
  "uuid \<Rightarrow> uuid \<Rightarrow> request_status \<Rightarrow> string option \<Rightarrow> request_context \<Rightarrow> json tx" where
  "terminate_tx actorUserId requestId to reason ctx =
     (let eventType = (if to = R_DECLINED then ''REQUEST_DECLINED'' else ''REQUEST_CANCELLED'') in
     tx_bind (transition requestId to actorUserId reason) (\<lambda>updated.
     case updated of
       None \<Rightarrow>
         tx_bind (find_request requestId) (\<lambda>found.
         tx_bind (the_or (not_found ''Money request'') found) (\<lambda>existing.
         tx_bind (throw_if (actor_of to existing \<noteq> actorUserId) (not_found ''Money request'')) (\<lambda>_.
         if r_status existing = to
         then tx_bind (select (\<lambda>_ d. find_user_by_id (counterparty_of to existing) d)) (\<lambda>other.
              tx_return (request_dto existing actorUserId (user_names other) None))
         else tx_throw (already existing))))
     | Some r \<Rightarrow>
         tx_bind (select (\<lambda>_ d. find_user_by_id (counterparty_of to r) d)) (\<lambda>counterparty.
         tx_bind (enqueue_event
           \<lparr>ev_type = eventType, ev_aggregate_type = ''money_request'', ev_aggregate_id = r_id r,
            ev_payload = JObj [(''requestId'', JStr (uuid_text (r_id r))),
              (''requesterUserId'', JStr (uuid_text (r_requester_user_id r))),
              (''payerUserId'', JStr (uuid_text (r_payer_user_id r))),
              (''amountMinor'', JStr (int_text (r_amount_minor r))), (''reason'', jopt reason)]\<rparr>) (\<lambda>_.
         tx_bind (insert_audit_log (Some actorUserId) eventType ''money_request''
           (Some (uuid_text (r_id r))) (JObj []) ctx) (\<lambda>_.
         tx_return (request_dto r actorUserId (user_names counterparty) None))))))"

definition decline_request ::
  "uuid \<Rightarrow> uuid \<Rightarrow> string option \<Rightarrow> request_context \<Rightarrow> (nat \<Rightarrow> env) \<Rightarrow> db \<Rightarrow> (exn + json \<times> hook list) \<times> db" where
  "decline_request payerUserId requestId reason ctx envs d =
     transact (terminate_tx payerUserId requestId R_DECLINED reason ctx) envs d"

definition cancel_request ::
  "uuid \<Rightarrow> uuid \<Rightarrow> request_context \<Rightarrow> (nat \<Rightarrow> env) \<Rightarrow> db \<Rightarrow> (exn + json \<times> hook list) \<times> db" where
  "cancel_request requesterUserId requestId ctx envs d =
     transact (terminate_tx requesterUserId requestId R_CANCELLED None ctx) envs d"

text \<open>\<open>workers/request-expiry.worker.ts\<close>.\<close>

definition expired_event :: "request_row \<Rightarrow> outbox_event" where
  "expired_event r =
     \<lparr>ev_type = ''REQUEST_EXPIRED'', ev_aggregate_type = ''money_request'', ev_aggregate_id = r_id r,
      ev_payload = JObj [(''requestId'', JStr (uuid_text (r_id r))),
        (''requesterUserId'', JStr (uuid_text (r_requester_user_id r))),
        (''payerUserId'', JStr (uuid_text (r_payer_user_id r))),
        (''amountMinor'', JStr (int_text (r_amount_minor r)))]\<rparr>"

definition expire_requests_tx :: "nat \<Rightarrow> nat tx" where
  "expire_requests_tx batchSize =
     tx_bind (expire_due batchSize) (\<lambda>expired.
     tx_bind (tx_iter (\<lambda>r. tx_bind (enqueue_event (expired_event r)) (\<lambda>_. tx_return ())) expired) (\<lambda>_.
     tx_return (length expired)))"

definition expire_requests :: "nat \<Rightarrow> (nat \<Rightarrow> env) \<Rightarrow> db \<Rightarrow> (exn + nat \<times> hook list) \<times> db" where
  "expire_requests batchSize envs d = transact (expire_requests_tx batchSize) envs d"

section \<open>Listing\<close>

datatype request_role = Incoming | Outgoing

record request_query =
  rq_role :: request_role
  rq_status :: "request_status option"
  rq_limit :: nat
  rq_cursor :: "string option"

text \<open>\<open>$n::uuid\<close> of a cursor's id, \<open>$n::timestamptz\<close> of its time.\<close>

definition cast_timestamp :: "string \<Rightarrow> exn + micros" where
  "cast_timestamp s = (case pg_parse s of None \<Rightarrow> Inl (PgError ''22007'' None) | Some t \<Rightarrow> Inr t)"

definition cast_uuid :: "string \<Rightarrow> exn + uuid" where
  "cast_uuid s = (if is_uuid s then Inr (uuid_value s) else Inl (PgError ''22P02'' None))"

definition uuid_cursor :: "cursor option \<Rightarrow> exn + row_key option" where
  "uuid_cursor c =
     (case c of
        None \<Rightarrow> Inr None
      | Some k \<Rightarrow>
          (case (cast_timestamp (cur_created_at k), cast_uuid (cur_id k)) of
             (Inr t, Inr i) \<Rightarrow> Inr (Some (t, i))
           | (Inl e, _) \<Rightarrow> Inl e
           | (_, Inl e) \<Rightarrow> Inl e))"

definition request_key :: "request_row \<Rightarrow> row_key" where
  "request_key r = (r_created_at r, r_id r)"

definition other_party :: "request_role \<Rightarrow> request_row \<Rightarrow> uuid" where
  "other_party role r = (case role of Incoming \<Rightarrow> r_requester_user_id r | Outgoing \<Rightarrow> r_payer_user_id r)"

definition self_party :: "request_role \<Rightarrow> request_row \<Rightarrow> uuid" where
  "self_party role r = (case role of Incoming \<Rightarrow> r_payer_user_id r | Outgoing \<Rightarrow> r_requester_user_id r)"

definition listed_request :: "uuid \<Rightarrow> request_role \<Rightarrow> request_status option \<Rightarrow> db \<Rightarrow> request_row \<Rightarrow> bool" where
  "listed_request userId role st d r \<longleftrightarrow>
     self_party role r = userId \<and> (case st of None \<Rightarrow> True | Some x \<Rightarrow> r_status r = x) \<and>
     user_exists (other_party role r) d"

definition settled_reference :: "db \<Rightarrow> request_row \<Rightarrow> string option" where
  "settled_reference d r =
     (case r_settled_transfer_id r of
        None \<Rightarrow> None
      | Some i \<Rightarrow> map_option t_reference (select_first (\<lambda>t. t_id t = i) (transfers_t d)))"

definition list_request_rows ::
  "uuid \<Rightarrow> request_role \<Rightarrow> request_status option \<Rightarrow> nat \<Rightarrow> cursor option \<Rightarrow>
   (request_row \<times> (string \<times> string) \<times> string option) list tx" where
  "list_request_rows userId role st limit c = query (\<lambda>_ d.
     case uuid_cursor c of
       Inl e \<Rightarrow> Inl e
     | Inr k \<Rightarrow> Inr (map (\<lambda>r. (r, user_names (find_user_by_id (other_party role r) d), settled_reference d r))
         (keyset_query request_key k limit (filter (listed_request userId role st d) (requests_t d))), d))"

definition request_page :: "uuid \<Rightarrow> (request_row \<times> (string \<times> string) \<times> string option) list \<Rightarrow> nat \<Rightarrow> json" where
  "request_page userId rows limit =
     (case to_page (\<lambda>(r, _). pg_text (r_created_at r)) (\<lambda>(r, _). uuid_text (r_id r)) rows limit of
        (items, c) \<Rightarrow> JObj [
          (''items'', JArr (map (\<lambda>(r, who, ref). request_dto r userId who ref) items)),
          (''nextCursor'', jopt c)])"

definition list_requests :: "uuid \<Rightarrow> request_query \<Rightarrow> (nat \<Rightarrow> env) \<Rightarrow> db \<Rightarrow> (exn + json) \<times> db" where
  "list_requests userId q envs d =
     (case decode_cursor (rq_cursor q) of
        Inl e \<Rightarrow> (Inl e, d)
      | Inr c \<Rightarrow>
          (case read_transact (list_request_rows userId (rq_role q) (rq_status q) (rq_limit q + 1) c) envs d of
             (Inl e, d') \<Rightarrow> (Inl e, d')
           | (Inr (rows, _), d') \<Rightarrow> (Inr (request_page userId rows (rq_limit q)), d')))"

end
