(* ===== verification/Settlement.thy ===== *)
theory Settlement
  imports Requests
begin

text \<open>
  Records that are settled by a transfer: money requests and the occurrences of schedules. What their
  tables promise, and how every operation on them keeps it, is stated once, as a locale.
\<close>

section \<open>Growth\<close>

text \<open>
  \<open>grows d d'\<close>: no account changes its owner and no transfer disappears or changes its amount,
  kind or sides. It is what the records that refer to transfers rely on.
\<close>

definition same_movement :: "transfer_row \<Rightarrow> transfer_row \<Rightarrow> bool" where
  "same_movement t t' \<longleftrightarrow>
     t_id t' = t_id t \<and> t_type t' = t_type t \<and> t_amount_minor t' = t_amount_minor t \<and>
     t_from_account_id t' = t_from_account_id t \<and> t_to_account_id t' = t_to_account_id t"

definition grows :: "db \<Rightarrow> db \<Rightarrow> bool" where
  "grows d d' \<longleftrightarrow>
     next_uuid d \<le> next_uuid d' \<and>
     (\<forall>i u. account_user i d = Some u \<longrightarrow> account_user i d' = Some u) \<and>
     (\<forall>t\<in>set (transfers_t d). \<exists>t'\<in>set (transfers_t d'). same_movement t t')"

lemma same_movement_refl [simp]: "same_movement t t"
  by (simp add: same_movement_def)

lemma grows_refl: "grows d d"
  unfolding grows_def using same_movement_refl by blast

lemma same_movement_trans: "same_movement t u \<Longrightarrow> same_movement u v \<Longrightarrow> same_movement t v"
  by (simp add: same_movement_def)

lemma grows_trans: "grows d d1 \<Longrightarrow> grows d1 d2 \<Longrightarrow> grows d d2"
  unfolding grows_def using same_movement_trans by (meson order_trans)

lemma grows_same_books: "same_books d d' \<Longrightarrow> grows d d'"
  by (auto simp: grows_def same_books_def same_movement_def account_user_def account_by_id_def)

lemma account_user_movement: "pc_from c \<noteq> pc_to c \<Longrightarrow> account_user i (movement_applied n c t a b d) = account_user i d"
  unfolding account_user_def by (simp add: account_by_id_movement split: option.splits)

lemma grows_movement: "movable c a b d \<Longrightarrow> grows d (movement_applied n c t a b d)"
  by (auto simp: grows_def account_user_movement movable_def same_movement_def)
    (auto simp: movement_applied_def)

lemma grows_reversed: "grows d (d\<lparr>transfers_t := upd_where P reversed (transfers_t d)\<rparr>)"
proof -
  have "\<exists>t'\<in>set (upd_where P reversed T). same_movement t t'" if "t \<in> set T" for t T
    using that by (induction T) (auto simp: same_movement_def)
  then show ?thesis by (simp add: grows_def account_user_def account_by_id_def)
qed

lemma grows_new_account:
  "keyed a_id (accounts_t d) \<Longrightarrow>
   grows d (d\<lparr>accounts_t := accounts_t d @ [new_account_row i u], next_uuid := Suc (next_uuid d)\<rparr>)"
  by (auto simp: grows_def same_movement_def account_user_def account_by_id_def select_first_append
      split: option.splits)

section \<open>Settled records\<close>

text \<open>Two records are not settled by the same transfer.\<close>

definition once :: "('r \<Rightarrow> uuid) \<Rightarrow> ('r \<Rightarrow> uuid option) \<Rightarrow> 'r list \<Rightarrow> bool" where
  "once id_of paid_by xs \<longleftrightarrow>
     (\<forall>r\<in>set xs. \<forall>q\<in>set xs. paid_by r = paid_by q \<and> paid_by r \<noteq> None \<longrightarrow> id_of r = id_of q)"

definition settled_row ::
  "('r \<Rightarrow> uuid) \<Rightarrow> ('r \<Rightarrow> uuid option) \<Rightarrow> ('r \<Rightarrow> bool) \<Rightarrow> ('r \<Rightarrow> bool) \<Rightarrow> (db \<Rightarrow> transfer_row \<Rightarrow> 'r \<Rightarrow> bool) \<Rightarrow>
   db \<Rightarrow> 'r \<Rightarrow> bool" where
  "settled_row id_of paid_by paid well settles d r \<longleftrightarrow>
     id_of r < next_uuid d \<and> well r \<and>
     (case paid_by r of
        None \<Rightarrow> \<not> paid r
      | Some i \<Rightarrow> paid r \<and> i < next_uuid d \<and> (\<exists>t\<in>set (transfers_t d). t_id t = i \<and> settles d t r))"

definition settled_rows ::
  "(db \<Rightarrow> 'r list) \<Rightarrow> ('r \<Rightarrow> uuid) \<Rightarrow> ('r \<Rightarrow> uuid option) \<Rightarrow> ('r \<Rightarrow> bool) \<Rightarrow> ('r \<Rightarrow> bool) \<Rightarrow>
   (db \<Rightarrow> transfer_row \<Rightarrow> 'r \<Rightarrow> bool) \<Rightarrow> db \<Rightarrow> bool" where
  "settled_rows rows id_of paid_by paid well settles d \<longleftrightarrow>
     keyed id_of (rows d) \<and> (\<forall>r\<in>set (rows d). settled_row id_of paid_by paid well settles d r) \<and>
     once id_of paid_by (rows d)"

lemma settled_onceD:
  assumes "settled_rows rows id_of paid_by paid well settles d" and r: "r \<in> set (rows d)"
  shows "(paid r \<longleftrightarrow> paid_by r \<noteq> None) \<and>
    (\<forall>i. paid_by r = Some i \<longrightarrow> (\<exists>t\<in>set (transfers_t d). t_id t = i \<and> settles d t r) \<and>
       (\<forall>q\<in>set (rows d). paid_by q = Some i \<longrightarrow> q = r))"
proof -
  have k: "keyed id_of (rows d)" and s: "settled_row id_of paid_by paid well settles d r" and o: "once id_of paid_by (rows d)"
    using assms by (simp_all add: settled_rows_def)
  have "q = r" if "q \<in> set (rows d)" "paid_by q = Some i" "paid_by r = Some i" for q i
  proof -
    from o that(1) r have "paid_by q = paid_by r \<and> paid_by q \<noteq> None \<longrightarrow> id_of q = id_of r"
      unfolding once_def by blast
    with that have "id_of q = id_of r" by simp
    with keyed_inj [OF k that(1) r] show ?thesis .
  qed
  moreover have "(paid r \<longleftrightarrow> paid_by r \<noteq> None) \<and>
      (\<forall>i. paid_by r = Some i \<longrightarrow> (\<exists>t\<in>set (transfers_t d). t_id t = i \<and> settles d t r))"
    using s by (cases "paid_by r") (simp_all add: settled_row_def)
  ultimately show ?thesis by blast
qed

text \<open>
  The contract: what makes a transfer settle a record survives \<open>ext\<close>, the way the database may change
  around the table.
\<close>

locale settlement =
  fixes rows :: "db \<Rightarrow> 'r list" and id_of :: "'r \<Rightarrow> uuid" and paid_by :: "'r \<Rightarrow> uuid option"
    and paid well :: "'r \<Rightarrow> bool" and settles :: "db \<Rightarrow> transfer_row \<Rightarrow> 'r \<Rightarrow> bool"
    and ext :: "db \<Rightarrow> db \<Rightarrow> bool" and ok :: "db \<Rightarrow> bool"
  assumes ok_iff: "ok d \<longleftrightarrow> settled_rows rows id_of paid_by paid well settles d"
    and ext_grows: "ext d d' \<Longrightarrow> grows d d'"
    and settles_ext: "ext d d' \<Longrightarrow> same_movement t t' \<Longrightarrow> settles d t r \<Longrightarrow> settles d' t' r"
begin

lemma row_ext:
  assumes r: "settled_row id_of paid_by paid well settles d r" and e: "ext d d'"
  shows "settled_row id_of paid_by paid well settles d' r"
proof -
  have g: "grows d d'" by (rule ext_grows [OF e])
  have "\<exists>t'\<in>set (transfers_t d'). t_id t' = t_id t \<and> settles d' t' r"
    if t: "t \<in> set (transfers_t d)" "settles d t r" for t
  proof -
    obtain t' where t': "t' \<in> set (transfers_t d')" "same_movement t t'" using g t(1) unfolding grows_def by blast
    then show ?thesis using settles_ext [OF e t'(2) t(2)] by (auto simp: same_movement_def)
  qed
  moreover have "next_uuid d \<le> next_uuid d'" using g by (simp add: grows_def)
  ultimately show ?thesis using r unfolding settled_row_def by (fastforce split: option.splits)
qed

lemma ok_row: "ok d \<Longrightarrow> r \<in> set (rows d) \<Longrightarrow> settled_row id_of paid_by paid well settles d r"
  unfolding ok_iff settled_rows_def by blast

lemma ok_keyed: "ok d \<Longrightarrow> keyed id_of (rows d)"
  by (simp add: ok_iff settled_rows_def)

lemma ok_once: "ok d \<Longrightarrow> once id_of paid_by (rows d)"
  by (simp add: ok_iff settled_rows_def)

lemma ok_id: "ok d \<Longrightarrow> r \<in> set (rows d) \<Longrightarrow> id_of r < next_uuid d"
  by (drule (1) ok_row) (simp add: settled_row_def)

lemma unpaid: "ok d \<Longrightarrow> r \<in> set (rows d) \<Longrightarrow> \<not> paid r \<Longrightarrow> paid_by r = None"
  by (drule (1) ok_row) (simp add: settled_row_def split: option.splits)

lemma paid_by_less: "ok d \<Longrightarrow> r \<in> set (rows d) \<Longrightarrow> paid_by r = Some i \<Longrightarrow> i < next_uuid d"
  by (drule (1) ok_row) (simp add: settled_row_def)

lemma ok_ext: "ok d \<Longrightarrow> ext d d' \<Longrightarrow> rows d' = rows d \<Longrightarrow> ok d'"
  using row_ext unfolding ok_iff settled_rows_def by auto

lemma ok_upd:
  assumes ok: "ok d" and e: "ext d d'" and rows: "rows d' = upd_where P f (rows d)"
    and id: "\<And>r. id_of (f r) = id_of r"
    and new: "\<And>r. r \<in> set (rows d) \<Longrightarrow> P r \<Longrightarrow> settled_row id_of paid_by paid well settles d' (f r)"
    and once: "once id_of paid_by (rows d')"
  shows "ok d'"
proof -
  have "settled_row id_of paid_by paid well settles d' r" if "r \<in> set (rows d')" for r
    using that ok_row [OF ok] row_ext [OF _ e] new unfolding rows by (auto simp: set_upd_where)
  moreover have "keyed id_of (rows d')" using ok_keyed [OF ok] by (simp add: rows keyed_upd_where id)
  ultimately show ?thesis using once by (simp add: ok_iff settled_rows_def)
qed

text \<open>A record that ends, or is only touched, without a payment.\<close>

lemma ok_ended:
  assumes ok: "ok d" and e: "ext d d'" and rows: "rows d' = upd_where P f (rows d)"
    and P: "\<And>r. r \<in> set (rows d) \<Longrightarrow> P r \<Longrightarrow> \<not> paid r"
    and f: "\<And>r. id_of (f r) = id_of r" "\<And>r. well r \<Longrightarrow> well (f r)"
      "\<And>r. P r \<Longrightarrow> paid_by (f r) = None \<or> paid_by (f r) = paid_by r" "\<And>r. r \<in> set (rows d) \<Longrightarrow> P r \<Longrightarrow> \<not> paid (f r)"
  shows "ok d'"
proof (rule ok_upd [OF ok e rows f(1)])
  have none: "paid_by (f r) = None" if "r \<in> set (rows d)" "P r" for r
    using f(3) [OF that(2)] unpaid [OF ok that(1) P [OF that]] by auto
  show "settled_row id_of paid_by paid well settles d' (f r)" if r: "r \<in> set (rows d)" "P r" for r
    using row_ext [OF ok_row [OF ok r(1)] e] none [OF r] f(1,2,4) r by (simp add: settled_row_def)
  have "\<exists>q\<in>set (rows d). id_of q = id_of r \<and> paid_by q = paid_by r" if "r \<in> set (rows d')" "paid_by r \<noteq> None" for r
    using that none unfolding rows by (auto simp: set_upd_where)
  then show "once id_of paid_by (rows d')"
    using ok_once [OF ok] unfolding once_def by metis
qed

text \<open>One record settled by a transfer that settles no other.\<close>

lemma ok_paid:
  assumes ok: "ok d" and e: "ext d d'" and rows: "rows d' = upd_where P f (rows d)"
    and one: "\<And>q. q \<in> set (rows d) \<Longrightarrow> P q \<Longrightarrow> id_of q = j"
    and f: "\<And>r. id_of (f r) = id_of r" "\<And>r. well r \<Longrightarrow> well (f r)" "\<And>r. paid_by (f r) = Some i" "\<And>r. paid (f r)"
    and i: "i < next_uuid d'"
    and t: "\<And>q. q \<in> set (rows d) \<Longrightarrow> P q \<Longrightarrow> \<exists>t\<in>set (transfers_t d'). t_id t = i \<and> settles d' t (f q)"
    and fresh: "\<And>q. q \<in> set (rows d) \<Longrightarrow> paid_by q \<noteq> Some i"
  shows "ok d'"
proof (rule ok_upd [OF ok e rows f(1)])
  show "settled_row id_of paid_by paid well settles d' (f r)" if r: "r \<in> set (rows d)" "P r" for r
    using row_ext [OF ok_row [OF ok r(1)] e] f i t [OF r] by (simp add: settled_row_def)
  show "once id_of paid_by (rows d')"
    unfolding once_def
  proof (intro ballI impI)
    fix a b assume ab: "a \<in> set (rows d')" "b \<in> set (rows d')" and p: "paid_by a = paid_by b \<and> paid_by a \<noteq> None"
    have o: "id_of a = id_of b" if "a \<in> set (rows d)" "b \<in> set (rows d)"
      using ok_once [OF ok] p that unfolding once_def by blast
    have "(x \<in> set (rows d) \<and> paid_by x \<noteq> Some i) \<or> (id_of x = j \<and> paid_by x = Some i)" if "x \<in> set (rows d')" for x
      using that one fresh f unfolding rows by (auto simp: set_upd_where)
    from this [OF ab(1)] this [OF ab(2)] p o show "id_of a = id_of b" by auto
  qed
qed

text \<open>A new record.\<close>

lemma ok_insert:
  assumes ok: "ok d" and e: "ext d d'" and rows: "rows d' = rows d @ [r]"
    and id: "id_of r = next_uuid d" "next_uuid d < next_uuid d'" and r: "well r" "paid_by r = None" "\<not> paid r"
  shows "ok d'"
proof -
  have lt: "id_of q < next_uuid d" if "q \<in> set (rows d)" for q by (rule ok_id [OF ok that])
  have "settled_row id_of paid_by paid well settles d' r" using id r by (simp add: settled_row_def)
  then have "settled_row id_of paid_by paid well settles d' q" if "q \<in> set (rows d')" for q
    using that row_ext [OF ok_row [OF ok] e] unfolding rows by auto
  moreover have "\<forall>q\<in>set (rows d). id_of q \<noteq> id_of r" using lt id(1) by fastforce
  then have "keyed id_of (rows d')" unfolding rows keyed_append1 using ok_keyed [OF ok] by blast
  moreover have "once id_of paid_by (rows d')"
    unfolding once_def
  proof (intro ballI impI)
    fix a b assume "a \<in> set (rows d')" "b \<in> set (rows d')" and p: "paid_by a = paid_by b \<and> paid_by a \<noteq> None"
    then have "a \<in> set (rows d)" "b \<in> set (rows d)" using r(2) unfolding rows by auto
    with p show "id_of a = id_of b" using ok_once [OF ok] unfolding once_def by blast
  qed
  ultimately show ?thesis by (simp add: ok_iff settled_rows_def)
qed

lemma keeps_posting:
  assumes "\<And>n c t a b d. movable c a b d \<Longrightarrow> ext d (movement_applied n c t a b d)"
    and "\<And>n c t a b d. rows (movement_applied n c t a b d) = rows d"
  shows "keeps ok (post_double_entry c)"
  unfolding keeps_def
proof (rule tripleI)
  fix env s p s'
  assume i: "ok (data s)" and run: "post_double_entry c env s = (Inr p, s')"
  from run show "\<not> aborted s' \<and> ok (data s')"
    by (rule post_double_entry_Inr) (use ok_ext [OF i] assms in auto)
qed

end

end
