(* ===== verification/Request_Safety.thy ===== *)
theory Request_Safety
  imports Settlement
begin

text \<open>
  Correctness of money requests: the endpoints keep the books and the keys, a request leaves
  PENDING once, and it is ACCEPTED exactly when one transfer of its amount, from its payer to its
  requester, has settled it.
\<close>

section \<open>Frames\<close>

lemma keeps_insert_request:
  "(\<And>d xs n. I d \<Longrightarrow> next_uuid d \<le> n \<Longrightarrow> I (d\<lparr>requests_t := xs, next_uuid := n\<rparr>)) \<Longrightarrow>
   keeps I (insert_request a b c n e s)"
  unfolding insert_request_def by (rule keeps_query) (auto simp: Let_def split: option.splits)

lemma keeps_request_reads [keeps_intros]:
  "keeps I (find_request i)" "keeps I (lock_settleable_request i u)"
  "keeps I (explain_unsettleable i u)"
  unfolding find_request_def lock_settleable_request_def explain_unsettleable_def
  by (intro keeps_intros)+

lemma keeps_request_updates:
  assumes "\<And>d xs. I d \<Longrightarrow> I (d\<lparr>requests_t := xs\<rparr>)"
  shows "keeps I (mark_accepted i t)" and "keeps I (transition i to u x)" and "keeps I (expire_due n)"
  unfolding mark_accepted_def transition_def expire_due_def
  by (rule keeps_query; auto simp: Let_def intro: assms)+

lemma keeps_create_request_work:
  assumes "\<And>e. keeps I (enqueue_event e)"
    and "\<And>d xs. I d \<Longrightarrow> I (d\<lparr>audit_t := xs\<rparr>)"
    and "\<And>a b c n e s. keeps I (insert_request a b c n e s)"
  shows "keeps I (create_request_work u input ctx i)"
  unfolding create_request_work_def
  by (intro keeps_intros keeps_insert_audit_log assms)

lemma keeps_accept_work:
  assumes "\<And>e. keeps I (enqueue_event e)"
    and "\<And>d xs. I d \<Longrightarrow> I (d\<lparr>audit_t := xs\<rparr>)"
    and "\<And>r a b. keeps I (post_double_entry (settle_command r a b i))" and "\<And>i t. keeps I (mark_accepted i t)"
  shows "keeps I (accept_work u r ctx i)"
  unfolding accept_work_def
  by (intro keeps_intros keeps_insert_audit_log assms)

lemma keeps_terminate:
  assumes "\<And>e. keeps I (enqueue_event e)"
    and "\<And>d xs. I d \<Longrightarrow> I (d\<lparr>audit_t := xs\<rparr>)"
    and "keeps I (transition r to u x)"
  shows "keeps I (terminate_tx u r to x ctx)"
  unfolding terminate_tx_def Let_def
  by (intro keeps_intros keeps_insert_audit_log assms)

lemma keeps_expire:
  assumes "\<And>e. keeps I (enqueue_event e)"
    and "\<And>n. keeps I (expire_due n)"
  shows "keeps I (expire_requests_tx n)"
  unfolding expire_requests_tx_def by (intro keeps_intros assms)

section \<open>Idempotent endpoints\<close>

interpretation create_req: idempotent_endpoint "create_request_tx u key input raw ctx" u key
    CREATE_REQUEST_ENDPOINT "\<lambda>env. hash_request env CREATE_REQUEST_ENDPOINT raw"
    "create_request_work u input ctx" for u key input raw ctx
proof
  show "create_request_tx u key input raw ctx = tx_bind tx_env (\<lambda>env.
         tx_bind (claim_idempotency_key u key CREATE_REQUEST_ENDPOINT
           (hash_request env CREATE_REQUEST_ENDPOINT raw)) (\<lambda>claim.
         case claim of
           Mismatch \<Rightarrow> tx_throw idempotency_key_reuse
         | Replay st b \<Rightarrow> tx_return \<lparr>out_status = st, out_body = b, out_replayed = True\<rparr>
         | Claimed i \<Rightarrow>
             tx_bind (create_request_work u input ctx i) (\<lambda>(st, b).
             tx_bind (complete_idempotency_key i st b) (\<lambda>_.
             tx_return \<lparr>out_status = st, out_body = b, out_replayed = False\<rparr>))))"
    by (simp only: create_request_tx_def)
  show "keeps (\<lambda>d. idem_t d = K \<and> n \<le> next_uuid d) (create_request_work u input ctx i)" for K n i
    by (rule keeps_create_request_work) (auto intro!: keeps_insert_request keeps_enqueue_event)
qed

interpretation accept: idempotent_endpoint "accept_tx u r key raw ctx" u key
    "ACCEPT_ENDPOINT @ '':'' @ uuid_text r"
    "\<lambda>env. hash_request env (ACCEPT_ENDPOINT @ '':'' @ uuid_text r) raw"
    "accept_work u r ctx" for u r key raw ctx
proof
  show "accept_tx u r key raw ctx = tx_bind tx_env (\<lambda>env.
         tx_bind (claim_idempotency_key u key (ACCEPT_ENDPOINT @ '':'' @ uuid_text r)
           (hash_request env (ACCEPT_ENDPOINT @ '':'' @ uuid_text r) raw)) (\<lambda>claim.
         case claim of
           Mismatch \<Rightarrow> tx_throw idempotency_key_reuse
         | Replay st b \<Rightarrow> tx_return \<lparr>out_status = st, out_body = b, out_replayed = True\<rparr>
         | Claimed i \<Rightarrow>
             tx_bind (accept_work u r ctx i) (\<lambda>(st, b).
             tx_bind (complete_idempotency_key i st b) (\<lambda>_.
             tx_return \<lparr>out_status = st, out_body = b, out_replayed = False\<rparr>))))"
    by (simp only: accept_tx_def Let_def)
  show "keeps (\<lambda>d. idem_t d = K \<and> n \<le> next_uuid d) (accept_work u r ctx i)" for K n i
    by (rule keeps_accept_work) (auto intro!: keeps_post keeps_request_updates keeps_enqueue_event)
qed

section \<open>The books\<close>

lemma ledger_frames:
  "ledger_ok d \<Longrightarrow> next_uuid d \<le> n \<Longrightarrow> ledger_ok (d\<lparr>outbox_t := xs, next_uuid := n\<rparr>)"
  "ledger_ok d \<Longrightarrow> ledger_ok (d\<lparr>audit_t := ys\<rparr>)"
  "ledger_ok d \<Longrightarrow> next_uuid d \<le> n \<Longrightarrow> ledger_ok (d\<lparr>requests_t := rs, next_uuid := n\<rparr>)"
  "ledger_ok d \<Longrightarrow> ledger_ok (d\<lparr>requests_t := rs\<rparr>)"
  by (erule ledger_frame, simp add: same_books_def)+

lemma keeps_ledger_create_request: "keeps ledger_ok (create_request_tx u key input raw ctx)"
  unfolding create_request_tx_def
  by (intro keeps_intros keeps_claim_cases keeps_ledger_claim keeps_ledger_complete
      keeps_create_request_work keeps_insert_request keeps_enqueue_event ledger_frames)

lemma keeps_ledger_accept: "keeps ledger_ok (accept_tx u r key raw ctx)"
  unfolding accept_tx_def Let_def
  by (intro keeps_intros keeps_claim_cases keeps_ledger_claim keeps_ledger_complete
      keeps_accept_work keeps_request_updates keeps_enqueue_event ledger_frames keeps_ledger_post)

lemma keeps_ledger_terminate: "keeps ledger_ok (terminate_tx u r to x ctx)"
  by (intro keeps_terminate keeps_request_updates keeps_enqueue_event ledger_frames)

lemma keeps_ledger_expire: "keeps ledger_ok (expire_requests_tx n)"
  by (intro keeps_expire keeps_request_updates keeps_enqueue_event ledger_frames)

section \<open>Settlement\<close>

definition settles :: "db \<Rightarrow> transfer_row \<Rightarrow> request_row \<Rightarrow> bool" where
  "settles d t r \<longleftrightarrow>
     t_type t = REQUEST_SETTLEMENT \<and> t_amount_minor t = r_amount_minor r \<and>
     account_user (t_from_account_id t) d = Some (r_payer_user_id r) \<and>
     account_user (t_to_account_id t) d = Some (r_requester_user_id r)"

definition request_well :: "request_row \<Rightarrow> bool" where
  "request_well r \<longleftrightarrow> 0 < r_amount_minor r \<and> r_requester_user_id r \<noteq> r_payer_user_id r"

definition accepted :: "request_row \<Rightarrow> bool" where
  "accepted r \<longleftrightarrow> r_status r = R_ACCEPTED"

text \<open>
  Every request of the table is ACCEPTED exactly when it names a transfer, that transfer is of its
  amount, from its payer to its requester, and no other request names it.
\<close>

definition requests_ok :: "db \<Rightarrow> bool" where
  "requests_ok d \<longleftrightarrow> settled_rows requests_t r_id r_settled_transfer_id accepted request_well settles d"

interpretation req: settlement requests_t r_id r_settled_transfer_id accepted request_well settles grows requests_ok
  by unfold_locales (auto simp: requests_ok_def settles_def same_movement_def grows_def)

lemma keeps_requests_post: "keeps requests_ok (post_double_entry c)"
  by (rule req.keeps_posting) (erule grows_movement, simp add: movement_applied_def)

lemma grows_requests: "next_uuid d \<le> n \<Longrightarrow> grows d (d\<lparr>requests_t := xs, next_uuid := n\<rparr>)"
    "grows d (d\<lparr>requests_t := xs\<rparr>)"
  by (rule grows_same_books, simp add: same_books_def)+

lemma keeps_requests_transition: "to \<noteq> R_ACCEPTED \<Longrightarrow> keeps requests_ok (transition i to u x)"
  unfolding transition_def
proof (rule keeps_query)
  fix env d v d'
  assume to: "to \<noteq> R_ACCEPTED" and ok: "requests_ok d"
    and eq: "(let P = (\<lambda>r. r_id r = i \<and> actor_of to r = u \<and> r_status r = R_PENDING) in
      Inr (first_row (returning P (ended_row to x) (requests_t d)),
           d\<lparr>requests_t := upd_where P (ended_row to x) (requests_t d)\<rparr>)) = (Inr (v, d') :: exn + request_row option \<times> db)"
  have "d' = d\<lparr>requests_t := upd_where (\<lambda>r. r_id r = i \<and> actor_of to r = u \<and> r_status r = R_PENDING)
      (ended_row to x) (requests_t d)\<rparr>"
    using eq unfolding Let_def by simp
  then show "requests_ok d'"
    by (simp only:) (rule req.ok_ended [OF ok grows_requests(2), where f = "ended_row to x"
        and P = "\<lambda>r. r_id r = i \<and> actor_of to r = u \<and> r_status r = R_PENDING"];
      simp add: ended_row_def accepted_def request_well_def to)
qed

lemma keeps_requests_expire_due: "keeps requests_ok (expire_due n)"
  unfolding expire_due_def
proof (rule keeps_query)
  fix env d a d'
  assume ok: "requests_ok d" and eq: "(let P = (\<lambda>r. r_id r \<in> set (due_requests env n d)) in
      Inr (returning P expired_row (requests_t d), d\<lparr>requests_t := upd_where P expired_row (requests_t d)\<rparr>)) =
      (Inr (a, d') :: exn + request_row list \<times> db)"
  let ?P = "\<lambda>r. r_id r \<in> set (due_requests env n d)" and ?Q = "\<lambda>r. r_id r \<in> set (due_requests env n d) \<and> r_status r = R_PENDING"
  have "r_status r = R_PENDING" if r: "r \<in> set (requests_t d)" "?P r" for r
  proof -
    from r obtain q where "q \<in> set (requests_t d)" "r_status q = R_PENDING" "r_id q = r_id r"
      by (auto simp: due_requests_def dest!: in_set_takeD)
    then show ?thesis using keyed_inj [of r_id "requests_t d" q r] req.ok_keyed [OF ok] r(1) by simp
  qed
  then have "upd_where ?P expired_row (requests_t d) = upd_where ?Q expired_row (requests_t d)"
    by (auto simp: upd_where_def)
  moreover have "requests_ok (d\<lparr>requests_t := upd_where ?Q expired_row (requests_t d)\<rparr>)"
    by (rule req.ok_ended [OF ok grows_requests(2), where f = expired_row and P = ?Q])
      (auto simp: expired_row_def accepted_def request_well_def)
  ultimately show "requests_ok d'" using eq by (auto simp: Let_def)
qed

lemma keeps_requests_insert: "keeps requests_ok (insert_request a b c n e s)"
  unfolding insert_request_def
proof (rule keeps_query)
  fix env d v d'
  assume ok: "requests_ok d" and eq: "(let r = new_request_row (next_uuid d) a b c n e s (now env)
      in case request_refused r d of None \<Rightarrow> Inr (r, d\<lparr>requests_t := requests_t d @ [r], next_uuid := Suc (next_uuid d)\<rparr>)
         | Some e \<Rightarrow> Inl e) = Inr (v, d')"
  let ?r = "new_request_row (next_uuid d) a b c n e s (now env)"
  have v: "request_refused ?r d = None" "d' = d\<lparr>requests_t := requests_t d @ [?r], next_uuid := Suc (next_uuid d)\<rparr>"
    using eq by (auto simp: Let_def split: option.splits)
  have "request_well ?r" using v(1) by (auto simp: request_refused_def request_well_def split: if_splits)
  then show "requests_ok d'"
    unfolding v(2) by (intro req.ok_insert [OF ok grows_requests(1), where r = ?r])
      (simp_all add: new_request_row_def accepted_def)
qed

section \<open>Accepting\<close>

lemma lock_settleable_Inr:
  assumes "lock_settleable_request i u env s = (Inr (Some r), s')"
  shows "r \<in> set (requests_t (data s))" and "r_id r = i" and "r_payer_user_id r = u"
    and "r_status r = R_PENDING" and "now env < r_expires_at r"
    and "data s' = data s" and "locks s' = locks s" and "\<not> aborted s'"
  using assms by (auto simp: lock_settleable_request_def run_simps settleable_def dest!: sym [of "Some r"] select_first_SomeD)

lemma mark_accepted_Inr:
  "mark_accepted i t env s = (Inr b, s') \<Longrightarrow>
   b = (count_where (\<lambda>r. r_id r = i \<and> r_status r = R_PENDING) (requests_t (data s)) = 1) \<and>
   data s' = (data s)\<lparr>requests_t := upd_where (\<lambda>r. r_id r = i \<and> r_status r = R_PENDING)
     (accepted_row t) (requests_t (data s))\<rparr> \<and> locks s' = locks s \<and> \<not> aborted s'"
  by (auto simp: mark_accepted_def run_simps Let_def)

lemma account_of_user_Inr:
  "find_account_id_for_user u env s = (Inr (Some i), s') \<Longrightarrow>
   (\<exists>a. find_account_by_user_id u (data s) = Some a \<and> i = a_id a) \<and> data s' = data s \<and> locks s' = locks s"
  by (auto simp: find_account_id_for_user_def run_simps dest!: sym [of "Some i"])

lemma accept_work_Inr:
  assumes run: "accept_work u req ctx i env s = (Inr (st, b), s')"
  obtains r pa ra posted s1 s2 requester where
    "r \<in> set (requests_t (data s))" "r_id r = req" "r_payer_user_id r = u" "r_status r = R_PENDING"
    "now env < r_expires_at r"
    "find_account_by_user_id u (data s) = Some pa"
    "find_account_by_user_id (r_requester_user_id r) (data s) = Some ra"
    "spent_since (now env - 24 * 3600 * 1000000) (a_id pa) (data s) + r_amount_minor r
       \<le> DAILY_TRANSFER_LIMIT_MINOR (cfg env)"
    "post_double_entry (settle_command r (a_id pa) (a_id ra) i) env s1 = (Inr posted, s2)"
    "data s1 = data s" "locks s1 = locks s"
    "logged ((data s2)\<lparr>requests_t := upd_where (\<lambda>q. r_id q = r_id r \<and> r_status q = R_PENDING)
       (accepted_row (p_id posted)) (requests_t (data s2))\<rparr>) (data s')"
    "locks s' = locks s2" "st = 200" "b = accept_body r u requester posted"
proof -
  from run obtain found s11 r s12 pao s13 rao s14 pid s15 rid s16 spent s17 z1 s1 posted s2 acc s21 z2 s22
      requester s23 ev z3 s24 z4 s25 ac ty en md rid' au z5 where
    l: "lock_settleable_request req u env s = (Inr found, s11)"
      "(case found of None \<Rightarrow> tx_bind (explain_unsettleable req u) tx_throw | Some r \<Rightarrow> tx_return r) env s11 = (Inr r, s12)" and
    a: "find_account_id_for_user u env s12 = (Inr pao, s13)"
      "find_account_id_for_user (r_requester_user_id r) env s13 = (Inr rao, s14)"
      "the_or (not_found ''Account'') pao env s14 = (Inr pid, s15)"
      "the_or (not_found ''Account'') rao env s15 = (Inr rid, s16)" and
    o: "outbound_in_window pid env s16 = (Inr spent, s17)"
      "throw_if (DAILY_TRANSFER_LIMIT_MINOR (cfg env) < spent + r_amount_minor r)
       (limit_exceeded ''Settling this request would exceed your daily sending limit''
         [(''dailyLimitMinor'', JStr (int_text (DAILY_TRANSFER_LIMIT_MINOR (cfg env)))),
          (''alreadySentMinor'', JStr (int_text spent))]) env s17 = (Inr z1, s1)" and
    post: "post_double_entry (settle_command r pid rid i) env s1 = (Inr posted, s2)" and
    m: "mark_accepted (r_id r) (p_id posted) env s2 = (Inr acc, s21)"
      "throw_if (\<not> acc) (invalid_state ''Request was modified concurrently'' []) env s21 = (Inr z2, s22)" and
    q: "select (\<lambda>_ d. find_user_by_id (r_requester_user_id r) d) env s22 = (Inr requester, s23)" and
    e: "enqueue_event ev env s23 = (Inr z3, s24)" and
    t: "track_write [Some u, Some (r_requester_user_id r)] env s24 = (Inr z4, s25)" and
    g: "insert_audit_log ac ty en md rid' au env s25 = (Inr z5, s')" and
    res: "(st, b) = (200, accept_body r u requester posted)"
    unfolding accept_work_def Let_def tx_bind_Inr_iff env_Inr_iff return_Inr_iff
    by (elim exE conjE, hypsubst) (rule that, (assumption | rule refl | simp)+)
  have r: "found = Some r" "s12 = s11"
    using l(2) by (auto simp: run_simps split: option.splits)
  note L = lock_settleable_Inr [OF l(1) [unfolded r(1)]]
  have ids: "pao = Some pid" "rao = Some rid" "s16 = s14" using a(3,4) by (auto simp: run_simps)
  note A = account_of_user_Inr [OF a(1) [unfolded ids(1)]] account_of_user_Inr [OF a(2) [unfolded ids(2)]]
  obtain pa ra where pa: "find_account_by_user_id u (data s) = Some pa" "pid = a_id pa" and
    ra: "find_account_by_user_id (r_requester_user_id r) (data s) = Some ra" "rid = a_id ra" and
    d14: "data s14 = data s" "locks s14 = locks s"
    using A L(6,7) r(2) by auto
  have d1: "spent_since (now env - 24 * 3600 * 1000000) (a_id pa) (data s) + r_amount_minor r
       \<le> DAILY_TRANSFER_LIMIT_MINOR (cfg env)" "data s1 = data s" "locks s1 = locks s"
    using o d14 ids(3) pa(2) by (auto simp: outbound_in_window_def run_simps)
  note M = mark_accepted_Inr [OF m(1)]
  have d23: "data s23 = data s21" "locks s23 = locks s21" "\<not> aborted s23"
    using m(2) q M by (auto simp: run_simps)
  note E = enqueue_event_frame [OF e]
  note T = track_write_frame [OF t E [THEN conjunct2, THEN conjunct2, THEN conjunct2]]
  note G = insert_audit_log_frame [OF g]
  have fin: "logged (data s21) (data s')"
    using E T G d23(1) by (auto intro: logged_trans)
  have m3: "data s21 = (data s2)\<lparr>requests_t := upd_where (\<lambda>q. r_id q = r_id r \<and> r_status q = R_PENDING)
       (accepted_row (p_id posted)) (requests_t (data s2))\<rparr>" using M by simp
  show thesis
    by (rule that [OF L(1-5) pa(1) ra(1) d1(1) post [unfolded pa(2) ra(2)] d1(2,3) fin [unfolded m3]])
      (use M d23 E T G res in simp_all)
qed

lemma account_of_user:
  assumes "ledger_ok d" and "find_account_by_user_id u d = Some a"
  shows "account_by_id (a_id a) d = Some a" and "account_user (a_id a) d = Some u" and "a_type a = USER"
proof -
  have a: "a \<in> set (accounts_t d)" "a_user_id a = Some u"
    using assms(2) unfolding find_account_by_user_id_def by (auto dest: select_first_SomeD)
  have "keyed a_id (accounts_t d)" using assms(1) by (simp add: ledger_ok_def accounts_ok_def)
  from select_first_key [OF this a(1)] show "account_by_id (a_id a) d = Some a"
    by (simp add: account_by_id_def)
  then show "account_user (a_id a) d = Some u" by (simp add: account_user_def a(2))
  have "owner_fits a" using assms(1) a(1) unfolding ledger_ok_def accounts_ok_def by blast
  then show "a_type a = USER" using a(2) by (cases "a_type a") (simp_all add: owner_fits_def)
qed

lemma account_user_requests: "account_user i (d\<lparr>requests_t := xs\<rparr>) = account_user i d"
  by (simp add: account_user_def account_by_id_def)

lemma requests_ok_logged: "requests_ok d \<Longrightarrow> logged d d' \<Longrightarrow> requests_ok d'"
  by (rule req.ok_ext [OF _ grows_same_books]) (simp_all add: logged_simps same_books_def)

lemma accept_work_requests:
  assumes run: "accept_work u rid ctx i env s = (Inr (st, b), s')"
    and books: "ledger_ok (data s)" and ok: "requests_ok (data s)"
  shows "requests_ok (data s')"
  using run
proof (rule accept_work_Inr)
  fix r pa ra posted and s1 s2 :: txs and requester
  assume r: "r \<in> set (requests_t (data s))" "r_id r = rid" "r_payer_user_id r = u" "r_status r = R_PENDING"
    and pa: "find_account_by_user_id u (data s) = Some pa"
    and ra: "find_account_by_user_id (r_requester_user_id r) (data s) = Some ra"
    and post: "post_double_entry (settle_command r (a_id pa) (a_id ra) i) env s1 = (Inr posted, s2)"
    and s1: "data s1 = data s"
    and lg: "logged ((data s2)\<lparr>requests_t := upd_where (\<lambda>q. r_id q = r_id r \<and> r_status q = R_PENDING)
       (accepted_row (p_id posted)) (requests_t (data s2))\<rparr>) (data s')" (is "logged ?d _")
  let ?c = "settle_command r (a_id pa) (a_id ra) i"
  from post obtain src dst where m: "movable ?c src dst (data s1)" and
    d2: "data s2 = movement_applied (next_entry_ids env (data s1)) ?c (movement_row ?c (p_reference posted) (p_id posted) (now env)) src dst (data s1)"
      "p_id posted = next_uuid (data s1)"
    by (rule post_double_entry_Inr)
  let ?t = "movement_row ?c (p_reference posted) (p_id posted) (now env)"
  have R: "requests_t (data s2) = requests_t (data s)" "next_uuid (data s2) = Suc (next_uuid (data s))"
    "transfers_t (data s2) = transfers_t (data s) @ [?t]"
    unfolding d2 s1 by (simp_all add: movement_applied_def)
  have ne: "pc_from ?c \<noteq> pc_to ?c" using m by (simp add: movable_def)
  have t: "settles ?d ?t r"
    unfolding d2(1) s1 settles_def
    using account_of_user [OF books pa] account_of_user [OF books ra] ne
    by (simp add: account_user_movement account_user_requests settle_command_def r(3))
  have "requests_ok ?d"
  proof (rule req.ok_paid [OF ok, where f = "accepted_row (p_id posted)" and i = "p_id posted"
      and P = "\<lambda>q. r_id q = r_id r \<and> r_status q = R_PENDING" and j = "r_id r"])
    have "grows (data s) (data s2)" using grows_movement [OF m] unfolding d2(1) s1 .
    then show "grows (data s) ?d" using grows_requests(2) grows_trans by blast
    show "\<exists>t\<in>set (transfers_t ?d). t_id t = p_id posted \<and> settles ?d t (accepted_row (p_id posted) q)"
      if q: "q \<in> set (requests_t (data s))" "r_id q = r_id r \<and> r_status q = R_PENDING" for q
    proof -
      have "q = r" using keyed_inj [OF req.ok_keyed [OF ok] q(1) r(1)] q(2) by simp
      with t have "settles ?d ?t (accepted_row (p_id posted) q)" by (simp add: settles_def accepted_row_def)
      then show ?thesis by (simp add: R)
    qed
    show "r_settled_transfer_id q \<noteq> Some (p_id posted)" if "q \<in> set (requests_t (data s))" for q
      using req.paid_by_less [OF ok that] d2(2) s1 by auto
  qed (auto simp: R accepted_row_def accepted_def request_well_def d2(2) s1)
  then show "requests_ok (data s')" using lg by (rule requests_ok_logged)
qed

end
