(* ===== verification/Allocate.thy ===== *)
theory Allocate
  imports Errors
begin

text \<open>
  \<open>shared/allocate.ts\<close>: splitting an amount into whole poisha, evenly and by weight.
\<close>

text \<open>BigInt division and remainder truncate towards zero.\<close>

definition big_div :: "int \<Rightarrow> int \<Rightarrow> int" where
  "big_div a b = sgn a * sgn b * (\<bar>a\<bar> div \<bar>b\<bar>)"

definition big_rem :: "int \<Rightarrow> int \<Rightarrow> int" where
  "big_rem a b = a - big_div a b * b"

definition allocate_evenly :: "int \<Rightarrow> int \<Rightarrow> exn + int list" where
  "allocate_evenly totalMinor parts =
     (if parts \<le> 0 then Inl (JsError None ''Cannot split between nobody'')
      else if totalMinor < 0 then Inl (JsError None ''Cannot split a negative amount'')
      else
        (let base = big_div totalMinor parts;
             remainder = big_rem totalMinor parts
         in Inr (map (\<lambda>index. if int index < remainder then base + 1 else base)
                   [0..<nat parts])))"

text \<open>
  The comparison of \<open>remainders.sort\<close>: larger remainder first, then position. The array is in
  position order and the sort is stable, so sorting by the negated remainder gives the same
  order.
\<close>

definition by_remainder :: "(nat \<times> int) list \<Rightarrow> (nat \<times> int) list" where
  "by_remainder rs = sort_key (\<lambda>(_, remainder). - remainder) rs"

fun hand_out :: "(nat \<times> int) list \<Rightarrow> int \<Rightarrow> int list \<Rightarrow> int list" where
  "hand_out [] leftover shares = shares"
| "hand_out ((index, _) # rs) leftover shares =
     (if leftover \<le> 0 then shares
      else hand_out rs (leftover - 1) (shares[index := shares ! index + 1]))"

definition allocate_by_weight :: "int \<Rightarrow> int list \<Rightarrow> exn + int list" where
  "allocate_by_weight totalMinor weights =
     (if weights = [] then Inl (JsError None ''Cannot split between nobody'')
      else if list_ex (\<lambda>w. w < 0) weights then Inl (JsError None ''A weight cannot be negative'')
      else
        (let totalWeight = foldl (+) 0 weights in
         if totalWeight = 0 then allocate_evenly totalMinor (int (length weights))
         else
           (let shares = map (\<lambda>weight. big_div (totalMinor * weight) totalWeight) weights;
                remainders = map (\<lambda>(index, weight). (index, big_rem (totalMinor * weight) totalWeight))
                               (enumerate 0 weights);
                leftover = totalMinor - foldl (+) 0 shares
            in Inr (hand_out (by_remainder remainders) leftover shares))))"

section \<open>Even shares\<close>

lemma big_div_nonneg: "0 \<le> a \<Longrightarrow> 0 < b \<Longrightarrow> big_div a b = a div b"
  by (cases "a = 0") (simp_all add: big_div_def)

lemma big_rem_nonneg: "0 \<le> a \<Longrightarrow> 0 < b \<Longrightarrow> big_rem a b = a mod b"
  by (simp add: big_rem_def big_div_nonneg minus_div_mult_eq_mod)

lemma even_shares_sum:
  "r \<le> n \<Longrightarrow>
   sum_list (map (\<lambda>i. if i < r then b + 1 else b) [0..<n]) = int n * b + int r"
proof (induction n arbitrary: r)
  case (Suc n)
  show ?case
  proof (cases "r = Suc n")
    case True
    have e: "map (\<lambda>i. if i < r then b + 1 else b) [0..<n] = map (\<lambda>i. if i < n then b + 1 else b) [0..<n]"
      using True by (intro map_cong) auto
    have "sum_list (map (\<lambda>i. if i < r then b + 1 else b) [0..<n]) = int n * b + int n"
      unfolding e using Suc.IH [of n] by simp
    with True show ?thesis by (simp add: algebra_simps)
  next
    case False
    with Suc.prems Suc.IH [of r] show ?thesis by (simp add: algebra_simps)
  qed
qed simp

lemma allocate_evenly_ok:
  assumes "0 \<le> t" "0 < n"
  obtains s where "allocate_evenly t n = Inr s" "int (length s) = n" "sum_list s = t"
    and "\<And>x. x \<in> set s \<Longrightarrow> x = t div n \<or> x = t div n + 1"
proof -
  let ?s = "map (\<lambda>i. if i < nat (t mod n) then t div n + 1 else t div n) [0..<nat n]"
  have r: "0 \<le> t mod n" "t mod n < n" using assms by simp_all
  have "map (\<lambda>i. if int i < t mod n then t div n + 1 else t div n) [0..<nat n] = ?s"
    using r by (intro map_cong) auto
  then have "allocate_evenly t n = Inr ?s"
    using assms by (simp add: allocate_evenly_def big_div_nonneg big_rem_nonneg Let_def)
  moreover have "sum_list ?s = t"
    using even_shares_sum [of "nat (t mod n)" "nat n" "t div n"] assms r
    by (simp add: mult.commute nat_le_iff)
  moreover have "\<And>x. x \<in> set ?s \<Longrightarrow> x = t div n \<or> x = t div n + 1" by auto
  ultimately show thesis using that assms by simp
qed

section \<open>Weighted shares\<close>

lemma length_hand_out [simp]: "length (hand_out rs l s) = length s"
  by (induction rs l s rule: hand_out.induct) auto

lemma sum_list_bump: "i < length s \<Longrightarrow> sum_list (s[i := s ! i + 1]) = sum_list s + (1 :: int)"
  by (induction s arbitrary: i) (auto split: nat.splits)

lemma hand_out_sum:
  "distinct (map fst rs) \<Longrightarrow> (\<And>p. p \<in> set rs \<Longrightarrow> fst p < length s) \<Longrightarrow>
   0 \<le> l \<Longrightarrow> l \<le> int (length rs) \<Longrightarrow> sum_list (hand_out rs l s) = sum_list s + l"
proof (induction rs l s rule: hand_out.induct)
  case (2 i x rs l s)
  then have "i < length s" by force
  then have "sum_list (s[i := s ! i + 1]) = sum_list s + 1"
    by (rule sum_list_bump)
  with 2 show ?case by force
qed auto

text \<open>The leftover goes to the first positions of the order it is handed out in, one poisha each.\<close>

lemma hand_out_nth:
  "distinct (map fst rs) \<Longrightarrow> (\<And>p. p \<in> set rs \<Longrightarrow> fst p < length s) \<Longrightarrow> j < length s \<Longrightarrow>
   hand_out rs l s ! j = s ! j + (if j \<in> fst ` set (take (nat l) rs) then 1 else 0)"
proof (induction rs l s rule: hand_out.induct)
  case (2 i x rs l s)
  show ?case
  proof (cases "l \<le> 0")
    case False
    have p: "\<And>p. p \<in> set rs \<Longrightarrow> fst p < length (s[i := s ! i + 1])"
      using 2(3) by auto
    have i: "i \<notin> fst ` set rs" "i < length s" using 2(2,3) by force+
    then have "i \<notin> fst ` set (take (nat (l - 1)) rs)" by (auto dest: in_set_takeD)
    moreover have "nat l = Suc (nat (l - 1))" using False by simp
    ultimately show ?thesis
      using 2(1) [OF False _ p] 2(2,4) False i by (cases "j = i") auto
  qed auto
qed auto

lemma sum_list_div_mod:
  "sum_list (map (\<lambda>w. t * w div W) ws) * W + sum_list (map (\<lambda>w. t * w mod W) ws) = t * sum_list ws"
  for t W :: int
proof (induction ws)
  case (Cons w ws)
  have "t * w div W * W + t * w mod W = t * w" by simp
  moreover have "sum_list (map (\<lambda>w. t * w div W) (w # ws)) * W =
      t * w div W * W + sum_list (map (\<lambda>w. t * w div W) ws) * W"
    by (simp add: distrib_right)
  moreover have "t * sum_list (w # ws) = t * w + t * sum_list ws" by (simp add: distrib_left)
  ultimately show ?case using Cons.IH by simp
qed simp

lemma sum_list_mod_bound:
  "0 < (W::int) \<Longrightarrow> ws \<noteq> [] \<Longrightarrow>
   0 \<le> sum_list (map (\<lambda>w. f w mod W) ws) \<and> sum_list (map (\<lambda>w. f w mod W) ws) < int (length ws) * W"
proof (induction ws)
  case (Cons w ws)
  have "0 \<le> f w mod W" "f w mod W < W" using Cons.prems by simp_all
  with Cons show ?case by (cases "ws = []") (auto simp: algebra_simps)
qed simp

text \<open>The order the leftover is handed out in is a permutation of the positions.\<close>

lemma by_remainder_perm:
  assumes "map fst rs = [0..<n]"
  shows "distinct (map fst (by_remainder rs))" and "length (by_remainder rs) = n"
    and "p \<in> set (by_remainder rs) \<Longrightarrow> fst p < n"
proof -
  have m: "mset (map fst (by_remainder rs)) = mset [0..<n]"
    by (simp add: by_remainder_def flip: assms)
  then show "distinct (map fst (by_remainder rs))"
    by (metis distinct_upt mset_eq_imp_distinct_iff)
  from m show "length (by_remainder rs) = n"
    by (metis length_map mset_eq_length length_upt diff_zero)
  have "set (map fst (by_remainder rs)) = {0..<n}" by (metis m mset_eq_setD set_upt)
  then show "p \<in> set (by_remainder rs) \<Longrightarrow> fst p < n" by auto
qed

text \<open>It is the order of the remainders, the largest first, and of the positions among equal ones.\<close>

abbreviation earlier :: "nat \<times> int \<Rightarrow> nat \<times> int \<Rightarrow> bool" where
  "earlier p q \<equiv> snd q < snd p \<or> (snd q = snd p \<and> fst p < fst q)"

lemma insort_earlier:
  assumes "sorted_wrt earlier rs" and "\<forall>q\<in>set rs. fst p < fst q"
  shows "sorted_wrt earlier (insort_key (\<lambda>(_, r). - r) p rs)"
  using assms by (induction rs) (auto simp: split_beta set_insort_key)

lemma by_remainder_sorted:
  assumes "sorted_wrt (<) (map fst rs)"
  shows "sorted_wrt earlier (by_remainder rs)"
  using assms
proof (induction rs)
  case (Cons p rs)
  then have "sorted_wrt earlier (by_remainder rs)" "\<forall>q\<in>set (by_remainder rs). fst p < fst q"
    by (auto simp: by_remainder_def)
  from insort_earlier [OF this] show ?case by (simp add: by_remainder_def)
qed (simp add: by_remainder_def)

lemma by_remainder_first:
  assumes "sorted_wrt (<) (map fst rs)" and "p \<in> set (take k (by_remainder rs))" and "q \<in> set (drop k (by_remainder rs))"
  shows "earlier p q"
  using by_remainder_sorted [OF assms(1)] assms(2,3) sorted_wrt_append [of earlier "take k (by_remainder rs)" "drop k (by_remainder rs)"]
  by simp

text \<open>The computation when every quantity has the expected sign.\<close>

definition weighted_floor :: "int \<Rightarrow> int list \<Rightarrow> int list" where
  "weighted_floor t ws = map (\<lambda>w. t * w div sum_list ws) ws"

definition weighted_rest :: "int \<Rightarrow> int list \<Rightarrow> (nat \<times> int) list" where
  "weighted_rest t ws = map (\<lambda>(i, w). (i, t * w mod sum_list ws)) (enumerate 0 ws)"

lemma allocate_by_weight_eq:
  assumes t: "0 \<le> t" and ws: "\<And>w. w \<in> set ws \<Longrightarrow> 0 \<le> w" and W: "0 < sum_list ws"
  shows "allocate_by_weight t ws =
     Inr (hand_out (by_remainder (weighted_rest t ws)) (t - sum_list (weighted_floor t ws))
       (weighted_floor t ws))"
proof -
  have ne: "ws \<noteq> []" using W by auto
  have nn: "\<not> list_ex (\<lambda>w. w < 0) ws" using ws by (force simp: list_ex_iff)
  have d: "big_div (t * w) (sum_list ws) = t * w div sum_list ws"
    and r: "big_rem (t * w) (sum_list ws) = t * w mod sum_list ws" if "w \<in> set ws" for w
    using that t ws W by (simp_all add: big_div_nonneg big_rem_nonneg)
  have q: "map (\<lambda>w. big_div (t * w) (sum_list ws)) ws = weighted_floor t ws"
    unfolding weighted_floor_def by (rule map_cong [OF refl d])
  have m: "snd p \<in> set ws" if "p \<in> set (enumerate 0 ws)" for p
    using that by (simp add: in_set_enumerate_eq) (metis nth_mem)
  have z: "map (\<lambda>(i, w). (i, big_rem (t * w) (sum_list ws))) (enumerate 0 ws) = weighted_rest t ws"
    unfolding weighted_rest_def by (rule map_cong [OF refl]) (simp add: split_beta r m)
  have "sum_list ws \<noteq> 0" using W by simp
  then show ?thesis
    unfolding allocate_by_weight_def Let_def foldl_sum add_0 q z
    by (simp only: ne nn if_False)
qed

lemma weighted_rest_fst: "map fst (weighted_rest t ws) = [0..<length ws]"
  by (simp add: weighted_rest_def comp_def split_beta map_fst_enumerate)

lemma weighted_leftover_sum: "(t - sum_list (weighted_floor t ws)) * sum_list ws = sum_list (map snd (weighted_rest t ws))"
proof -
  have "map snd (weighted_rest t ws) = map (\<lambda>w. t * w mod sum_list ws) ws"
    by (rule nth_equalityI) (simp_all add: weighted_rest_def split_beta nth_enumerate_eq)
  then show ?thesis
    using sum_list_div_mod [of t "sum_list ws" ws] by (simp add: weighted_floor_def left_diff_distrib)
qed

lemma weighted_rest_mem:
  "p \<in> set (weighted_rest t ws) \<longleftrightarrow> fst p < length ws \<and> snd p = t * ws ! fst p mod sum_list ws"
  by (cases p) (auto simp: weighted_rest_def in_set_enumerate_eq image_iff intro!: bexI [of _ "(fst p, ws ! fst p)"])

lemma weighted_leftover:
  assumes W: "0 < sum_list ws"
  shows "0 \<le> t - sum_list (weighted_floor t ws)" and "t - sum_list (weighted_floor t ws) \<le> int (length ws)"
proof -
  let ?W = "sum_list ws" and ?l = "t - sum_list (weighted_floor t ws)"
  have ne: "ws \<noteq> []" using W by auto
  have "?l * ?W = sum_list (map (\<lambda>w. t * w mod ?W) ws)"
    using sum_list_div_mod [of t ?W ws] by (simp add: weighted_floor_def left_diff_distrib)
  then have l: "0 \<le> ?l * ?W" "?l * ?W < int (length ws) * ?W"
    using sum_list_mod_bound [OF W ne, of "\<lambda>w. t * w"] by simp_all
  show "0 \<le> ?l" using l(1) W by (metis zero_le_mult_iff not_le)
  show "?l \<le> int (length ws)" using l(2) W by (metis mult_less_cancel_right_pos less_imp_le)
qed

text \<open>Who gets a poisha of the leftover has a positive remainder: the leftover is less than their number.\<close>

lemma leftover_positive:
  assumes W: "0 < sum_list ws" and p: "p \<in> set (take (nat (t - sum_list (weighted_floor t ws))) (by_remainder (weighted_rest t ws)))"
  shows "0 < snd p"
proof (rule ccontr)
  let ?W = "sum_list ws" and ?l = "t - sum_list (weighted_floor t ws)" and ?rs = "by_remainder (weighted_rest t ws)"
  assume n: "\<not> 0 < snd p"
  have mem: "0 \<le> snd q \<and> snd q < ?W" if "q \<in> set ?rs" for q
    using that W by (auto simp: by_remainder_def weighted_rest_mem)
  have srt: "sorted_wrt (<) (map fst (weighted_rest t ws))" by (simp add: weighted_rest_fst)
  have "snd q = 0" if "q \<in> set (drop (nat ?l) ?rs)" for q
    using by_remainder_first [OF srt p that] n mem [of q] in_set_dropD [OF that] by auto
  then have "map snd (drop (nat ?l) ?rs) = map (\<lambda>_. 0) (drop (nat ?l) ?rs)" by (intro map_cong) auto
  then have z: "sum_list (map snd (drop (nat ?l) ?rs)) = 0" by (metis sum_list_0)
  have "sum_list (map snd (take (nat ?l) ?rs)) \<le> sum_list (map (\<lambda>_. ?W - 1) (take (nat ?l) ?rs))"
    using mem by (intro sum_list_mono) (auto dest!: in_set_takeD)
  moreover have len: "length (take (nat ?l) ?rs) = nat ?l"
    using by_remainder_perm(2) [OF weighted_rest_fst [of t ws]] weighted_leftover [OF W, of t] by simp
  ultimately have "sum_list (map snd (take (nat ?l) ?rs)) \<le> ?l * (?W - 1)"
    using weighted_leftover(1) [OF W, of t] by (simp add: sum_list_triv)
  moreover have "sum_list (map snd ?rs) = sum_list (map snd (take (nat ?l) ?rs)) + sum_list (map snd (drop (nat ?l) ?rs))"
    by (metis append_take_drop_id map_append sum_list_append)
  moreover have "mset (map snd ?rs) = mset (map snd (weighted_rest t ws))" by (simp add: by_remainder_def)
  then have "sum_list (map snd ?rs) = ?l * ?W"
    unfolding weighted_leftover_sum by (metis sum_mset_sum_list)
  ultimately have "?l * ?W \<le> ?l * (?W - 1)" using z by simp
  then have "?l \<le> 0" by (simp add: right_diff_distrib)
  with p show False by simp
qed

text \<open>A share is rounded down, or up when it is its turn: the largest remainders first.\<close>

definition largest_remainders :: "int \<Rightarrow> int list \<Rightarrow> int list \<Rightarrow> bool" where
  "largest_remainders t ws s \<longleftrightarrow>
     (\<forall>i < length ws. s ! i = t * ws ! i div sum_list ws \<or>
        (s ! i = t * ws ! i div sum_list ws + 1 \<and> 0 < t * ws ! i mod sum_list ws)) \<and>
     (\<forall>i < length ws. \<forall>j < length ws. s ! i = t * ws ! i div sum_list ws + 1 \<and> s ! j = t * ws ! j div sum_list ws \<longrightarrow>
        t * ws ! j mod sum_list ws < t * ws ! i mod sum_list ws \<or>
        (t * ws ! j mod sum_list ws = t * ws ! i mod sum_list ws \<and> i < j))"

lemma allocate_by_weight_ok:
  assumes t: "0 \<le> t" and ws: "\<And>w. w \<in> set ws \<Longrightarrow> 0 \<le> w" and W: "0 < sum_list ws"
  obtains s where "allocate_by_weight t ws = Inr s" "length s = length ws" "sum_list s = t" "largest_remainders t ws s"
proof -
  let ?q = "weighted_floor t ws" and ?rs = "by_remainder (weighted_rest t ws)"
  let ?l = "t - sum_list ?q"
  let ?s = "hand_out ?rs ?l ?q"
  note p = by_remainder_perm [OF weighted_rest_fst [of t ws]]
  have srt: "sorted_wrt (<) (map fst (weighted_rest t ws))" by (simp add: weighted_rest_fst)
  have len: "length ?q = length ws" by (simp add: weighted_floor_def)
  have sum: "sum_list ?s = t"
    using hand_out_sum [OF p(1), of ?q] p(2,3) weighted_leftover [OF W, of t] len by simp
  have nth: "?s ! i = t * ws ! i div sum_list ws + (if i \<in> fst ` set (take (nat ?l) ?rs) then 1 else 0)" if "i < length ws" for i
    using hand_out_nth [OF p(1), of ?q i ?l] p(3) len that by (simp add: weighted_floor_def)
  have at: "(i, t * ws ! i mod sum_list ws) \<in> set ?rs" if "i < length ws" for i
    using that by (simp add: by_remainder_def weighted_rest_mem)
  have rem: "0 < t * ws ! i mod sum_list ws" if "i \<in> fst ` set (take (nat ?l) ?rs)" for i
  proof -
    from that obtain p where p: "p \<in> set (take (nat ?l) ?rs)" "fst p = i" by blast
    then have "p \<in> set (weighted_rest t ws)" by (auto simp: by_remainder_def dest: in_set_takeD)
    with leftover_positive [OF W p(1)] p(2) show ?thesis by (simp add: weighted_rest_mem)
  qed
  have rem2: "snd p = t * ws ! fst p mod sum_list ws" if "p \<in> set ?rs" for p
    using that by (simp add: by_remainder_def weighted_rest_mem)
  have "largest_remainders t ws ?s"
    unfolding largest_remainders_def
  proof (intro conjI allI impI)
    fix i assume i: "i < length ws"
    show "?s ! i = t * ws ! i div sum_list ws \<or> (?s ! i = t * ws ! i div sum_list ws + 1 \<and> 0 < t * ws ! i mod sum_list ws)"
      using nth [OF i] rem [of i] by simp
  next
    fix i j assume i: "i < length ws" and j: "j < length ws"
      and "?s ! i = t * ws ! i div sum_list ws + 1 \<and> ?s ! j = t * ws ! j div sum_list ws"
    then have up: "i \<in> fst ` set (take (nat ?l) ?rs)" and down: "j \<notin> fst ` set (take (nat ?l) ?rs)"
      using nth [OF i] nth [OF j] by (auto split: if_splits)
    from up rem2 obtain r where r: "(i, r) \<in> set (take (nat ?l) ?rs)" "r = t * ws ! i mod sum_list ws"
      by (force dest: in_set_takeD)
    have "(j, t * ws ! j mod sum_list ws) \<in> set (take (nat ?l) ?rs) \<or> (j, t * ws ! j mod sum_list ws) \<in> set (drop (nat ?l) ?rs)"
      using at [OF j] by (metis Un_iff append_take_drop_id set_append)
    with down have "(j, t * ws ! j mod sum_list ws) \<in> set (drop (nat ?l) ?rs)" by force
    from by_remainder_first [OF srt r(1) this] r(2)
    show "t * ws ! j mod sum_list ws < t * ws ! i mod sum_list ws \<or>
        (t * ws ! j mod sum_list ws = t * ws ! i mod sum_list ws \<and> i < j)" by simp
  qed
  with sum show thesis using that [OF allocate_by_weight_eq [OF t ws W]] len by simp
qed

section \<open>The promises\<close>

text \<open>
  C32. An even split of a non-negative amount between n > 0 parts always succeeds; it has n
  shares, they sum to exactly the amount, and no two of them differ by more than one poisha.
\<close>

theorem even_split_exact:
  assumes "0 \<le> t" and "0 < n"
  shows "\<exists>s. allocate_evenly t n = Inr s \<and> int (length s) = n \<and> sum_list s = t \<and>
     (\<forall>x y. x \<in> set s \<and> y \<in> set s \<longrightarrow> \<bar>x - y\<bar> \<le> 1)"
proof -
  obtain s where s: "allocate_evenly t n = Inr s" "int (length s) = n" "sum_list s = t"
    and b: "\<And>x. x \<in> set s \<Longrightarrow> x = t div n \<or> x = t div n + 1"
    using allocate_evenly_ok [OF assms] by blast
  have "\<bar>x - y\<bar> \<le> 1" if "x \<in> set s" "y \<in> set s" for x y
    using b [OF that(1)] b [OF that(2)] by linarith
  with s show ?thesis by blast
qed

lemma even_split_witness: "\<exists>s. allocate_evenly 10000 3 = Inr s \<and> sum_list s = 10000"
  using even_split_exact [of 10000 3] by auto

text \<open>
  C33. A split by weights, some of them positive, always succeeds; it has one share per weight, the
  shares sum to exactly the amount, and each share is the exact proportional part rounded down, or
  rounded up where that part is not whole. Rounded up are the parts with the largest remainders, the
  first of them among equal ones.
\<close>

theorem weighted_split_exact:
  assumes "0 \<le> t" and "\<And>w. w \<in> set ws \<Longrightarrow> 0 \<le> w" and "0 < sum_list ws"
  shows "\<exists>s. allocate_by_weight t ws = Inr s \<and> length s = length ws \<and> sum_list s = t \<and>
     (\<forall>i < length ws. s ! i = t * ws ! i div sum_list ws \<or>
        (s ! i = t * ws ! i div sum_list ws + 1 \<and> 0 < t * ws ! i mod sum_list ws)) \<and>
     (\<forall>i < length ws. \<forall>j < length ws. s ! i = t * ws ! i div sum_list ws + 1 \<and> s ! j = t * ws ! j div sum_list ws \<longrightarrow>
        t * ws ! j mod sum_list ws < t * ws ! i mod sum_list ws \<or>
        (t * ws ! j mod sum_list ws = t * ws ! i mod sum_list ws \<and> i < j))"
proof -
  obtain s where s: "allocate_by_weight t ws = Inr s" "length s = length ws" "sum_list s = t" "largest_remainders t ws s"
    using allocate_by_weight_ok [OF assms] by blast
  show ?thesis by (intro exI [of _ s] conjI) (use s in \<open>simp_all add: largest_remainders_def\<close>)
qed

text \<open>Of one poisha between the weights 0, 1, 1 the first with a positive weight gets it.\<close>

lemma weighted_split_witness: "\<exists>s. allocate_by_weight 1 [0, 1, 1] = Inr s \<and> sum_list s = 1 \<and> s ! 0 = 0"
proof -
  have "0 \<le> w" if "w \<in> set [0, 1, 1 :: int]" for w using that by auto
  from weighted_split_exact [of 1 "[0, 1, 1]", OF _ this] obtain s where
    "allocate_by_weight 1 [0, 1, 1] = Inr s" "sum_list s = 1" "\<forall>i < 3. s ! i = [0, 1, 1] ! i div 2 \<or> (s ! i = [0, 1, 1] ! i div 2 + 1 \<and> (0::int) < [0, 1, 1] ! i mod 2)"
    by (auto simp: numeral_3_eq_3)
  then show ?thesis by (intro exI [of _ s]) (auto dest: spec [of _ 0])
qed

end
