(* ===== verification/Splits.thy ===== *)
theory Splits
  imports Request_Safety Allocate
begin

text \<open>
  \<open>modules/splits\<close>: a bill split into money requests, all of them or none, whose amounts and the
  creator's own share sum to the bill.
\<close>

section \<open>Repository\<close>

definition split_refused :: "split_row \<Rightarrow> db \<Rightarrow> exn option" where
  "split_refused q d =
     (if b_total_amount_minor q \<le> 0 \<or> length (b_description q) < 1 \<or> 140 < length (b_description q) \<or>
         b_participant_count q \<le> 0
      then Some (PgError CHECK_VIOLATION None)
      else if \<not> int8_range (b_total_amount_minor q) then Some (PgError ''22003'' None)
      else if \<not> user_exists (b_creator_user_id q) d then Some (PgError FOREIGN_KEY_VIOLATION None)
      else None)"

definition insert_split :: "uuid \<Rightarrow> int \<Rightarrow> string \<Rightarrow> int \<Rightarrow> split_row tx" where
  "insert_split creatorUserId totalAmountMinor description participantCount = query (\<lambda>env d.
     (let q = \<lparr>b_id = next_uuid d, b_creator_user_id = creatorUserId, b_total_amount_minor = totalAmountMinor,
               b_description = description, b_participant_count = participantCount,
               b_created_at = now env\<rparr> in
      case split_refused q d of
        Some e \<Rightarrow> Inl e
      | None \<Rightarrow> Inr (q, d\<lparr>splits_t := splits_t d @ [q], next_uuid := Suc (next_uuid d)\<rparr>)))"

definition find_split :: "uuid \<Rightarrow> split_row option tx" where
  "find_split i = select (\<lambda>_ d. select_first (\<lambda>q. b_id q = i) (splits_t d))"

record split_leg =
  leg_request_id :: uuid
  leg_payer :: uuid
  leg_name :: string
  leg_phone :: string
  leg_amount :: int
  leg_status :: request_status
  leg_reference :: "string option"

text \<open>The legs in the order of the payers' names, then of the request ids.\<close>

definition leg_of :: "db \<Rightarrow> request_row \<Rightarrow> split_leg" where
  "leg_of d r = (case user_names (find_user_by_id (r_payer_user_id r) d) of (name, phone) \<Rightarrow>
     \<lparr>leg_request_id = r_id r, leg_payer = r_payer_user_id r, leg_name = name, leg_phone = phone,
      leg_amount = r_amount_minor r, leg_status = r_status r, leg_reference = settled_reference d r\<rparr>)"

definition legs_of :: "uuid \<Rightarrow> db \<Rightarrow> split_leg list" where
  "legs_of splitId d =
     sort_key leg_name (sort_key leg_request_id
       (map (leg_of d) (filter (\<lambda>r. r_split_id r = Some splitId \<and> user_exists (r_payer_user_id r) d)
          (requests_t d))))"

definition list_legs :: "uuid \<Rightarrow> split_leg list tx" where
  "list_legs splitId = select (\<lambda>_ d. legs_of splitId d)"

record split_summary =
  ss_split :: split_row
  ss_requested :: int
  ss_collected :: int
  ss_outstanding :: int
  ss_settled_count :: nat
  ss_leg_count :: nat

definition split_summary_of :: "db \<Rightarrow> split_row \<Rightarrow> split_summary" where
  "split_summary_of d q =
     (let legs = filter (\<lambda>r. r_split_id r = Some (b_id q)) (requests_t d);
          settled = filter (\<lambda>r. r_status r = R_ACCEPTED) legs;
          requested = sum_list (map r_amount_minor legs);
          collected = sum_list (map r_amount_minor settled)
      in \<lparr>ss_split = q, ss_requested = requested, ss_collected = collected,
          ss_outstanding = requested - collected, ss_settled_count = length settled,
          ss_leg_count = length legs\<rparr>)"

text \<open>\<open>ORDER BY created_at DESC\<close> leaves the order of equal times open; the model takes the last.\<close>

definition list_splits_rows :: "uuid \<Rightarrow> nat \<Rightarrow> split_summary list tx" where
  "list_splits_rows creatorUserId limit = select (\<lambda>_ d.
     map (split_summary_of d)
       (take limit (rev (sort_key b_created_at
          (filter (\<lambda>q. b_creator_user_id q = creatorUserId) (splits_t d))))))"

section \<open>Service\<close>

record participant =
  pt_phone :: string
  pt_weight :: "int option"

record create_split_input =
  cs_total :: int
  cs_description :: string
  cs_participants :: "participant list"
  cs_include_self :: bool
  cs_self_weight :: int
  cs_expires_in_days :: int

definition split_allocate :: "create_split_input \<Rightarrow> exn + int list" where
  "split_allocate input =
     (if list_all (\<lambda>p. pt_weight p \<noteq> None) (cs_participants input)
      then
        (let weights = map (\<lambda>p. the (pt_weight p)) (cs_participants input) in
         allocate_by_weight (cs_total input)
           (if cs_include_self input then cs_self_weight input # weights else weights))
      else
        allocate_evenly (cs_total input)
          (int (length (cs_participants input)) + (if cs_include_self input then 1 else 0)))"

definition leg_dto :: "split_leg \<Rightarrow> json" where
  "leg_dto l = JObj [(''requestId'', JStr (uuid_text (leg_request_id l))),
     (''payer'', JObj [(''name'', JStr (leg_name l)), (''phone'', JStr (leg_phone l))]),
     (''amount'', money (leg_amount l)), (''status'', JStr (request_status_text (leg_status l))),
     (''settledReference'', jopt (leg_reference l))]"

definition split_dto :: "split_row \<Rightarrow> split_leg list \<Rightarrow> json" where
  "split_dto q legs =
     (let requested = foldl (\<lambda>s l. s + leg_amount l) 0 legs;
          collected = foldl (\<lambda>s l. s + leg_amount l) 0 (filter (\<lambda>l. leg_status l = R_ACCEPTED) legs)
      in JObj [
        (''id'', JStr (uuid_text (b_id q))), (''description'', JStr (b_description q)),
        (''total'', money (b_total_amount_minor q)),
        (''yourShare'', money (b_total_amount_minor q - requested)),
        (''requested'', money requested), (''collected'', money collected),
        (''outstanding'', money (requested - collected)),
        (''participantCount'', jint (b_participant_count q)),
        (''createdAt'', JStr (iso_string (date_of_micros (b_created_at q)))),
        (''legs'', JArr (map leg_dto legs))])"

text \<open>The dash of two messages, as its UTF-8 bytes.\<close>

definition em_dash :: string where
  "em_dash = [CHR 0xE2, CHR 0x80, CHR 0x94]"

definition CREATE_SPLIT_ENDPOINT :: string where
  "CREATE_SPLIT_ENDPOINT = ''POST /api/v1/splits''"

definition resolve_payer :: "uuid \<Rightarrow> participant \<Rightarrow> payee_account tx" where
  "resolve_payer creatorUserId p =
     tx_bind (find_payee_by_phone (pt_phone p)) (\<lambda>found.
     tx_bind (the_or (not_found (''User '' @ pt_phone p)) found) (\<lambda>payer.
     tx_bind (throw_if (pa_user_status payer \<noteq> U_ACTIVE) (not_found (''User '' @ pt_phone p))) (\<lambda>_.
     tx_bind (throw_if (pa_user_id payer = creatorUserId)
       (validation (''You cannot request your own share '' @ em_dash @ '' use includeSelf instead'') [])) (\<lambda>_.
     tx_return payer))))"

text \<open>One leg: the request and the event an ordinary request emits.\<close>

definition create_leg ::
  "uuid \<Rightarrow> user_row \<Rightarrow> create_split_input \<Rightarrow> split_row \<Rightarrow> millis \<Rightarrow> payee_account \<times> int \<Rightarrow> split_leg tx" where
  "create_leg creatorUserId creator input q expiresAt = (\<lambda>(payer, amountMinor).
     tx_bind (insert_request creatorUserId (pa_user_id payer) amountMinor (Some (cs_description input))
       expiresAt (Some (b_id q))) (\<lambda>created.
     tx_bind (enqueue_event
       \<lparr>ev_type = ''REQUEST_CREATED'', ev_aggregate_type = ''money_request'', ev_aggregate_id = r_id created,
        ev_payload = JObj [(''requestId'', JStr (uuid_text (r_id created))),
          (''requesterUserId'', JStr (uuid_text creatorUserId)), (''requesterName'', JStr (u_name creator)),
          (''payerUserId'', JStr (uuid_text (pa_user_id payer))), (''amountMinor'', JStr (int_text amountMinor)),
          (''note'', JStr (cs_description input)), (''splitId'', JStr (uuid_text (b_id q)))]\<rparr>) (\<lambda>_.
     tx_return \<lparr>leg_request_id = r_id created, leg_payer = pa_user_id payer, leg_name = pa_name payer,
        leg_phone = pa_phone payer, leg_amount = amountMinor, leg_status = R_PENDING, leg_reference = None\<rparr>)))"

definition create_split_work ::
  "uuid \<Rightarrow> create_split_input \<Rightarrow> int list \<Rightarrow> request_context \<Rightarrow> uuid \<Rightarrow> (int \<times> json) tx" where
  "create_split_work creatorUserId input legShares ctx claimId =
     tx_bind (select (\<lambda>_ d. find_user_by_id creatorUserId d)) (\<lambda>q.
     tx_bind (the_or (not_found ''User'') q) (\<lambda>creator.
     tx_bind (tx_map (resolve_payer creatorUserId) (cs_participants input)) (\<lambda>payers.
     tx_bind (insert_split creatorUserId (cs_total input) (cs_description input)
       (int (length (cs_participants input)) + (if cs_include_self input then 1 else 0))) (\<lambda>split.
     tx_bind tx_env (\<lambda>env.
     tx_bind (tx_map (create_leg creatorUserId creator input split
         (date_now env + cs_expires_in_days input * 24 * 60 * 60 * 1000)) (zip payers legShares)) (\<lambda>legs.
     tx_bind (insert_audit_log (Some creatorUserId) ''SPLIT_CREATED'' ''bill_split''
       (Some (uuid_text (b_id split)))
       (JObj [(''totalAmountMinor'', JStr (int_text (cs_total input))),
              (''participantCount'', jint (b_participant_count split))]) ctx) (\<lambda>_.
     tx_return (201, JObj [(''split'', split_dto split legs)]))))))))"

definition create_split_tx ::
  "uuid \<Rightarrow> string \<Rightarrow> create_split_input \<Rightarrow> int list \<Rightarrow> json \<Rightarrow> request_context \<Rightarrow> outcome tx" where
  "create_split_tx creatorUserId idempotencyKey input legShares rawBody ctx =
     tx_bind tx_env (\<lambda>env.
     tx_bind (claim_idempotency_key creatorUserId idempotencyKey CREATE_SPLIT_ENDPOINT
       (hash_request env CREATE_SPLIT_ENDPOINT rawBody)) (\<lambda>claim.
     case claim of
       Mismatch \<Rightarrow> tx_throw idempotency_key_reuse
     | Replay st b \<Rightarrow> tx_return \<lparr>out_status = st, out_body = b, out_replayed = True\<rparr>
     | Claimed i \<Rightarrow>
         tx_bind (create_split_work creatorUserId input legShares ctx i) (\<lambda>(st, b).
         tx_bind (complete_idempotency_key i st b) (\<lambda>_.
         tx_return \<lparr>out_status = st, out_body = b, out_replayed = False\<rparr>))))"

definition leg_shares :: "create_split_input \<Rightarrow> int list \<Rightarrow> int list" where
  "leg_shares input shares = (if cs_include_self input then drop 1 shares else shares)"

definition create_split ::
  "uuid \<Rightarrow> string \<Rightarrow> create_split_input \<Rightarrow> json \<Rightarrow> request_context \<Rightarrow> env \<Rightarrow> (nat \<Rightarrow> env) \<Rightarrow> db \<Rightarrow>
   (exn + outcome \<times> hook list) \<times> db" where
  "create_split creatorUserId idempotencyKey input rawBody ctx env envs d =
     (case split_allocate input of
        Inl e \<Rightarrow> (Inl e, d)
      | Inr shares \<Rightarrow>
          if foldl (+) 0 shares \<noteq> cs_total input
          then (Inl (DomainError INTERNAL ''Split allocation did not sum to the total'' [] []), d)
          else if list_ex (\<lambda>x. x < MIN_TRANSFER_MINOR (cfg env)) (leg_shares input shares)
          then (Inl (validation (''Each share must be at least '' @ formatted (MIN_TRANSFER_MINOR (cfg env)) @
                 '' BDT '' @ em_dash @ '' split a larger amount, or between fewer people'') []), d)
          else transact (create_split_tx creatorUserId idempotencyKey input (leg_shares input shares)
                 rawBody ctx) envs d)"

section \<open>Reading\<close>

definition get_split_tx :: "uuid \<Rightarrow> uuid \<Rightarrow> json tx" where
  "get_split_tx viewerUserId splitId =
     tx_bind (find_split splitId) (\<lambda>found.
     tx_bind (the_or (not_found ''Split'') found) (\<lambda>q.
     tx_bind (list_legs splitId) (\<lambda>legs.
     tx_bind (throw_if (\<not> (b_creator_user_id q = viewerUserId \<or> list_ex (\<lambda>l. leg_payer l = viewerUserId) legs))
       (not_found ''Split'')) (\<lambda>_.
     tx_return (split_dto q legs)))))"

definition get_split :: "uuid \<Rightarrow> uuid \<Rightarrow> (nat \<Rightarrow> env) \<Rightarrow> db \<Rightarrow> (exn + json \<times> hook list) \<times> db" where
  "get_split viewerUserId splitId envs d = read_transact (get_split_tx viewerUserId splitId) envs d"

definition split_summary_dto :: "split_summary \<Rightarrow> json" where
  "split_summary_dto r = JObj [(''id'', JStr (uuid_text (b_id (ss_split r)))),
     (''description'', JStr (b_description (ss_split r))),
     (''total'', money (b_total_amount_minor (ss_split r))), (''collected'', money (ss_collected r)),
     (''outstanding'', money (ss_outstanding r)), (''settledCount'', jint (int (ss_settled_count r))),
     (''legCount'', jint (int (ss_leg_count r))),
     (''createdAt'', JStr (iso_string (date_of_micros (b_created_at (ss_split r)))))]"

definition list_splits :: "uuid \<Rightarrow> nat \<Rightarrow> (nat \<Rightarrow> env) \<Rightarrow> db \<Rightarrow> (exn + json) \<times> db" where
  "list_splits creatorUserId limit envs d =
     (case read_transact (list_splits_rows creatorUserId limit) envs d of
        (Inl e, d') \<Rightarrow> (Inl e, d')
      | (Inr (rows, _), d') \<Rightarrow> (Inr (JObj [(''items'', JArr (map split_summary_dto rows))]), d'))"

end
