(* ===== verification/Samples.thy ===== *)
theory Samples
  imports Reversal
begin

text \<open>
  A small concrete world the witnesses evaluate: one treasury stripe, two funded users, an
  environment in which nothing fails.
\<close>

definition env0 :: env where
  "env0 = \<lparr>now = 1767225600000000, date_now = 1767225600000, random = [1, 2, 3, 4, 5],
     cfg = default_config, policy = initial_policy default_config,
     sha256 = (\<lambda>s. s), argon_hash = (\<lambda>s. s), argon_verify = (\<lambda>h p. Some (h = p)),
     jwt_sign = (\<lambda>j. ''token''), random32 = [1, 2, 3], random_uuid = 77, random_jti = 78,
     random_stripe = 3, wal_lsn = ''0/1'', drawn_entries = (0, 0), drawn_audit = 0, held = [], faults = (\<lambda>_. None), connect_fault = None,
     begin_fault = None, commit_outcome = Committed\<rparr>"

definition ctx0 :: request_context where
  "ctx0 = \<lparr>ctx_ip = None, ctx_user_agent = None, ctx_request_id = None\<rparr>"

lemma env0_simps [simp]:
  "now env0 = 1767225600000000" "date_now env0 = 1767225600000"
  "cfg env0 = default_config" "policy env0 = initial_policy default_config"
  "sha256 env0 s = s" "argon_hash env0 s = s" "argon_verify env0 s p = Some (s = p)"
  "faults env0 = (\<lambda>_. None)" "connect_fault env0 = None" "begin_fault env0 = None"
  "commit_outcome env0 = Committed" "held env0 = []" "reliable env0" "random_stripe env0 = 3"
  by (simp_all add: env0_def reliable_def)

lemma default_config_simps [simp]:
  "SIGNUP_BONUS_MINOR default_config = 10000000" "MIN_TRANSFER_MINOR default_config = 100"
  "MAX_TRANSFER_MINOR default_config = 5000000" "DAILY_TRANSFER_LIMIT_MINOR default_config = 20000000"
  "REVERSAL_WINDOW_SECONDS default_config = 60" "SCHEDULE_CATCHUP_GRACE_MS default_config = 21600000"
  "SCHEDULE_MAX_ATTEMPTS default_config = 3" "SCHEDULE_RETRY_BASE_SECONDS default_config = 900"
  "MAX_PIN_ATTEMPTS default_config = 5" "PIN_LOCKOUT_MINUTES default_config = 15"
  "REFRESH_TOKEN_TTL_SECONDS default_config = 604800" "\<not> REPLICA_CONFIGURED default_config"
  "windowSeconds (initial_policy default_config) = 60" "maxTransfers (initial_policy default_config) = 3"
  "alertThresholdMinor (initial_policy default_config) = 5000000"
  by (simp_all add: default_config_def initial_policy_def)

definition user0 :: "uuid \<Rightarrow> string \<Rightarrow> string \<Rightarrow> user_row" where
  "user0 i phone name = new_user_row i phone name ''password'' ''1234'' 0"

definition account0 :: "uuid \<Rightarrow> uuid \<Rightarrow> account_row" where
  "account0 i u = bump 10000000 (new_account_row i u)"

definition mint0 :: "uuid \<Rightarrow> string \<Rightarrow> uuid \<Rightarrow> transfer_row" where
  "mint0 i ref to = \<lparr>t_id = i, t_reference = ref, t_from_account_id = 1, t_to_account_id = to,
     t_amount_minor = 10000000, t_type = MINT, t_status = T_COMPLETED, t_note = None,
     t_idempotency_key_id = None, t_reversal_of = None, t_created_at = 0\<rparr>"

text \<open>Alice is user 21 with account 31, Bob user 22 with account 32.\<close>

definition db0 :: db where
  "db0 = \<lparr>users_t = [user0 21 ''01711111111'' ''Alice'', user0 22 ''01722222222'' ''Bob''],
     accounts_t = [bump (- 20000000) (treasury_row 1), account0 31 21, account0 32 22],
     transfers_t = [mint0 41 ''M1'' 31, mint0 42 ''M2'' 32],
     entries_t = entries_of (mint0 41 ''M1'' 31) (- 10000000) 10000000 (1, 2) @
                 entries_of (mint0 42 ''M2'' 32) (- 20000000) 10000000 (3, 4),
     idem_t = [], requests_t = [], splits_t = [], schedules_t = [], occurrences_t = [],
     outbox_t = [], notifications_t = [], tokens_t = [], audit_t = [], next_uuid = 100\<rparr>"

lemma db0_simps [simp]:
  "users_t db0 = [user0 21 ''01711111111'' ''Alice'', user0 22 ''01722222222'' ''Bob'']"
  "accounts_t db0 = [bump (- 20000000) (treasury_row 1), account0 31 21, account0 32 22]"
  "transfers_t db0 = [mint0 41 ''M1'' 31, mint0 42 ''M2'' 32]"
  "idem_t db0 = []" "requests_t db0 = []" "splits_t db0 = []" "schedules_t db0 = []"
  "occurrences_t db0 = []" "outbox_t db0 = []" "tokens_t db0 = []" "audit_t db0 = []" "next_uuid db0 = 100"
  by (simp_all add: db0_def)

lemma user0_simps [simp]:
  "u_id (user0 i p n) = i" "u_phone (user0 i p n) = p" "u_name (user0 i p n) = n"
  "u_status (user0 i p n) = U_ACTIVE" "u_pin_hash (user0 i p n) = ''1234''"
  "u_failed_pin_attempts (user0 i p n) = 0" "u_pin_locked_until (user0 i p n) = None"
  by (simp_all add: user0_def new_user_row_def)

lemma account0_simps [simp]:
  "a_id (account0 i u) = i" "a_user_id (account0 i u) = Some u" "a_type (account0 i u) = USER"
  "a_status (account0 i u) = A_ACTIVE" "a_balance_minor (account0 i u) = 10000000"
  "a_version (account0 i u) = 1"
  by (simp_all add: account0_def new_account_row_def)

lemma treasury_row_simps [simp]:
  "a_id (treasury_row i) = i" "a_user_id (treasury_row i) = None" "a_type (treasury_row i) = SYSTEM"
  "a_status (treasury_row i) = A_ACTIVE" "a_balance_minor (treasury_row i) = 0"
  by (simp_all add: treasury_row_def)

lemma mint0_simps [simp]:
  "t_id (mint0 i r to) = i" "t_reference (mint0 i r to) = r" "t_from_account_id (mint0 i r to) = 1"
  "t_to_account_id (mint0 i r to) = to" "t_amount_minor (mint0 i r to) = 10000000"
  "t_type (mint0 i r to) = MINT" "t_status (mint0 i r to) = T_COMPLETED" "t_created_at (mint0 i r to) = 0"
  by (simp_all add: mint0_def)

lemma ledger_ok_db0: "ledger_ok db0"
proof -
  have e: "entries_t db0 = entries_of (mint0 41 ''M1'' 31) (- 10000000) 10000000 (1, 2) @
                 entries_of (mint0 42 ''M2'' 32) (- 20000000) 10000000 (3, 4)" by (simp add: db0_def)
  have "accounts_ok db0"
    by (simp add: accounts_ok_def owner_fits_def keyed_def entry_sum_def e signed_entries_of)
  moreover have "complete_entry t db0" if "t \<in> {mint0 41 ''M1'' 31, mint0 42 ''M2'' 32}" for t
    using that unfolding complete_entry_def e
    by (auto simp: entries_of_def)
  then have "transfers_ok db0"
    by (simp add: transfers_ok_def keyed_def account_ids_def)
  moreover have "entries_ok db0" by (auto simp: entries_ok_def e entries_of_def)
  ultimately show ?thesis by (simp add: ledger_ok_def)
qed

definition send0 :: transfer_input where
  "send0 = \<lparr>ti_to_phone = ''01722222222'', ti_amount = 2500, ti_note = None, ti_pin = ''1234''\<rparr>"

definition run_send0 :: "(exn + outcome) \<times> txs" where
  "run_send0 = send_money_tx 21 ''key-00001'' send0 JNull ctx0 env0 (begin_state db0)"

lemmas exec_ledger =
  post_double_entry_def lock_account_pair_def lock_account_def account_by_id_def add_to_balance_def
  balance_refused_def int8_range_def insert_movement_def transfer_refused_def movement_row_def

lemmas exec_common =
  claim_idempotency_key_def insert_claim_def complete_idempotency_key_def user_exists_def
  find_account_id_for_user_def find_account_by_user_id_def find_payee_by_phone_def payee_rows_def
  first_row_def outbound_in_window_def spent_since_def enqueue_event_def track_write_def
  insert_audit_log_def Let_def

lemma run_send0_ok: "\<exists>r s. run_send0 = (Inr r, s) \<and> \<not> out_replayed r \<and> \<not> aborted s"
  by (simp add: run_send0_def send_money_tx_def eval_simps send_money_work_def send_command_def
      enforce_velocity_def counted_transfer_def is_anomalous_def send0_def exec_common exec_ledger)

end
