(* ===== verification/Split_Safety.thy ===== *)
theory Split_Safety
  imports Splits Samples
begin

text \<open>
  Correctness of splits: the endpoint keeps the books, the keys and the requests, and a split
  that is created has one pending request per participant, of its share, all in one step.
\<close>

section \<open>Frames\<close>

lemma keeps_insert_split:
  "(\<And>d xs n. I d \<Longrightarrow> next_uuid d \<le> n \<Longrightarrow> I (d\<lparr>splits_t := xs, next_uuid := n\<rparr>)) \<Longrightarrow>
   keeps I (insert_split u t x n)"
  unfolding insert_split_def by (rule keeps_query) (auto simp: Let_def split: option.splits)

lemma keeps_create_leg:
  assumes "\<And>e. keeps I (enqueue_event e)"
    and "\<And>a b c n e s. keeps I (insert_request a b c n e s)"
  shows "keeps I (create_leg u creator input q e x)"
  unfolding create_leg_def by (intro keeps_intros assms)

lemma keeps_create_split_work:
  assumes "\<And>e. keeps I (enqueue_event e)"
    and "\<And>d xs. I d \<Longrightarrow> I (d\<lparr>audit_t := xs\<rparr>)"
    and "\<And>a b c n e s. keeps I (insert_request a b c n e s)"
    and "\<And>d xs n. I d \<Longrightarrow> next_uuid d \<le> n \<Longrightarrow> I (d\<lparr>splits_t := xs, next_uuid := n\<rparr>)"
  shows "keeps I (create_split_work u input shares ctx i)"
  unfolding create_split_work_def resolve_payer_def
  by (intro keeps_intros keeps_create_leg keeps_insert_split keeps_insert_audit_log assms)

lemma keeps_split_reads: "keeps I (get_split_tx u i)" "keeps I (list_splits_rows u n)"
  unfolding get_split_tx_def find_split_def list_legs_def list_splits_rows_def by (intro keeps_intros)+

interpretation create_split: idempotent_endpoint "create_split_tx u key input shares raw ctx" u key
    CREATE_SPLIT_ENDPOINT "\<lambda>env. hash_request env CREATE_SPLIT_ENDPOINT raw"
    "create_split_work u input shares ctx" for u key input shares raw ctx
proof
  show "create_split_tx u key input shares raw ctx = tx_bind tx_env (\<lambda>env.
         tx_bind (claim_idempotency_key u key CREATE_SPLIT_ENDPOINT
           (hash_request env CREATE_SPLIT_ENDPOINT raw)) (\<lambda>claim.
         case claim of
           Mismatch \<Rightarrow> tx_throw idempotency_key_reuse
         | Replay st b \<Rightarrow> tx_return \<lparr>out_status = st, out_body = b, out_replayed = True\<rparr>
         | Claimed i \<Rightarrow>
             tx_bind (create_split_work u input shares ctx i) (\<lambda>(st, b).
             tx_bind (complete_idempotency_key i st b) (\<lambda>_.
             tx_return \<lparr>out_status = st, out_body = b, out_replayed = False\<rparr>))))"
    by (simp only: create_split_tx_def)
  show "keeps (\<lambda>d. idem_t d = K \<and> n \<le> next_uuid d) (create_split_work u input shares ctx i)" for K n i
    by (rule keeps_create_split_work) (auto intro!: keeps_insert_request keeps_enqueue_event)
qed

section \<open>The legs\<close>

lemma tx_map_Inr:
  "tx_map f (x # xs) env s = (Inr ys, s') \<longleftrightarrow>
     (\<exists>y zs s1. f x env s = (Inr y, s1) \<and> tx_map f xs env s1 = (Inr zs, s') \<and> ys = y # zs)"
  by (auto simp: run_simps)

text \<open>A request of the split \<open>q\<close> as the creation leaves it.\<close>

definition fresh_leg :: "uuid \<Rightarrow> split_row \<Rightarrow> request_row \<Rightarrow> bool" where
  "fresh_leg creatorUserId q r \<longleftrightarrow>
     r_split_id r = Some (b_id q) \<and> r_status r = R_PENDING \<and> r_requester_user_id r = creatorUserId \<and>
     r_settled_transfer_id r = None"

lemma create_leg_Inr:
  assumes "create_leg u creator input q e (p, x) env s = (Inr l, s')"
  obtains r where "requests_t (data s') = requests_t (data s) @ [r]" "fresh_leg u q r"
    "r_amount_minor r = x" "r_payer_user_id r = pa_user_id p" "leg_amount l = x" "leg_status l = R_PENDING"
    "splits_t (data s') = splits_t (data s)" "accounts_t (data s') = accounts_t (data s)"
    "next_uuid (data s) \<le> next_uuid (data s')" "users_t (data s') = users_t (data s)"
  using assms
  by (auto simp: create_leg_def insert_request_def new_request_row_def fresh_leg_def run_simps Let_def
      split: option.splits)

lemma create_legs_Inr:
  assumes "tx_map (create_leg u creator input q e) zs env s = (Inr legs, s')"
  shows "\<exists>new. requests_t (data s') = requests_t (data s) @ new \<and> list_all (fresh_leg u q) new \<and>
    map r_amount_minor new = map snd zs \<and> map r_payer_user_id new = map (pa_user_id \<circ> fst) zs \<and>
    map leg_amount legs = map snd zs \<and> list_all (\<lambda>l. leg_status l = R_PENDING) legs \<and>
    splits_t (data s') = splits_t (data s) \<and> accounts_t (data s') = accounts_t (data s)"
  using assms
proof (induction zs arbitrary: s legs)
  case Nil
  then show ?case by (auto simp: run_simps)
next
  case (Cons z zs)
  obtain p x where z: "z = (p, x)" by (cases z)
  from Cons.prems obtain l ls s1 where
    l: "create_leg u creator input q e (p, x) env s = (Inr l, s1)" and
    ls: "tx_map (create_leg u creator input q e) zs env s1 = (Inr ls, s')" "legs = l # ls"
    unfolding z tx_map_Inr by blast
  from Cons.IH [OF ls(1)] obtain new where
    n: "requests_t (data s') = requests_t (data s1) @ new" "list_all (fresh_leg u q) new"
    "map r_amount_minor new = map snd zs" "map r_payer_user_id new = map (pa_user_id \<circ> fst) zs"
    "map leg_amount ls = map snd zs" "list_all (\<lambda>l. leg_status l = R_PENDING) ls"
    "splits_t (data s') = splits_t (data s1)" "accounts_t (data s') = accounts_t (data s1)" by blast
  from l show ?case
  proof (rule create_leg_Inr)
    fix r
    assume r: "requests_t (data s1) = requests_t (data s) @ [r]" "fresh_leg u q r"
      "r_amount_minor r = x" "r_payer_user_id r = pa_user_id p" "leg_amount l = x" "leg_status l = R_PENDING"
      "splits_t (data s1) = splits_t (data s)" "accounts_t (data s1) = accounts_t (data s)"
    then show ?thesis using n ls(2) by (intro exI [of _ "r # new"]) (simp add: z)
  qed
qed

lemma tx_map_length: "tx_map f xs env s = (Inr ys, s') \<Longrightarrow> length ys = length xs"
proof (induction xs arbitrary: s ys)
  case Nil
  then show ?case by (simp add: run_simps)
next
  case (Cons x xs)
  then obtain y zs s1 where "tx_map f xs env s1 = (Inr zs, s')" "ys = y # zs"
    unfolding tx_map_Inr by blast
  with Cons.IH [OF this(1)] show ?case by simp
qed

text \<open>A row is of the user with a phone number.\<close>

definition has_phone :: "db \<Rightarrow> string \<Rightarrow> uuid \<Rightarrow> bool" where
  "has_phone d phone u \<longleftrightarrow> (\<exists>w\<in>set (users_t d). u_phone w = phone \<and> u_id w = u)"

lemma resolve_payer_Inr:
  assumes "resolve_payer u p env s = (Inr x, s')"
  shows "pa_user_id x \<noteq> u \<and> has_phone (data s) (pt_phone p) (pa_user_id x) \<and> data s' = data s"
proof -
  have "first_row (payee_rows (pt_phone p) (data s)) = Some x \<and> pa_user_id x \<noteq> u \<and> data s' = data s"
    using assms by (auto simp: resolve_payer_def find_payee_by_phone_def run_simps)
  with payee_row_known [of "pt_phone p" "data s" x] show ?thesis by (auto simp: has_phone_def)
qed

lemma resolve_payers_Inr:
  "tx_map (resolve_payer u) ps env s = (Inr xs, s') \<Longrightarrow>
   list_all2 (\<lambda>x p. pa_user_id x \<noteq> u \<and> has_phone (data s) (pt_phone p) (pa_user_id x)) xs ps \<and> data s' = data s"
proof (induction ps arbitrary: s xs)
  case Nil
  then show ?case by (simp add: run_simps)
next
  case (Cons p ps)
  then obtain y ys s1 where "resolve_payer u p env s = (Inr y, s1)"
    "tx_map (resolve_payer u) ps env s1 = (Inr ys, s')" "xs = y # ys"
    unfolding tx_map_Inr by blast
  with Cons.IH [OF this(2)] resolve_payer_Inr [OF this(1)] show ?case by simp
qed

lemma insert_split_Inr:
  "insert_split u t x n env s = (Inr q, s') \<Longrightarrow>
   b_creator_user_id q = u \<and> b_total_amount_minor q = t \<and> b_id q = next_uuid (data s) \<and>
   data s' = (data s)\<lparr>splits_t := splits_t (data s) @ [q], next_uuid := Suc (next_uuid (data s))\<rparr>"
  by (auto simp: insert_split_def run_simps Let_def split: option.splits)

lemma create_split_work_Inr:
  assumes run: "create_split_work u input shares ctx i env s = (Inr (st, b), s')"
    and len: "length shares = length (cs_participants input)"
  obtains q new where "splits_t (data s') = splits_t (data s) @ [q]" "b_total_amount_minor q = cs_total input"
    "b_creator_user_id q = u" "b_id q = next_uuid (data s)"
    "requests_t (data s') = requests_t (data s) @ new" "list_all (fresh_leg u q) new"
    "map r_amount_minor new = shares"
    "list_all2 (\<lambda>r p. r_payer_user_id r \<noteq> u \<and> has_phone (data s) (pt_phone p) (r_payer_user_id r)) new (cs_participants input)"
    "accounts_t (data s') = accounts_t (data s)" "st = 201"
proof -
  from run obtain qo s11 creator s12 payers s13 q s14 legs s15 ac ty en md rid' au z5 where
    c: "select (\<lambda>_ d. find_user_by_id u d) env s = (Inr qo, s11)"
      "the_or (not_found ''User'') qo env s11 = (Inr creator, s12)" and
    p: "tx_map (resolve_payer u) (cs_participants input) env s12 = (Inr payers, s13)" and
    q: "insert_split u (cs_total input) (cs_description input)
       (int (length (cs_participants input)) + (if cs_include_self input then 1 else 0)) env s13 = (Inr q, s14)" and
    l: "tx_map (create_leg u creator input q
         (date_now env + cs_expires_in_days input * 24 * 60 * 60 * 1000)) (zip payers shares) env s14 = (Inr legs, s15)" and
    g: "insert_audit_log ac ty en md rid' au env s15 = (Inr z5, s')" and st: "st = 201"
    unfolding create_split_work_def Let_def tx_bind_Inr_iff env_Inr_iff return_Inr_iff
    by (elim exE conjE, hypsubst) (rule that, (assumption | rule refl | simp)+)
  have d12: "data s12 = data s" using c by (auto simp: run_simps)
  note P = resolve_payers_Inr [OF p] and n = tx_map_length [OF p]
  note Q = insert_split_Inr [OF q]
  from create_legs_Inr [OF l] obtain new where N: "requests_t (data s15) = requests_t (data s14) @ new"
    "list_all (fresh_leg u q) new" "map r_amount_minor new = map snd (zip payers shares)"
    "map r_payer_user_id new = map (pa_user_id \<circ> fst) (zip payers shares)"
    "splits_t (data s15) = splits_t (data s14)" "accounts_t (data s15) = accounts_t (data s14)" by blast
  note L = logged_simps [OF insert_audit_log_frame [OF g, THEN conjunct1]]
  have payers: "map r_payer_user_id new = map pa_user_id payers"
    using N(4) n len by (simp flip: map_map)
  have l: "length new = length payers" using arg_cong [OF payers, of length] by simp
  have "list_all2 (\<lambda>r p. r_payer_user_id r \<noteq> u \<and> has_phone (data s) (pt_phone p) (r_payer_user_id r)) new (cs_participants input)"
  proof (rule list_all2_all_nthI)
    show "length new = length (cs_participants input)" using l n by simp
    fix k assume k: "k < length new"
    then have "r_payer_user_id (new ! k) = pa_user_id (payers ! k)"
      using arg_cong [OF payers, of "\<lambda>xs. xs ! k"] l by simp
    with list_all2_nthD [OF conjunct1 [OF P], of k] k l d12
    show "r_payer_user_id (new ! k) \<noteq> u \<and> has_phone (data s) (pt_phone (cs_participants input ! k)) (r_payer_user_id (new ! k))" by simp
  qed
  then show thesis
    by (intro that [of q new]) (use N Q P d12 n len L st in simp_all)
qed

text \<open>The shares of a split: one per participant, and one for the creator when included.\<close>

lemma allocate_by_weight_length: "allocate_by_weight t ws = Inr s \<Longrightarrow> length s = length ws"
  by (auto simp: allocate_by_weight_def allocate_evenly_def Let_def split: if_splits)

lemma split_allocate_length:
  "split_allocate input = Inr s \<Longrightarrow>
   length s = length (cs_participants input) + (if cs_include_self input then 1 else 0)"
  by (auto simp: split_allocate_def allocate_evenly_def Let_def dest!: allocate_by_weight_length split: if_splits)

section \<open>Invariants\<close>

lemma ledger_ok_splits: "ledger_ok d \<Longrightarrow> next_uuid d \<le> n \<Longrightarrow> ledger_ok (d\<lparr>splits_t := xs, next_uuid := n\<rparr>)"
  by (erule ledger_frame, simp add: same_books_def)

lemma keeps_ledger_create_split: "keeps ledger_ok (create_split_tx u key input shares raw ctx)"
  unfolding create_split_tx_def
  by (intro keeps_intros keeps_claim_cases keeps_ledger_claim keeps_ledger_complete
      keeps_create_split_work keeps_insert_request keeps_enqueue_event ledger_frames ledger_ok_splits)

section \<open>What creating a split does\<close>

text \<open>
  C36. Creating a split that is not a replay adds one split of the bill and, in the same commit, one
  pending request to each participant, the user with the participant's phone number and never the creator,
  each of at least the minimum. The shares are those of the allocation, they sum to exactly the bill, the
  first is the creator's own when the creator is included, and the requests are for the others, in the
  order of the participants. No balance moves.
\<close>

theorem split_legs_sum_to_bill:
  assumes "create_split u key input raw ctx env envs d = (Inr (r, hs), d')" and "\<not> out_replayed r"
  shows "\<exists>q new shares own. splits_t d' = splits_t d @ [q] \<and> b_total_amount_minor q = cs_total input \<and>
     requests_t d' = requests_t d @ new \<and> length new = length (cs_participants input) \<and>
     (\<forall>x\<in>set new. fresh_leg u q x \<and> r_payer_user_id x \<noteq> u \<and> MIN_TRANSFER_MINOR (cfg env) \<le> r_amount_minor x) \<and>
     list_all2 (\<lambda>x p. has_phone d (pt_phone p) (r_payer_user_id x)) new (cs_participants input) \<and>
     split_allocate input = Inr shares \<and> sum_list shares = cs_total input \<and>
     (if cs_include_self input then own # map r_amount_minor new else map r_amount_minor new) = shares \<and>
     accounts_t d' = accounts_t d"
proof -
  from assms(1) obtain shares where sh: "split_allocate input = Inr shares" "sum_list shares = cs_total input"
    "\<not> list_ex (\<lambda>x. x < MIN_TRANSFER_MINOR (cfg env)) (leg_shares input shares)" and
    t: "transact (create_split_tx u key input (leg_shares input shares) raw ctx) envs d = (Inr (r, hs), d')"
    by (auto simp: create_split_def foldl_sum split: sum.splits if_splits)
  let ?s = "leg_shares input shares"
  from t obtain i s where run: "create_split_tx u key input ?s raw ctx (envs i) (begin_state d) = (Inr r, s)"
    and d': "d' = (if aborted s then d else data s)"
    by (rule transact_Inr) blast
  have len: "length ?s = length (cs_participants input)"
    using split_allocate_length [OF sh(1)] by (simp add: leg_shares_def)
  from run show ?thesis
  proof (cases rule: create_split.cases)
    case (replayed k)
    with assms(2) show ?thesis by simp
  next
    case (executed c s1 s2)
    have users: "has_phone (data s1) = has_phone d" using executed(3) by (simp add: has_phone_def fun_eq_iff)
    from executed(8) len obtain q new where w: "splits_t (data s2) = splits_t (data s1) @ [q]"
      "b_total_amount_minor q = cs_total input" "requests_t (data s2) = requests_t (data s1) @ new"
      "list_all (fresh_leg u q) new" "map r_amount_minor new = ?s"
      "list_all2 (\<lambda>r p. r_payer_user_id r \<noteq> u \<and> has_phone d (pt_phone p) (r_payer_user_id r)) new (cs_participants input)"
      "accounts_t (data s2) = accounts_t (data s1)"
      unfolding users [symmetric] by (rule create_split_work_Inr)
    have "(if cs_include_self input then hd shares # ?s else ?s) = shares"
      using split_allocate_length [OF sh(1)] by (cases shares) (auto simp: leg_shares_def)
    moreover have "MIN_TRANSFER_MINOR (cfg env) \<le> r_amount_minor x" if "x \<in> set new" for x
    proof -
      have "r_amount_minor x \<in> set ?s" using that unfolding w(5) [symmetric] by simp
      with sh(3) show ?thesis by (auto simp: list_ex_iff not_less)
    qed
    moreover have "length new = length (cs_participants input)" using w(5) len by (metis length_map)
    moreover have "\<forall>x\<in>set new. r_payer_user_id x \<noteq> u"
      "list_all2 (\<lambda>x p. has_phone d (pt_phone p) (r_payer_user_id x)) new (cs_participants input)"
      using w(6) by (auto simp: list_all2_conv_all_nth in_set_conv_nth)
    ultimately show ?thesis
      using w(1-5,7) executed(3,10,11) d' sh
      by (intro exI [of _ q] exI [of _ new] exI [of _ shares] exI [of _ "hd shares"]) (simp add: list_all_iff split: if_splits)
  qed
qed

definition split0 :: create_split_input where
  "split0 = \<lparr>cs_total = 9001, cs_description = ''Dinner'',
     cs_participants = [\<lparr>pt_phone = ''01722222222'', pt_weight = None\<rparr>],
     cs_include_self = True, cs_self_weight = 1, cs_expires_in_days = 7\<rparr>"

lemma split0_shares: "split_allocate split0 = Inr [4501, 4500]"
  by (simp add: split_allocate_def split0_def allocate_evenly_def big_div_def big_rem_def Let_def upt_rec)

lemma split0_run:
  "\<exists>r s. create_split_tx 21 ''key-00002'' split0 [4500] JNull ctx0 env0 (begin_state db0) = (Inr r, s) \<and>
     \<not> out_replayed r \<and> \<not> aborted s"
  by (simp add: create_split_tx_def eval_simps create_split_work_def split0_def resolve_payer_def find_user_by_id_def
      insert_split_def split_refused_def create_leg_def insert_request_def new_request_row_def request_refused_def
      exec_common int8_range_def)

lemma split_legs_witness:
  "\<exists>r hs d' q. create_split 21 ''key-00002'' split0 JNull ctx0 env0 (\<lambda>_. env0) db0 = (Inr (r, hs), d') \<and>
     splits_t d' = splits_t db0 @ [q] \<and> b_total_amount_minor q = 9001 \<and> map r_amount_minor (requests_t d') = [4500]"
proof -
  obtain r s where run: "create_split_tx 21 ''key-00002'' split0 [4500] JNull ctx0 env0 (begin_state db0) = (Inr r, s)"
    "\<not> out_replayed r" "\<not> aborted s" using split0_run by blast
  have "transact (create_split_tx 21 ''key-00002'' split0 [4500] JNull ctx0) (\<lambda>_. env0) db0 = (Inr (r, hooks s), data s)"
    by (rule transact_reliable) (use run in simp_all)
  then have c: "create_split 21 ''key-00002'' split0 JNull ctx0 env0 (\<lambda>_. env0) db0 = (Inr (r, hooks s), data s)"
    by (simp add: create_split_def split0_shares leg_shares_def) (simp add: split0_def)
  from split_legs_sum_to_bill [OF c run(2)] obtain q new own where
    "splits_t (data s) = splits_t db0 @ [q]" "b_total_amount_minor q = cs_total split0" "requests_t (data s) = requests_t db0 @ new"
    "(if cs_include_self split0 then own # map r_amount_minor new else map r_amount_minor new) = [4501, 4500]"
    unfolding split0_shares by auto
  with c show ?thesis by (auto simp: split0_def)
qed

end
