(* ===== verification/Accounts.thy ===== *)
theory Accounts
  imports Auth Requests
begin

text \<open>
  \<open>modules/accounts/account.service.ts\<close> and \<open>modules/admin/admin.service.ts\<close>: the owner's emergency
  freeze, the operator's freeze, and the search of the audit log.
\<close>

section \<open>The status of an account\<close>

definition with_status :: "account_status \<Rightarrow> account_row \<Rightarrow> account_row" where
  "with_status st a = a\<lparr>a_status := st, a_version := a_version a + 1\<rparr>"

definition lock_account_of_user :: "uuid \<Rightarrow> account_row option tx" where
  "lock_account_of_user userId =
     tx_bind (select (\<lambda>_ d. find_account_by_user_id userId d)) (\<lambda>row.
     tx_bind (note_lock (map_option a_id row)) (\<lambda>_.
     tx_return row))"

definition set_status :: "uuid \<Rightarrow> account_status \<Rightarrow> unit tx" where
  "set_status accountId st = query (\<lambda>_ d.
     Inr ((), d\<lparr>accounts_t := upd_where (\<lambda>a. a_id a = accountId) (with_status st) (accounts_t d)\<rparr>))"

section \<open>The owner's freeze\<close>

definition freeze_event :: "bool \<Rightarrow> uuid \<Rightarrow> uuid \<Rightarrow> outbox_event" where
  "freeze_event frozen userId accountId =
     \<lparr>ev_type = (if frozen then ''ACCOUNT_FROZEN'' else ''ACCOUNT_UNFROZEN''), ev_aggregate_type = ''account'',
      ev_aggregate_id = accountId,
      ev_payload = JObj [(''userId'', JStr (uuid_text userId)), (''accountId'', JStr (uuid_text accountId))]\<rparr>"

record freeze_result =
  fr_id :: uuid
  fr_status :: account_status
  fr_balance :: json
  fr_frozen :: bool

definition set_own_freeze_tx :: "uuid \<Rightarrow> bool \<Rightarrow> request_context \<Rightarrow> freeze_result tx" where
  "set_own_freeze_tx userId frozen ctx =
     tx_bind (lock_account_of_user userId) (\<lambda>row.
     tx_bind (the_or (not_found ''Account'') row) (\<lambda>account.
     tx_bind (throw_if (a_status account = A_CLOSED)
       (invalid_state ''A closed account cannot be frozen or unfrozen'' [(''status'', JStr ''CLOSED'')])) (\<lambda>_.
     (let target = (if frozen then A_FROZEN else A_ACTIVE) in
     tx_bind
       (if a_status account \<noteq> target
        then
          tx_bind (set_status (a_id account) target) (\<lambda>_.
          tx_bind (enqueue_event (freeze_event frozen userId (a_id account))) (\<lambda>_.
          insert_audit_log (Some userId) (if frozen then ''SELF_FREEZE'' else ''SELF_UNFREEZE'') ''account''
            (Some (uuid_text (a_id account)))
            (JObj [(''from'', JStr (account_status_text (a_status account))),
                   (''to'', JStr (account_status_text target))]) ctx))
        else tx_return ()) (\<lambda>_.
     tx_return \<lparr>fr_id = a_id account, fr_status = target, fr_balance = money (a_balance_minor account),
       fr_frozen = frozen\<rparr>)))))"

definition set_own_freeze ::
  "uuid \<Rightarrow> bool \<Rightarrow> string option \<Rightarrow> request_context \<Rightarrow> env \<Rightarrow> (nat \<Rightarrow> env) \<Rightarrow> (nat \<Rightarrow> env) \<Rightarrow> db \<Rightarrow>
   (exn + freeze_result \<times> hook list) \<times> db" where
  "set_own_freeze userId frozen pin ctx env penvs envs d =
     (if frozen then transact (set_own_freeze_tx userId frozen ctx) envs d
      else if pin = None \<or> pin = Some []
      then (Inl (validation ''Your PIN is required to unfreeze the account'' []), d)
      else (case verify_pin userId (the pin) env penvs d of
              (Inl e, d') \<Rightarrow> (Inl e, d')
            | (Inr _, d') \<Rightarrow> transact (set_own_freeze_tx userId frozen ctx) envs d'))"

section \<open>The operator's freeze\<close>

record status_command =
  sa_user_id :: uuid
  sa_frozen :: bool
  sa_reason :: "string option"
  sa_actor_label :: string

record account_admin_view =
  av_user_id :: uuid
  av_name :: string
  av_phone :: string
  av_account_id :: uuid
  av_status :: account_status
  av_balance :: json

definition admin_view :: "uuid \<Rightarrow> db \<Rightarrow> account_admin_view option" where
  "admin_view accountId d =
     (case account_by_id accountId d of
        None \<Rightarrow> None
      | Some a \<Rightarrow>
          (case a_user_id a of
             None \<Rightarrow> None
           | Some u \<Rightarrow>
               map_option (\<lambda>r. \<lparr>av_user_id = u, av_name = u_name r, av_phone = u_phone r,
                   av_account_id = a_id a, av_status = a_status a, av_balance = money (a_balance_minor a)\<rparr>)
                 (find_user_by_id u d)))"

text \<open>\<open>view[0]!\<close> of no row is a \<open>TypeError\<close>.\<close>

definition no_view :: exn where
  "no_view = JsError None ''Cannot read properties of undefined''"

definition set_account_status_tx :: "status_command \<Rightarrow> request_context \<Rightarrow> account_admin_view tx" where
  "set_account_status_tx input ctx =
     tx_bind (lock_account_of_user (sa_user_id input)) (\<lambda>row.
     tx_bind (the_or (not_found ''Account'') row) (\<lambda>account.
     tx_bind (throw_if (a_status account = A_CLOSED)
       (invalid_state ''A closed account cannot be reopened'' [(''status'', JStr ''CLOSED'')])) (\<lambda>_.
     tx_bind (set_status (a_id account) (if sa_frozen input then A_FROZEN else A_ACTIVE)) (\<lambda>_.
     tx_bind (insert_audit_log None (if sa_frozen input then ''ACCOUNT_FROZEN'' else ''ACCOUNT_UNFROZEN'')
       ''account'' (Some (uuid_text (a_id account)))
       (JObj [(''operator'', JStr (sa_actor_label input)), (''reason'', jopt (sa_reason input)),
              (''targetUserId'', JStr (uuid_text (sa_user_id input)))]) ctx) (\<lambda>_.
     tx_bind (select (\<lambda>_ d. admin_view (a_id account) d)) (\<lambda>view.
     the_or no_view view))))))"

definition set_account_status ::
  "status_command \<Rightarrow> request_context \<Rightarrow> (nat \<Rightarrow> env) \<Rightarrow> db \<Rightarrow> (exn + account_admin_view \<times> hook list) \<times> db" where
  "set_account_status input ctx envs d = transact (set_account_status_tx input ctx) envs d"

section \<open>The audit log\<close>

record audit_filters =
  af_actor :: "uuid option"
  af_entity :: "string option"
  af_action :: "string option"
  af_limit :: nat
  af_before :: "int option"

definition audit_matches :: "audit_filters \<Rightarrow> audit_row \<Rightarrow> bool" where
  "audit_matches f l \<longleftrightarrow>
     (case af_actor f of None \<Rightarrow> True | Some u \<Rightarrow> l_actor_user_id l = Some u) \<and>
     (case af_entity f of None \<Rightarrow> True | Some e \<Rightarrow> e = [] \<or> l_entity_id l = Some e) \<and>
     (case af_action f of None \<Rightarrow> True | Some x \<Rightarrow> x = [] \<or> l_action l = x) \<and>
     (case af_before f of None \<Rightarrow> True | Some i \<Rightarrow> int (l_id l) < i)"

definition audit_rows :: "audit_filters \<Rightarrow> audit_row list tx" where
  "audit_rows f = query (\<lambda>_ d.
     if (case af_before f of None \<Rightarrow> False | Some i \<Rightarrow> \<not> int8_range i) then Inl (PgError ''22003'' None)
     else Inr (take (af_limit f + 1) (rev (sort_key l_id (filter (audit_matches f) (audit_t d)))), d))"

definition audit_entry :: "audit_row \<Rightarrow> json" where
  "audit_entry l = JObj [
     (''id'', JStr (int_text (int (l_id l)))), (''actorUserId'', jopt (map_option uuid_text (l_actor_user_id l))),
     (''action'', JStr (l_action l)), (''entityType'', JStr (l_entity_type l)),
     (''entityId'', jopt (l_entity_id l)), (''metadata'', l_metadata l), (''ip'', jopt (l_ip l)),
     (''requestId'', jopt (l_request_id l)),
     (''createdAt'', JStr (iso_string (date_of_micros (l_created_at l))))]"

definition search_audit ::
  "audit_filters \<Rightarrow> (nat \<Rightarrow> env) \<Rightarrow> db \<Rightarrow> (exn + json list \<times> string option) \<times> db" where
  "search_audit f envs d =
     (case read_transact (audit_rows f) envs d of
        (Inl e, d') \<Rightarrow> (Inl e, d')
      | (Inr (rows, _), d') \<Rightarrow>
          (let items = take (af_limit f) rows in
           (Inr (map audit_entry items,
                 if af_limit f < length rows then Some (int_text (int (l_id (last items)))) else None), d')))"

end
