(* ===== verification/Reconciliation.thy ===== *)
theory Reconciliation
  imports Samples
begin

text \<open>
  \<open>modules/admin/reconciliation.service.ts\<close>: the checks an operator runs against the database. The
  durations of the report are left out.
\<close>

section \<open>The queries\<close>

definition net_of_accounts :: "db \<Rightarrow> int" where
  "net_of_accounts d = sum_list (map a_balance_minor (accounts_t d))"

definition drifted_accounts :: "db \<Rightarrow> (account_row \<times> int) list" where
  "drifted_accounts d =
     filter (\<lambda>(a, ledger). a_balance_minor a \<noteq> ledger)
       (map (\<lambda>a. (a, entry_sum (a_id a) d)) (accounts_t d))"

definition entries_of_transfer_row :: "transfer_row \<Rightarrow> db \<Rightarrow> entry_row list" where
  "entries_of_transfer_row t d =
     filter (\<lambda>e. e_transfer_id e = t_id t \<and> e_created_at e = t_created_at t) (entries_t d)"

text \<open>The reason of an unbalanced transfer; \<open>SUM\<close>, \<open>MIN\<close> and \<open>MAX\<close> of no rows are null.\<close>

definition unbalanced :: "transfer_row \<Rightarrow> db \<Rightarrow> string option" where
  "unbalanced t d =
     (let es = entries_of_transfer_row t d; amounts = map e_amount_minor es in
      if length es \<noteq> 2 then Some (''entry count is '' @ int_text (int (length es)))
      else if sum_list (map signed_amount es) \<noteq> 0 then Some ''entries do not net to zero''
      else if Min (set amounts) \<noteq> t_amount_minor t then Some ''entry amount <> transfer amount''
      else if Max (set amounts) \<noteq> t_amount_minor t then Some ''unknown''
      else None)"

definition unbalanced_transfers :: "db \<Rightarrow> (uuid \<times> string) list" where
  "unbalanced_transfers d =
     List.map_filter (\<lambda>t. map_option (\<lambda>reason. (t_id t, reason)) (unbalanced t d)) (transfers_t d)"

definition orphan_entries :: "db \<Rightarrow> uuid list" where
  "orphan_entries d =
     remdups (map e_transfer_id (filter (\<lambda>e. \<not> list_ex (\<lambda>t. t_id t = e_transfer_id e \<and>
       t_created_at t = e_created_at e) (transfers_t d)) (entries_t d)))"

definition negative_users :: "db \<Rightarrow> account_row list" where
  "negative_users d = filter (\<lambda>a. a_type a = USER \<and> a_balance_minor a < 0) (accounts_t d)"

definition stranded_keys :: "env \<Rightarrow> db \<Rightarrow> idem_row list" where
  "stranded_keys env d =
     filter (\<lambda>k. k_state k = IN_PROGRESS \<and> k_created_at k < now env - 60 * 1000000) (idem_t d)"

section \<open>The report\<close>

record totals =
  to_user_money :: string
  to_treasury :: string
  to_net :: string
  to_accounts :: nat
  to_transfers :: nat
  to_entries :: nat

definition read_totals :: "totals tx" where
  "read_totals = select (\<lambda>_ d.
     \<lparr>to_user_money = format_taka (sum_where (\<lambda>a. a_type a = USER) a_balance_minor (accounts_t d)),
      to_treasury = format_taka (sum_where (\<lambda>a. a_type a = SYSTEM) a_balance_minor (accounts_t d)),
      to_net = format_taka (net_of_accounts d), to_accounts = length (accounts_t d),
      to_transfers = length (transfers_t d), to_entries = length (entries_t d)\<rparr>)"

record check_result =
  ck_name :: string
  ck_pass :: bool
  ck_detail :: string
  ck_violations :: "json list"

definition timed :: "string \<Rightarrow> string \<Rightarrow> json list \<Rightarrow> check_result" where
  "timed name detail violations =
     \<lparr>ck_name = name, ck_pass = (violations = []), ck_detail = detail, ck_violations = take 20 violations\<rparr>"

definition check_conservation :: "check_result tx" where
  "check_conservation =
     tx_bind (select (\<lambda>_ d. net_of_accounts d)) (\<lambda>net.
     tx_return (timed ''conservation_of_money''
       (if net = 0 then ''Every poisha held by a user is matched by a debit against the treasury.''
        else ''Off by '' @ format_taka net @ '' BDT '' @ [CHR 0xE2, CHR 0x80, CHR 0x94] @
          '' money was created or destroyed outside the ledger.'')
       (if net = 0 then [] else [JObj [(''netMinor'', JStr (int_text net))]])))"

definition check_balances :: "check_result tx" where
  "check_balances =
     tx_bind (select (\<lambda>_ d. drifted_accounts d)) (\<lambda>rows.
     tx_return (timed ''balances_match_ledger''
       (if rows = [] then ''The cached balance column agrees with the ledger for every account.''
        else int_text (int (length rows)) @ '' account(s) have drifted from their ledger history.'')
       (map (\<lambda>(a, ledger). JObj [(''account_id'', JStr (uuid_text (a_id a))),
          (''balance_minor'', JStr (int_text (a_balance_minor a))),
          (''ledger_minor'', JStr (int_text ledger))]) rows)))"

definition check_double_entry :: "check_result tx" where
  "check_double_entry =
     tx_bind (select (\<lambda>_ d. unbalanced_transfers d)) (\<lambda>rows.
     tx_return (timed ''double_entry_complete''
       (if rows = [] then ''Every movement is a complete, balanced double entry.''
        else int_text (int (length rows)) @ '' transfer(s) are not balanced double entries.'')
       (map (\<lambda>(i, reason). JObj [(''transfer_id'', JStr (uuid_text i)), (''reason'', JStr reason)]) rows)))"

definition check_orphans :: "check_result tx" where
  "check_orphans =
     tx_bind (select (\<lambda>_ d. orphan_entries d)) (\<lambda>orphans.
     tx_bind (select (\<lambda>_ d. negative_users d)) (\<lambda>negative.
     tx_bind (select (\<lambda>env d. stranded_keys env d)) (\<lambda>stranded.
     (let violations =
        map (\<lambda>i. JObj [(''kind'', JStr ''orphan_ledger_entry''), (''transfer_id'', JStr (uuid_text i))]) orphans @
        map (\<lambda>a. JObj [(''kind'', JStr ''negative_user_balance''), (''id'', JStr (uuid_text (a_id a))),
          (''balance_minor'', JStr (int_text (a_balance_minor a)))]) negative @
        map (\<lambda>k. JObj [(''kind'', JStr ''stranded_idempotency_key''), (''id'', JStr (uuid_text (k_id k))),
          (''created_at'', JStr (iso_string (date_of_micros (k_created_at k))))]) stranded
      in tx_return (timed ''no_orphans''
        (if violations = [] then ''No orphaned entries, no negative user balances, no stranded claims.''
         else int_text (int (length violations)) @ '' structural violation(s) found.'') violations)))))"

record reconciliation_report =
  rr_checked_at :: string
  rr_totals :: totals
  rr_checks :: "check_result list"
  rr_pass :: bool

definition reconcile_tx :: "(string \<times> totals \<times> check_result list) tx" where
  "reconcile_tx =
     tx_bind read_totals (\<lambda>t.
     tx_bind check_conservation (\<lambda>c1.
     tx_bind check_balances (\<lambda>c2.
     tx_bind check_double_entry (\<lambda>c3.
     tx_bind check_orphans (\<lambda>c4.
     tx_bind tx_env (\<lambda>env.
     tx_return (iso_string (date_now env), t, [c1, c2, c3, c4])))))))"

definition reconcile :: "(nat \<Rightarrow> env) \<Rightarrow> db \<Rightarrow> (exn + reconciliation_report) \<times> db" where
  "reconcile envs d =
     (case read_transact reconcile_tx envs d of
        (Inl e, d') \<Rightarrow> (Inl e, d')
      | (Inr ((at, t, checks), _), d') \<Rightarrow>
          (Inr \<lparr>rr_checked_at = at, rr_totals = t, rr_checks = checks,
                rr_pass = list_all ck_pass checks\<rparr>, d'))"

section \<open>What a report proves\<close>

text \<open>
  Sound books, told without the queries. A transfer is posted when exactly two entries name it, both of
  its amount, one a debit and one a credit. (A transfer of nothing could be two debits; the table has
  \<open>CHECK (amount_minor > 0)\<close>.)
\<close>

definition posted_twice :: "transfer_row \<Rightarrow> db \<Rightarrow> bool" where
  "posted_twice t d \<longleftrightarrow>
     (\<exists>e f. filter (\<lambda>x. e_transfer_id x = t_id t \<and> e_created_at x = t_created_at t) (entries_t d) = [e, f] \<and>
        e_amount_minor e = t_amount_minor t \<and> e_amount_minor f = t_amount_minor t \<and>
        (t_amount_minor t = 0 \<or> e_direction e \<noteq> e_direction f))"

definition total_of :: "entry_direction \<Rightarrow> uuid \<Rightarrow> db \<Rightarrow> int" where
  "total_of dir i d = sum_list (map e_amount_minor (filter (\<lambda>e. e_account_id e = i \<and> e_direction e = dir) (entries_t d)))"

definition audited :: "env \<Rightarrow> db \<Rightarrow> bool" where
  "audited env d \<longleftrightarrow>
     sum_list (map a_balance_minor (accounts_t d)) = 0 \<and>
     (\<forall>a\<in>set (accounts_t d). a_balance_minor a = total_of CREDIT (a_id a) d - total_of DEBIT (a_id a) d) \<and>
     (\<forall>t\<in>set (transfers_t d). posted_twice t d) \<and>
     (\<forall>e\<in>set (entries_t d). \<exists>t\<in>set (transfers_t d). t_id t = e_transfer_id e \<and> t_created_at t = e_created_at e) \<and>
     (\<forall>a\<in>set (accounts_t d). a_type a = USER \<longrightarrow> 0 \<le> a_balance_minor a) \<and>
     (\<forall>k\<in>set (idem_t d). k_state k = IN_PROGRESS \<longrightarrow> now env \<le> k_created_at k + 60 * 1000000)"

lemma entry_sum_totals: "entry_sum i d = total_of CREDIT i d - total_of DEBIT i d"
proof -
  have "sum_where (\<lambda>e. e_account_id e = i) signed_amount es =
      sum_list (map e_amount_minor (filter (\<lambda>e. e_account_id e = i \<and> e_direction e = CREDIT) es)) -
      sum_list (map e_amount_minor (filter (\<lambda>e. e_account_id e = i \<and> e_direction e = DEBIT) es))" for es
    by (induction es) (auto simp: signed_amount_def split: entry_direction.split)
  then show ?thesis by (simp add: entry_sum_def total_of_def)
qed

lemma two_entries:
  assumes "es = [e, f]"
  shows "sum_list (map signed_amount es) = 0 \<and> Min (set (map e_amount_minor es)) = x \<and> Max (set (map e_amount_minor es)) = x \<longleftrightarrow>
    e_amount_minor e = x \<and> e_amount_minor f = x \<and> (x = 0 \<or> e_direction e \<noteq> e_direction f)"
  by (cases "e_direction e"; cases "e_direction f") (auto simp: assms signed_amount_def min_def max_def split: if_splits)

lemma unbalanced_None: "unbalanced t d = None \<longleftrightarrow> posted_twice t d"
proof -
  let ?es = "entries_of_transfer_row t d"
  have "unbalanced t d = None \<longleftrightarrow> length ?es = 2 \<and> sum_list (map signed_amount ?es) = 0 \<and>
      Min (set (map e_amount_minor ?es)) = t_amount_minor t \<and> Max (set (map e_amount_minor ?es)) = t_amount_minor t"
    by (simp add: unbalanced_def Let_def)
  moreover have "length ?es = 2 \<longleftrightarrow> (\<exists>e f. ?es = [e, f])" by (auto simp: numeral_2_eq_2 length_Suc_conv)
  ultimately show ?thesis
    unfolding posted_twice_def entries_of_transfer_row_def [symmetric] using two_entries [of ?es] by fastforce
qed

lemma stranded_Nil: "stranded_keys env d = [] \<longleftrightarrow>
    (\<forall>k\<in>set (idem_t d). k_state k = IN_PROGRESS \<longrightarrow> now env \<le> k_created_at k + 60 * 1000000)"
  by (auto simp: stranded_keys_def filter_empty_conv)

lemma drifted_Nil: "drifted_accounts d = [] \<longleftrightarrow> (\<forall>a\<in>set (accounts_t d). a_balance_minor a = entry_sum (a_id a) d)"
  by (auto simp: drifted_accounts_def filter_empty_conv)

lemma unbalanced_Nil: "unbalanced_transfers d = [] \<longleftrightarrow> (\<forall>t\<in>set (transfers_t d). unbalanced t d = None)"
proof -
  have "List.map_filter (\<lambda>t. map_option (f t) (g t)) ts = [] \<longleftrightarrow> (\<forall>t\<in>set ts. g t = None)"
    for f :: "transfer_row \<Rightarrow> string \<Rightarrow> uuid \<times> string" and g ts
    by (induction ts) (auto simp: map_filter_simps split: option.splits)
  then show ?thesis unfolding unbalanced_transfers_def .
qed

lemma orphans_Nil: "orphan_entries d = [] \<longleftrightarrow>
    (\<forall>e\<in>set (entries_t d). \<exists>t\<in>set (transfers_t d). t_id t = e_transfer_id e \<and> t_created_at t = e_created_at e)"
  by (auto simp: orphan_entries_def filter_empty_conv list_ex_iff)

lemma negative_Nil: "negative_users d = [] \<longleftrightarrow> (\<forall>a\<in>set (accounts_t d). a_type a = USER \<longrightarrow> 0 \<le> a_balance_minor a)"
  by (auto simp: negative_users_def filter_empty_conv not_less)

lemma timed_pass [simp]: "ck_pass (timed n x vs) \<longleftrightarrow> vs = []"
  by (simp add: timed_def)

lemma check_verdicts:
  "check_conservation env s = (Inr c, s') \<Longrightarrow>
     (ck_pass c \<longleftrightarrow> net_of_accounts (data s) = 0) \<and> data s' = data s"
  "check_balances env s = (Inr c, s') \<Longrightarrow> (ck_pass c \<longleftrightarrow> drifted_accounts (data s) = []) \<and> data s' = data s"
  "check_double_entry env s = (Inr c, s') \<Longrightarrow>
     (ck_pass c \<longleftrightarrow> unbalanced_transfers (data s) = []) \<and> data s' = data s"
  "check_orphans env s = (Inr c, s') \<Longrightarrow>
     (ck_pass c \<longleftrightarrow> orphan_entries (data s) = [] \<and> negative_users (data s) = [] \<and> stranded_keys env (data s) = []) \<and>
     data s' = data s"
  unfolding check_conservation_def check_balances_def check_double_entry_def check_orphans_def Let_def
    tx_bind_Inr_iff select_Inr_iff return_Inr_iff
  by (elim exE conjE, simp)+

lemma report_checks:
  assumes "reconcile_tx env s = (Inr (at, t, cs), s')"
  shows "(list_all ck_pass cs \<longleftrightarrow> audited env (data s)) \<and> data s' = data s"
proof -
  from assms obtain c1 c2 c3 c4 s1 s2 s3 s4 where
    t: "read_totals env s = (Inr t, s1)" and c: "check_conservation env s1 = (Inr c1, s2)"
    "check_balances env s2 = (Inr c2, s3)" "check_double_entry env s3 = (Inr c3, s4)"
    "check_orphans env s4 = (Inr c4, s')" and cs: "cs = [c1, c2, c3, c4]"
    unfolding reconcile_tx_def tx_bind_Inr_iff env_Inr_iff return_Inr_iff
    by (elim exE conjE) (rule that; simp)
  have s1: "data s1 = data s" using t by (auto simp: read_totals_def run_simps)
  note v = check_verdicts(1) [OF c(1)] check_verdicts(2) [OF c(2)] check_verdicts(3) [OF c(3)]
    check_verdicts(4) [OF c(4)]
  show ?thesis
    using v s1 by (simp add: cs audited_def drifted_Nil unbalanced_Nil unbalanced_None entry_sum_totals orphans_Nil negative_Nil stranded_Nil
        net_of_accounts_def)
qed

lemma read_transact_Inr:
  assumes "read_transact fn envs d = (Inr (a, hs), d')"
  obtains s where "fn (envs 1) (begin_state d) = (Inr a, s)" "hs = hooks s" "d' = (if aborted s then d else data s)"
  using assms unfolding read_transact_def
  by (cases rule: with_transaction_cases) (auto dest!: le_antisym)

lemma complete_balanced: "complete_entry t d \<Longrightarrow> transfers_ok d \<Longrightarrow> entries_ok d \<Longrightarrow> t \<in> set (transfers_t d) \<Longrightarrow>
    unbalanced t d = None"
proof -
  assume c: "complete_entry t d" and ok: "transfers_ok d" "entries_ok d" and t: "t \<in> set (transfers_t d)"
  have "e_created_at e = t_created_at t" if e: "e \<in> set (entries_t d)" "e_transfer_id e = t_id t" for e
  proof -
    obtain q where q: "q \<in> set (transfers_t d)" "t_id q = e_transfer_id e" "t_created_at q = e_created_at e"
      using ok(2) e(1) unfolding entries_ok_def by blast
    have "q = t" using keyed_inj [of t_id "transfers_t d" q t] ok(1) q t e(2) by (simp add: transfers_ok_def)
    with q show ?thesis by simp
  qed
  then have "entries_of_transfer_row t d = filter (\<lambda>e. e_transfer_id e = t_id t) (entries_t d)"
    unfolding entries_of_transfer_row_def by (intro filter_cong) auto
  with c obtain x y n where "entries_of_transfer_row t d = entries_of t x y n"
    unfolding complete_entry_def by auto
  then show ?thesis
    by (simp add: unbalanced_def entries_of_def signed_amount_def)
qed

lemma keys_not_stranded: "keys_ok d \<Longrightarrow> stranded_keys env d = []"
  by (auto simp: keys_ok_def completed_def stranded_keys_def filter_empty_conv)

lemma reconcile_Inr:
  assumes "reconcile envs d = (Inr r, d')"
  shows "d' = d \<and> (rr_pass r \<longleftrightarrow> audited (envs 1) d)"
proof -
  from assms obtain at t cs hs where run: "read_transact reconcile_tx envs d = (Inr ((at, t, cs), hs), d')"
    and r: "rr_pass r \<longleftrightarrow> list_all ck_pass cs"
    by (auto simp: reconcile_def split: prod.splits sum.splits)
  from run obtain s where s: "reconcile_tx (envs 1) (begin_state d) = (Inr (at, t, cs), s)"
    and d': "d' = (if aborted s then d else data s)"
    by (rule read_transact_Inr)
  show ?thesis using report_checks [OF s] d' r by simp
qed

lemma reconcile_returns:
  assumes "reliable (envs 1)"
  shows "\<exists>r d'. reconcile envs d = (Inr r, d')"
proof -
  obtain x s where s: "reconcile_tx (envs 1) (begin_state d) = (Inr x, s)" "\<not> aborted s"
    using assms by (simp add: reliable_def reconcile_tx_def read_totals_def check_conservation_def check_balances_def
        check_double_entry_def check_orphans_def Let_def eval_simps)
  have "read_transact reconcile_tx envs d = (Inr (x, hooks s), data s)"
    by (rule read_transact_reliable [where fn = reconcile_tx and envs = envs, OF assms s])
  then show ?thesis by (cases x) (simp add: reconcile_def)
qed

text \<open>Books that satisfy the ledger's invariant, with every key completed, pass every check.\<close>

lemma books_audited:
  assumes "ledger_ok d" and "keys_ok d"
  shows "audited env d"
proof -
  have ok: "accounts_ok d" "transfers_ok d" "entries_ok d" using assms(1) by (simp_all add: ledger_ok_def)
  have "unbalanced t d = None" if "t \<in> set (transfers_t d)" for t
    using complete_balanced [OF _ ok(2,3) that] ok(2) that by (simp add: transfers_ok_def)
  then show ?thesis
    using ok(1,3) keys_not_stranded [OF assms(2)]
    by (auto simp: audited_def accounts_ok_def entries_ok_def stranded_Nil unbalanced_None entry_sum_totals)
qed

lemma reconciled_books:
  assumes "ledger_ok d" and "keys_ok d" and "reconcile envs d = (Inr r, d')"
  shows "rr_pass r \<and> d' = d"
  using reconcile_Inr [OF assms(3)] books_audited [OF assms(1,2)] by simp

text \<open>
  C37. A reconciliation that returns has changed nothing, and its verdict is PASS exactly when the
  balances sum to zero, every balance is the account's credits less its debits, every transfer has
  exactly two entries, a debit and a credit of its amount, no entry is orphaned, no user is negative and
  no idempotency claim is in progress for longer than a minute. It returns whenever no statement fails.
\<close>

theorem reconcile_verdict:
  "(\<forall>r d'. reconcile envs d = (Inr r, d') \<longrightarrow> d' = d \<and> (rr_pass r \<longleftrightarrow> audited (envs 1) d)) \<and>
   (reliable (envs 1) \<longrightarrow> (\<exists>r d'. reconcile envs d = (Inr r, d')))"
  by (rule conjI, intro allI impI, erule reconcile_Inr) (rule impI, erule reconcile_returns)

text \<open>The sample database passes; with an entry of the other direction it does not.\<close>

definition flipped0 :: db where
  "flipped0 = db0\<lparr>entries_t := (case entries_t db0 of e # es \<Rightarrow> e\<lparr>e_direction := CREDIT\<rparr> # es | [] \<Rightarrow> [])\<rparr>"

lemma flipped0_unsound: "\<not> audited env0 flipped0"
  by (simp add: audited_def posted_twice_def flipped0_def db0_def entries_of_def mint0_def)

lemma reconcile_verdict_witness:
  "(\<exists>r. reconcile (\<lambda>_. env0) db0 = (Inr r, db0) \<and> rr_pass r) \<and>
   (\<exists>r. reconcile (\<lambda>_. env0) flipped0 = (Inr r, flipped0) \<and> \<not> rr_pass r)"
proof -
  have "audited env0 db0" by (rule books_audited [OF ledger_ok_db0]) (simp add: keys_ok_def)
  with reconcile_verdict [of "\<lambda>_. env0" db0] reconcile_verdict [of "\<lambda>_. env0" flipped0] flipped0_unsound
  show ?thesis by fastforce
qed

end
