(* ===== verification/Read_Router.thy ===== *)
theory Read_Router
  imports Outbox
begin

text \<open>
  \<open>platform/db/read-router.ts\<close>: a read goes to the replica, unless the position of the reader's last
  write is known and the replica does not confirm that it has replayed it. \<open>tryRedis\<close> of
  \<open>platform/cache/redis.ts\<close> gives the fallback where Redis does not answer.
\<close>

definition try_redis :: "'a option \<Rightarrow> 'a \<Rightarrow> 'a" where
  "try_redis operation fallback = (case operation of None \<Rightarrow> fallback | Some x \<Rightarrow> x)"

text \<open>
  The replica: its database, the environment of the connection to it, and its answers to
  \<open>pg_last_wal_replay_lsn() >= lsn\<close>, \<open>None\<close> where the question fails or has no answer.
\<close>

record replica =
  rp_db :: db
  rp_env :: env
  rp_replayed :: "string \<Rightarrow> bool option"

datatype served_by = Primary | Replica

definition replica_has_caught_up :: "replica \<Rightarrow> string \<Rightarrow> bool" where
  "replica_has_caught_up r lsn \<longleftrightarrow> rp_replayed r lsn = Some True"

definition on_primary :: "'a tx \<Rightarrow> (nat \<Rightarrow> env) \<Rightarrow> db \<Rightarrow> (exn + 'a \<times> served_by) \<times> db" where
  "on_primary fn envs d =
     (case read_transact fn envs d of
        (Inl e, d') \<Rightarrow> (Inl e, d')
      | (Inr (a, _), d') \<Rightarrow> (Inr (a, Primary), d'))"

text \<open>
  \<open>redis user\<close> is what Redis answers for the user's position: \<open>None\<close> when it is unavailable. The
  first read on the primary runs in \<open>envs\<close>, the retry after a failure in \<open>retry_envs\<close>.
\<close>

definition required_lsn :: "uuid option \<Rightarrow> (uuid \<Rightarrow> string option option) \<Rightarrow> string option" where
  "required_lsn userId redis =
     (case userId of None \<Rightarrow> None | Some u \<Rightarrow> try_redis (redis u) None)"

definition with_routed_read ::
  "'a tx \<Rightarrow> uuid option \<Rightarrow> (uuid \<Rightarrow> string option option) \<Rightarrow> replica option \<Rightarrow> (nat \<Rightarrow> env) \<Rightarrow> (nat \<Rightarrow> env) \<Rightarrow>
   db \<Rightarrow> (exn + 'a \<times> served_by) \<times> db" where
  "with_routed_read fn userId redis rep envs retry_envs d =
     (case rep of
        None \<Rightarrow> on_primary fn envs d
      | Some r \<Rightarrow>
          (let requiredLsn = required_lsn userId redis in
           if connect_fault (rp_env r) \<noteq> None then on_primary fn retry_envs d
           else if (case requiredLsn of None \<Rightarrow> False | Some lsn \<Rightarrow> \<not> replica_has_caught_up r lsn)
           then (case on_primary fn envs d of
                   (Inl e, d') \<Rightarrow> on_primary fn retry_envs d'
                 | (Inr x, d') \<Rightarrow> (Inr x, d'))
           else (case attempt fn (rp_env r) (rp_db r) of
                   (Inl e, _) \<Rightarrow> on_primary fn retry_envs d
                 | (Inr (a, _), _) \<Rightarrow> (Inr (a, Replica), d))))"

section \<open>What a routed read guarantees\<close>





text \<open>
  When Redis does not answer, the read of a user who has just written is served by a replica that
  has not replayed the write: no freshness check is made. (The module's comment promises the primary.)
\<close>

theorem redis_outage_reads_replica:
  assumes "redis u = None" and "connect_fault (rp_env r) = None"
    and "attempt fn (rp_env r) (rp_db r) = (Inr (a, hs), d0)"
  shows "with_routed_read fn (Some u) redis (Some r) envs retry_envs d = (Inr (a, Replica), d)"
  using assms by (simp add: with_routed_read_def required_lsn_def try_redis_def)

end
