(* ===== verification/Balance_Cache.thy ===== *)
theory Balance_Cache
  imports Accounts Read_Router
begin

text \<open>
  \<open>platform/cache/balance.cache.ts\<close>: balances cached with the version of the account row they came
  from, and the read of \<open>GET /accounts/me\<close> that consults and refills the cache. The cache maps an
  account to the text stored under its key. It has no clock: the script's \<open>EX\<close> of 30 seconds is not a part
  of \<open>cas_script\<close>, and a sequence of writes stands for one in which no key expires. Expiry, eviction and
  invalidation only remove keys, but a removed key forgets its version, and the next writer is stored
  whatever version it brings.
\<close>

type_synonym cache = "uuid \<Rightarrow> string option"

record cached_balance =
  cb_balance :: int
  cb_version :: int

section \<open>The script\<close>

text \<open>
  \<open>tonumber\<close> of decimal digits is a double: exact below \<open>2 ^ 53\<close>, above it the nearest one with 53
  significant bits, ties to even.
\<close>

fun bit_length :: "nat \<Rightarrow> nat" where
  "bit_length n = (if n = 0 then 0 else Suc (bit_length (n div 2)))"

declare bit_length.simps [simp del]

definition lua_number :: "nat \<Rightarrow> nat" where
  "lua_number n =
     (if n < 2 ^ 53 then n
      else
        (let e = bit_length n - 53; q = n div 2 ^ e; r = n mod 2 ^ e; half = 2 ^ (e - 1) in
         (if r < half \<or> (r = half \<and> even q) then q else q + 1) * 2 ^ e))"

text \<open>\<open>string.match(current, '^(%d+):')\<close>.\<close>

definition stored_version :: "string \<Rightarrow> nat option" where
  "stored_version current =
     (let ds = takeWhile is_digit current; rest = dropWhile is_digit current in
      if ds \<noteq> [] \<and> rest \<noteq> [] \<and> hd rest = CHR '':'' then Some (lua_number (digits_val ds)) else None)"

definition cache_text :: "cached_balance \<Rightarrow> string" where
  "cache_text v = int_text (cb_version v) @ CHR '':'' # int_text (cb_balance v)"

definition is_stale :: "string option \<Rightarrow> nat \<Rightarrow> bool" where
  "is_stale current version =
     (case current of
        None \<Rightarrow> False
      | Some t \<Rightarrow> (case stored_version t of None \<Rightarrow> False | Some w \<Rightarrow> lua_number version \<le> w))"

datatype write_outcome = Stored | Stale | Unavailable

definition cas_script :: "uuid \<Rightarrow> cached_balance \<Rightarrow> cache \<Rightarrow> write_outcome \<times> cache" where
  "cas_script accountId v c =
     (if is_stale (c accountId) (nat (cb_version v)) then (Stale, c)
      else (Stored, c(accountId \<mapsto> cache_text v)))"

section \<open>Reading and writing\<close>

text \<open>\<open>up\<close> says whether Redis answers.\<close>

definition parse_cached :: "string \<Rightarrow> cached_balance option" where
  "parse_cached raw =
     (if raw = [] then None
      else (case index_of CHR '':'' raw of
          None \<Rightarrow> None
        | Some separator \<Rightarrow>
            (let version = take separator raw; balance = drop (separator + 1) raw in
             if \<not> all_digits version \<or> \<not> is_int_text balance then None
             else Some \<lparr>cb_balance = big_int balance, cb_version = big_int version\<rparr>)))"

definition read_balance :: "bool \<Rightarrow> uuid \<Rightarrow> cache \<Rightarrow> cached_balance option" where
  "read_balance up accountId c =
     try_redis (if up then Some (case c accountId of None \<Rightarrow> None | Some raw \<Rightarrow> parse_cached raw) else None) None"

definition write_balance :: "bool \<Rightarrow> uuid \<Rightarrow> cached_balance \<Rightarrow> cache \<Rightarrow> write_outcome \<times> cache" where
  "write_balance up accountId v c = (if up then cas_script accountId v c else (Unavailable, c))"

definition invalidate_balance :: "bool \<Rightarrow> uuid \<Rightarrow> cache \<Rightarrow> cache" where
  "invalidate_balance up accountId c = (if up then c(accountId := None) else c)"

section \<open>The hooks of a committed transaction\<close>

text \<open>\<open>publish\<close> is what the after-commit hook of a movement does with the cache.\<close>

definition publish :: "bool \<Rightarrow> hook \<Rightarrow> cache \<Rightarrow> cache" where
  "publish up h c =
     (case h of
        PublishBalance accountId balance version \<Rightarrow>
          snd (write_balance up accountId \<lparr>cb_balance = balance, cb_version = version\<rparr> c)
      | _ \<Rightarrow> c)"

section \<open>\<open>GET /accounts/me\<close>\<close>

definition spent_any_status :: "micros \<Rightarrow> uuid \<Rightarrow> db \<Rightarrow> int" where
  "spent_any_status t accountId d =
     sum_where (\<lambda>q. t_from_account_id q = accountId \<and> limited_type (t_type q) \<and> t \<le> t_created_at q)
       t_amount_minor (transfers_t d)"

record account_view =
  vw_id :: uuid
  vw_status :: account_status
  vw_balance :: int
  vw_spent :: int
  vw_from_cache :: bool

text \<open>The account is read in \<open>env\<close>, the sum of the last day in \<open>env2\<close>.\<close>

definition my_account :: "uuid \<Rightarrow> bool \<Rightarrow> env \<Rightarrow> env \<Rightarrow> cache \<Rightarrow> db \<Rightarrow> (exn + account_view) \<times> cache" where
  "my_account userId up env env2 c d =
     (case fst (pool_query (\<lambda>_ d. Inr (find_account_by_user_id userId d, d)) env d) of
        Inl e \<Rightarrow> (Inl e, c)
      | Inr None \<Rightarrow> (Inl (not_found ''Account''), c)
      | Inr (Some a) \<Rightarrow>
          (let cached = read_balance up (a_id a) c;
               useCache = (case cached of None \<Rightarrow> False | Some x \<Rightarrow> a_version a < cb_version x);
               balance = (if useCache then cb_balance (the cached) else a_balance_minor a);
               c' = (if useCache then c
                     else snd (write_balance up (a_id a) \<lparr>cb_balance = a_balance_minor a, cb_version = a_version a\<rparr> c))
           in (case fst (pool_query (\<lambda>env d. Inr (spent_any_status (now env - 24 * 3600 * 1000000) (a_id a) d, d)) env2 d) of
                 Inl e \<Rightarrow> (Inl e, c')
               | Inr spent \<Rightarrow>
                   (Inr \<lparr>vw_id = a_id a, vw_status = a_status a, vw_balance = balance, vw_spent = spent,
                         vw_from_cache = useCache\<rparr>, c'))))"

section \<open>The cache only moves forward\<close>


lemma digits_before_colon:
  assumes "list_all is_digit ds"
  shows "takeWhile is_digit (ds @ CHR '':'' # t) = ds" and "dropWhile is_digit (ds @ CHR '':'' # t) = CHR '':'' # t"
    and "CHR '':'' \<notin> set ds"
  using assms by (induction ds) (auto simp: is_digit_def)

lemma version_text: "0 \<le> n \<Longrightarrow> int_text n = nat_text (nat n)"
  by (simp add: int_text_def)


lemma parse_cache_text: "0 \<le> cb_version v \<Longrightarrow> parse_cached (cache_text v) = Some v"
  using digits_before_colon(3) [OF nat_text_digits [of "nat (cb_version v)"]]
  by (simp add: parse_cached_def cache_text_def version_text index_of_append Let_def flip: version_text)
    (simp add: version_text)

definition plain_version :: "cached_balance \<Rightarrow> bool" where
  "plain_version v \<longleftrightarrow> 0 \<le> cb_version v \<and> cb_version v < 2 ^ 53"








text \<open>
  A removed key takes the next balance written, however old: the module's comment that a stale writer
  loses unconditionally holds until the key expires or is invalidated.
\<close>

lemma removed_key_takes_any:
  assumes "plain_version v"
  shows "read_balance True i (snd (cas_script i v (invalidate_balance True i c))) = Some v"
  using assms by (simp add: cas_script_def invalidate_balance_def is_stale_def read_balance_def try_redis_def
      parse_cache_text plain_version_def)



end
