(* ===== verification/Migrations.thy ===== *)
theory Migrations
  imports Transaction
begin

text \<open>
  \<open>platform/db/migrate.ts\<close>: the migration runner. The advisory lock makes runs one after another; a
  migration file is its name, its SQL and the checksum of the SQL. What a migration does to the
  schema is a parameter: \<open>exec\<close> gives the new schema, or the error of the server.
\<close>

record migration_file =
  mf_name :: string
  mf_sql :: string
  mf_checksum :: string

text \<open>The \<open>.sql\<close> files in the order of their names.\<close>

definition ends_with_sql :: "string \<Rightarrow> bool" where
  "ends_with_sql f \<longleftrightarrow> drop (length f - 4) f = ''.sql'' \<and> 4 \<le> length f"

definition load_migrations :: "(string \<Rightarrow> string) \<Rightarrow> (string \<times> string) list \<Rightarrow> migration_file list" where
  "load_migrations digest directory =
     map (\<lambda>(name, sql). \<lparr>mf_name = name, mf_sql = sql, mf_checksum = take 16 (digest sql)\<rparr>)
       (sort_key fst (filter (\<lambda>(name, _). ends_with_sql name) directory))"

record 'schema migrated =
  mg_schema :: 'schema
  mg_applied :: "(string \<times> string) list"

datatype migration_error = Changed string string string | Migration_Failed string

text \<open>
  \<open>seen\<close> is what the table held when the run started. A migration that fails is rolled back and
  ends the run.
\<close>

fun run_migrations ::
  "(string \<Rightarrow> 'schema \<Rightarrow> string + 'schema) \<Rightarrow> (string \<times> string) list \<Rightarrow> migration_file list \<Rightarrow>
   string list \<Rightarrow> 'schema migrated \<Rightarrow> (migration_error + string list) \<times> 'schema migrated" where
  "run_migrations exec seen [] applied s = (Inr applied, s)"
| "run_migrations exec seen (m # ms) applied s =
     (case map_of (rev seen) (mf_name m) of
        Some c \<Rightarrow>
          if c \<noteq> mf_checksum m then (Inl (Changed (mf_name m) c (mf_checksum m)), s)
          else run_migrations exec seen ms applied s
      | None \<Rightarrow>
          (case exec (mf_sql m) (mg_schema s) of
             Inl e \<Rightarrow> (Inl (Migration_Failed (mf_name m)), s)
           | Inr schema' \<Rightarrow>
               if mf_name m \<in> fst ` set (mg_applied s) then (Inl (Migration_Failed (mf_name m)), s)
               else run_migrations exec seen ms (applied @ [mf_name m])
                 \<lparr>mg_schema = schema', mg_applied = mg_applied s @ [(mf_name m, mf_checksum m)]\<rparr>))"

definition migrate ::
  "(string \<Rightarrow> 'schema \<Rightarrow> string + 'schema) \<Rightarrow> migration_file list \<Rightarrow> 'schema migrated \<Rightarrow>
   (migration_error + string list \<times> nat) \<times> 'schema migrated" where
  "migrate exec ms s =
     (case run_migrations exec (mg_applied s) ms [] s of
        (Inl e, s') \<Rightarrow> (Inl e, s')
      | (Inr applied, s') \<Rightarrow> (Inr (applied, length (remdups (map fst (mg_applied s)))), s'))"

section \<open>Running the migrations\<close>

abbreviation recorded :: "(string \<times> string) list \<Rightarrow> string \<Rightarrow> string option" where
  "recorded seen \<equiv> map_of (rev seen)"

lemma recorded_append: "recorded (xs @ [(n, c)]) = (recorded xs)(n \<mapsto> c)"
  by simp

lemma recorded_None: "n \<notin> fst ` set xs \<Longrightarrow> recorded xs n = None"
  by (simp add: map_of_eq_None_iff)

text \<open>A run only adds to the table, and when it ends well every file is in it with its checksum.\<close>

lemma run_migrations_recorded:
  assumes "run_migrations exec seen ms applied s = (r, s')"
    and "recorded seen \<subseteq>\<^sub>m recorded (mg_applied s)"
  shows "recorded (mg_applied s) \<subseteq>\<^sub>m recorded (mg_applied s')"
    and "r = Inr ap \<Longrightarrow> m \<in> set ms \<Longrightarrow> recorded (mg_applied s') (mf_name m) = Some (mf_checksum m)"
proof -
  have "recorded (mg_applied s) \<subseteq>\<^sub>m recorded (mg_applied s') \<and>
      (r = Inr ap \<longrightarrow> (\<forall>m\<in>set ms. recorded (mg_applied s') (mf_name m) = Some (mf_checksum m)))"
    using assms
  proof (induction exec seen ms applied s rule: run_migrations.induct)
    case (2 exec seen q ms applied s)
    show ?case
    proof (cases "recorded seen (mf_name q)")
      case (Some c)
      show ?thesis
      proof (cases "c = mf_checksum q")
        case True
        have run: "run_migrations exec seen ms applied s = (r, s')" using 2(3) Some True by simp
        have q: "recorded (mg_applied s) (mf_name q) = Some (mf_checksum q)"
          using 2(4) Some True by (auto simp: map_le_def dom_def)
        have "recorded (mg_applied s) \<subseteq>\<^sub>m recorded (mg_applied s') \<and>
            (r = Inr ap \<longrightarrow> (\<forall>m\<in>set ms. recorded (mg_applied s') (mf_name m) = Some (mf_checksum m)))"
          by (rule 2(2) [OF Some _ run 2(4)]) (simp add: True)
        with q show ?thesis by (auto simp: map_le_def dom_def)
      next
        case False
        with 2(3) Some show ?thesis by auto
      qed
    next
      case None
      show ?thesis
      proof (cases "exec (mf_sql q) (mg_schema s)")
        case (Inl e)
        with 2(3) None show ?thesis by auto
      next
        case (Inr sch)
        show ?thesis
        proof (cases "mf_name q \<in> fst ` set (mg_applied s)")
          case True
          with 2(3) None Inr show ?thesis by auto
        next
          case False
          let ?s = "\<lparr>mg_schema = sch, mg_applied = mg_applied s @ [(mf_name q, mf_checksum q)]\<rparr>"
          have n: "recorded (mg_applied s) (mf_name q) = None" using False by (rule recorded_None)
          have le: "recorded (mg_applied s) \<subseteq>\<^sub>m recorded (mg_applied ?s)"
            using n by (auto simp: map_le_def)
          have run: "run_migrations exec seen ms (applied @ [mf_name q]) ?s = (r, s')"
            using 2(3) None Inr False by simp
          have "recorded (mg_applied ?s) \<subseteq>\<^sub>m recorded (mg_applied s') \<and>
              (r = Inr ap \<longrightarrow> (\<forall>m\<in>set ms. recorded (mg_applied s') (mf_name m) = Some (mf_checksum m)))"
            by (rule 2(1) [OF None Inr False run map_le_trans [OF 2(4) le]])
          moreover have "recorded (mg_applied ?s) (mf_name q) = Some (mf_checksum q)" by simp
          ultimately show ?thesis using le by (auto intro: map_le_trans) (auto simp: map_le_def)
        qed
      qed
    qed
  qed auto
  then show "recorded (mg_applied s) \<subseteq>\<^sub>m recorded (mg_applied s')"
    and "r = Inr ap \<Longrightarrow> m \<in> set ms \<Longrightarrow> recorded (mg_applied s') (mf_name m) = Some (mf_checksum m)" by blast+
qed

lemma run_migrations_done:
  "(\<And>m. m \<in> set ms \<Longrightarrow> recorded seen (mf_name m) = Some (mf_checksum m)) \<Longrightarrow>
   run_migrations exec seen ms applied s = (Inr applied, s)"
  by (induction ms) auto

lemma run_migrations_changed:
  "m \<in> set ms \<Longrightarrow> recorded seen (mf_name m) = Some c \<Longrightarrow> c \<noteq> mf_checksum m \<Longrightarrow>
   \<exists>e. fst (run_migrations exec seen ms applied s) = Inl e"
  by (induction exec seen ms applied s rule: run_migrations.induct) (auto split: option.splits sum.splits)

text \<open>
  C39. After a run that succeeded, running the same files again applies nothing and changes nothing;
  and a file whose checksum differs from the recorded one makes the run fail.
\<close>

theorem migrate_once:
  assumes "migrate exec ms s = (Inr (applied, n), s')"
  shows "(\<exists>k. migrate exec ms s' = (Inr ([], k), s')) \<and>
    (\<forall>m qs. mf_name m \<in> mf_name ` set ms \<and> (\<forall>q\<in>set ms. mf_name q = mf_name m \<longrightarrow> mf_checksum q \<noteq> mf_checksum m) \<longrightarrow>
      m \<in> set qs \<longrightarrow> (\<exists>e. fst (migrate exec qs s') = Inl e))"
proof -
  obtain ap where run: "run_migrations exec (mg_applied s) ms [] s = (Inr ap, s')"
    using assms by (auto simp: migrate_def split: prod.splits sum.splits)
  have all: "recorded (mg_applied s') (mf_name m) = Some (mf_checksum m)" if "m \<in> set ms" for m
    by (rule run_migrations_recorded(2) [OF run map_le_refl refl that])
  have "migrate exec ms s' = (Inr ([], length (remdups (map fst (mg_applied s')))), s')"
    by (simp add: migrate_def run_migrations_done all)
  moreover have "\<exists>e. fst (migrate exec qs s') = Inl e"
    if m: "mf_name m \<in> mf_name ` set ms" "\<forall>q\<in>set ms. mf_name q = mf_name m \<longrightarrow> mf_checksum q \<noteq> mf_checksum m"
      "m \<in> set qs" for m qs
  proof -
    from m(1) obtain q where q: "q \<in> set ms" "mf_name q = mf_name m" by auto
    have "recorded (mg_applied s') (mf_name m) = Some (mf_checksum q)" using all [OF q(1)] q(2) by simp
    moreover have "mf_checksum q \<noteq> mf_checksum m" using m(2) q by blast
    ultimately obtain e where "fst (run_migrations exec (mg_applied s') qs [] s') = Inl e"
      using run_migrations_changed [OF m(3)] by blast
    then show ?thesis by (auto simp: migrate_def split: prod.splits sum.splits)
  qed
  ultimately show ?thesis by blast
qed

lemma migrate_once_witness:
  "\<exists>k s'. migrate (\<lambda>sql n. Inr (Suc n)) [\<lparr>mf_name = ''1'', mf_sql = ''A'', mf_checksum = ''a''\<rparr>]
     \<lparr>mg_schema = 0 :: nat, mg_applied = []\<rparr> = (Inr ([''1''], 0), s') \<and> mg_schema s' = 1 \<and>
   migrate (\<lambda>sql n. Inr (Suc n)) [\<lparr>mf_name = ''1'', mf_sql = ''A'', mf_checksum = ''a''\<rparr>] s' = (Inr ([], k), s')"
proof -
  let ?ms = "[\<lparr>mf_name = ''1'', mf_sql = ''A'', mf_checksum = ''a''\<rparr>]"
  let ?s = "\<lparr>mg_schema = 1 :: nat, mg_applied = [(''1'', ''a'')]\<rparr>"
  have run: "migrate (\<lambda>sql n. Inr (Suc n)) ?ms \<lparr>mg_schema = 0 :: nat, mg_applied = []\<rparr> = (Inr ([''1''], 0), ?s)"
    by (simp add: migrate_def)
  from migrate_once [OF run] obtain k where "migrate (\<lambda>sql n. Inr (Suc n)) ?ms ?s = (Inr ([], k), ?s)" by blast
  with run show ?thesis by auto
qed

end
