(* ===== verification/Schedules.thy ===== *)
theory Schedules
  imports Request_Safety
begin

text \<open>
  \<open>modules/schedules\<close> and \<open>workers/schedule.worker.ts\<close>: standing orders. A schedule is intent;
  the worker claims a due one, claims the occurrence whose key is the instant it was due, and
  pays, defers, fails or skips it in the same transaction.
\<close>

section \<open>The calendar of the database\<close>

text \<open>
  \<open>next_run_at + interval '1 day' | '7 days' | '1 month'\<close> in the UTC session: a month keeps the day
  of the month, or takes the last day of a shorter month.
\<close>

definition micros_per_day :: int where
  "micros_per_day = 86400000000"

definition add_month :: "micros \<Rightarrow> micros" where
  "add_month t =
     (case civil (t div micros_per_day) of (y, m, k) \<Rightarrow>
        (let y' = y + (m + 1) div 12; m' = (m + 1) mod 12 in
         make_day y' m' (min k (month_len (leap y') m')) * micros_per_day + t mod micros_per_day))"

fun add_step :: "schedule_interval \<Rightarrow> micros \<Rightarrow> micros" where
  "add_step DAILY t = t + micros_per_day"
| "add_step WEEKLY t = t + 7 * micros_per_day"
| "add_step MONTHLY t = add_month t"
| "add_step ONCE t = t"

section \<open>Repository\<close>

record schedule =
  sc_row :: schedule_row
  sc_next_raw :: pg_timestamp
  sc_created_raw :: pg_timestamp

definition map_schedule :: "schedule_row \<Rightarrow> exn + schedule" where
  "map_schedule r =
     (case (as_pg_timestamp (pg_text (s_next_run_at r)), as_pg_timestamp (pg_text (s_created_at r))) of
        (Inr n, Inr c) \<Rightarrow> Inr \<lparr>sc_row = r, sc_next_raw = n, sc_created_raw = c\<rparr>
      | (Inl e, _) \<Rightarrow> Inl e
      | (_, Inl e) \<Rightarrow> Inl e)"

definition mapped :: "schedule_row option \<Rightarrow> schedule option tx" where
  "mapped r = (case r of
       None \<Rightarrow> tx_return None
     | Some x \<Rightarrow> tx_bind (from_sum (map_schedule x)) (\<lambda>s. tx_return (Some s)))"

definition schedule_refused :: "schedule_row \<Rightarrow> db \<Rightarrow> exn option" where
  "schedule_refused r d =
     (if s_amount_minor r \<le> 0 \<or> s_owner_user_id r = s_payee_user_id r \<or>
         (case s_note r of None \<Rightarrow> False | Some n \<Rightarrow> 140 < length n) \<or>
         (case s_remaining_runs r of None \<Rightarrow> False | Some n \<Rightarrow> n < 0)
      then Some (PgError CHECK_VIOLATION None)
      else if \<not> int8_range (s_amount_minor r) then Some (PgError ''22003'' None)
      else if \<not> user_exists (s_owner_user_id r) d \<or> \<not> user_exists (s_payee_user_id r) d
      then Some (PgError FOREIGN_KEY_VIOLATION None)
      else None)"

definition insert_schedule ::
  "uuid \<Rightarrow> uuid \<Rightarrow> int \<Rightarrow> string option \<Rightarrow> schedule_interval \<Rightarrow> millis \<Rightarrow> int option \<Rightarrow> schedule tx" where
  "insert_schedule owner payee amount note kind startAt remaining =
     tx_bind (query (\<lambda>env d.
       (let r = \<lparr>s_id = next_uuid d, s_owner_user_id = owner, s_payee_user_id = payee,
                 s_amount_minor = amount, s_note = note, s_interval_kind = kind,
                 s_next_run_at = micros_of_date startAt, s_remaining_runs = remaining,
                 s_status = S_ACTIVE, s_last_run_at = None, s_retry_after = None,
                 s_created_at = now env\<rparr> in
        case schedule_refused r d of
          Some e \<Rightarrow> Inl e
        | None \<Rightarrow> Inr (r, d\<lparr>schedules_t := schedules_t d @ [r], next_uuid := Suc (next_uuid d)\<rparr>))))
     (\<lambda>r. from_sum (map_schedule r))"

definition find_schedule :: "uuid \<Rightarrow> schedule option tx" where
  "find_schedule i = tx_bind (select (\<lambda>_ d. select_first (\<lambda>r. s_id r = i) (schedules_t d))) mapped"

definition is_due :: "env \<Rightarrow> schedule_row \<Rightarrow> bool" where
  "is_due env r \<longleftrightarrow>
     s_status r = S_ACTIVE \<and> s_next_run_at r \<le> now env \<and>
     (case s_retry_after r of None \<Rightarrow> now env | Some t \<Rightarrow> t) \<le> now env"

definition find_due_schedule_ids :: "nat \<Rightarrow> uuid list tx" where
  "find_due_schedule_ids limit = select (\<lambda>env d.
     map s_id (take limit (sort_key s_next_run_at (filter (is_due env) (schedules_t d)))))"

definition claim_due_schedule :: "uuid \<Rightarrow> schedule option tx" where
  "claim_due_schedule i =
     tx_bind (select (\<lambda>env d.
       select_first (\<lambda>r. s_id r = i \<and> is_due env r \<and> s_id r \<notin> set (held env)) (schedules_t d))) mapped"

record claimed_occurrence =
  co_id :: uuid
  co_attempts :: int

text \<open>
  \<open>INSERT ... ON CONFLICT (occurrence_key) DO UPDATE SET attempts = attempts + 1 WHERE status =
  'PENDING' RETURNING id, attempts\<close>.
\<close>

definition retried :: "occurrence_row \<Rightarrow> occurrence_row" where
  "retried o' = o'\<lparr>o_attempts := o_attempts o' + 1\<rparr>"

definition claim_occurrence :: "uuid \<Rightarrow> string \<Rightarrow> pg_timestamp \<Rightarrow> claimed_occurrence option tx" where
  "claim_occurrence scheduleId occurrenceKey dueAt = query (\<lambda>_ d.
     case pg_parse dueAt of
       None \<Rightarrow> Inl (PgError ''22007'' None)
     | Some t \<Rightarrow>
         (case select_first (\<lambda>x. o_occurrence_key x = occurrenceKey) (occurrences_t d) of
            Some x \<Rightarrow>
              if o_status x = O_PENDING
              then Inr (Some \<lparr>co_id = o_id x, co_attempts = o_attempts x + 1\<rparr>,
                d\<lparr>occurrences_t := upd_where (\<lambda>y. o_occurrence_key y = occurrenceKey) retried (occurrences_t d)\<rparr>)
              else Inr (None, d)
          | None \<Rightarrow>
              if \<not> list_ex (\<lambda>r. s_id r = scheduleId) (schedules_t d)
              then Inl (PgError FOREIGN_KEY_VIOLATION None)
              else Inr (Some \<lparr>co_id = next_uuid d, co_attempts = 1\<rparr>,
                d\<lparr>occurrences_t := occurrences_t d @
                    [\<lparr>o_id = next_uuid d, o_schedule_id = scheduleId, o_occurrence_key = occurrenceKey,
                      o_due_at = t, o_status = O_PENDING, o_transfer_id = None, o_failure_reason = None,
                      o_attempts = 1, o_completed_at = None\<rparr>],
                  next_uuid := Suc (next_uuid d)\<rparr>)))"

definition settled_occurrence ::
  "env \<Rightarrow> occurrence_status \<Rightarrow> uuid option \<Rightarrow> string option \<Rightarrow> occurrence_row \<Rightarrow> occurrence_row" where
  "settled_occurrence env st transferId reason x =
     x\<lparr>o_status := st, o_transfer_id := transferId, o_failure_reason := map_option (take 500) reason,
       o_completed_at := Some (now env)\<rparr>"

definition settle_occurrence ::
  "uuid \<Rightarrow> occurrence_status \<Rightarrow> uuid option \<Rightarrow> string option \<Rightarrow> unit tx" where
  "settle_occurrence i st transferId reason = query (\<lambda>env d.
     if st = O_PAID \<and> transferId = None \<and> list_ex (\<lambda>x. o_id x = i) (occurrences_t d)
     then Inl (PgError CHECK_VIOLATION (Some ''paid_has_transfer''))
     else Inr ((), d\<lparr>occurrences_t :=
       upd_where (\<lambda>x. o_id x = i) (settled_occurrence env st transferId reason) (occurrences_t d)\<rparr>))"

text \<open>\<open>advanceSchedule\<close>: the two updates, for a one-off and for a recurring schedule.\<close>

definition advanced :: "env \<Rightarrow> schedule_interval \<Rightarrow> bool \<Rightarrow> schedule_row \<Rightarrow> schedule_row" where
  "advanced env kind consumeRun r =
     (if kind = ONCE
      then r\<lparr>s_status := S_COMPLETED, s_remaining_runs := Some 0, s_last_run_at := Some (now env),
             s_retry_after := None\<rparr>
      else r\<lparr>s_remaining_runs := (case s_remaining_runs r of
                 None \<Rightarrow> None
               | Some n \<Rightarrow> Some (if consumeRun then max (n - 1) 0 else n)),
             s_next_run_at := add_step kind (s_next_run_at r),
             s_retry_after := None,
             s_last_run_at := Some (now env),
             s_status := (case s_remaining_runs r of
                 None \<Rightarrow> s_status r
               | Some n \<Rightarrow> if (if consumeRun then n - 1 else n) \<le> 0 then S_COMPLETED else s_status r)\<rparr>)"

definition advance_schedule :: "uuid \<Rightarrow> schedule_interval \<Rightarrow> bool \<Rightarrow> unit tx" where
  "advance_schedule i kind consumeRun = query (\<lambda>env d.
     Inr ((), d\<lparr>schedules_t := upd_where (\<lambda>r. s_id r = i) (advanced env kind consumeRun) (schedules_t d)\<rparr>))"

definition defer_schedule :: "uuid \<Rightarrow> int \<Rightarrow> unit tx" where
  "defer_schedule i delaySeconds = query (\<lambda>env d.
     Inr ((), d\<lparr>schedules_t := upd_where (\<lambda>r. s_id r = i)
       (\<lambda>r. r\<lparr>s_retry_after := Some (now env + delaySeconds * 1000000)\<rparr>) (schedules_t d)\<rparr>))"

definition transitioned :: "env \<Rightarrow> schedule_status \<Rightarrow> schedule_row \<Rightarrow> schedule_row" where
  "transitioned env to r =
     r\<lparr>s_status := to,
       s_next_run_at := (if to = S_ACTIVE \<and> s_next_run_at r < now env then now env else s_next_run_at r),
       s_retry_after := (if to = S_ACTIVE then None else s_retry_after r)\<rparr>"

definition transition_schedule ::
  "uuid \<Rightarrow> uuid \<Rightarrow> schedule_status \<Rightarrow> schedule_status list \<Rightarrow> schedule option tx" where
  "transition_schedule i owner to from' =
     tx_bind (query (\<lambda>env d.
       (let P = (\<lambda>r. s_id r = i \<and> s_owner_user_id r = owner \<and> s_status r \<in> set from') in
        Inr (first_row (returning P (transitioned env to) (schedules_t d)),
             d\<lparr>schedules_t := upd_where P (transitioned env to) (schedules_t d)\<rparr>)))) mapped"

section \<open>Listing\<close>

definition schedule_key :: "schedule_row \<Rightarrow> row_key" where
  "schedule_key r = (s_created_at r, s_id r)"

definition listed_schedule :: "uuid \<Rightarrow> schedule_status option \<Rightarrow> db \<Rightarrow> schedule_row \<Rightarrow> bool" where
  "listed_schedule owner st d r \<longleftrightarrow>
     s_owner_user_id r = owner \<and> (case st of None \<Rightarrow> True | Some x \<Rightarrow> s_status r = x) \<and>
     user_exists (s_payee_user_id r) d"

definition list_schedule_rows ::
  "uuid \<Rightarrow> schedule_status option \<Rightarrow> nat \<Rightarrow> cursor option \<Rightarrow> (schedule \<times> string \<times> string) list tx" where
  "list_schedule_rows owner st limit c =
     tx_bind (query (\<lambda>_ d.
       case uuid_cursor c of
         Inl e \<Rightarrow> Inl e
       | Inr k \<Rightarrow> Inr (map (\<lambda>r. (r, user_names (find_user_by_id (s_payee_user_id r) d)))
           (keyset_query schedule_key k limit (filter (listed_schedule owner st d) (schedules_t d))), d)))
     (tx_map (\<lambda>(r, who). tx_bind (from_sum (map_schedule r)) (\<lambda>s. tx_return (s, who))))"

record occurrence_record =
  oc_due_at :: millis
  oc_status :: occurrence_status
  oc_attempts :: int
  oc_failure :: "string option"
  oc_reference :: "string option"

definition occurrence_record_of :: "db \<Rightarrow> occurrence_row \<Rightarrow> occurrence_record" where
  "occurrence_record_of d x =
     \<lparr>oc_due_at = date_of_micros (o_due_at x), oc_status = o_status x, oc_attempts = o_attempts x,
      oc_failure = o_failure_reason x,
      oc_reference = (case o_transfer_id x of None \<Rightarrow> None
        | Some i \<Rightarrow> map_option t_reference (select_first (\<lambda>t. t_id t = i) (transfers_t d)))\<rparr>"

definition list_occurrences :: "uuid \<Rightarrow> nat \<Rightarrow> occurrence_record list tx" where
  "list_occurrences scheduleId limit = select (\<lambda>_ d.
     map (occurrence_record_of d) (take limit (rev (sort_key o_due_at
       (filter (\<lambda>x. o_schedule_id x = scheduleId) (occurrences_t d))))))"

end
