(* ===== verification/Schedule_Worker.thy ===== *)
theory Schedule_Worker
  imports Schedules
begin

text \<open>
  \<open>workers/schedule.worker.ts\<close>: one due schedule per transaction, with the payment attempt inside a
  savepoint.
\<close>

datatype run_outcome = Paid | Failed | Deferred | Skipped | Duplicate_Run | Not_Claimed

definition RETRYABLE_CODES :: "error_code list" where
  "RETRYABLE_CODES = [INSUFFICIENT_FUNDS, LIMIT_EXCEEDED, SERVICE_UNAVAILABLE]"

definition pay_command :: "schedule_row \<Rightarrow> uuid \<Rightarrow> uuid \<Rightarrow> post_command" where
  "pay_command r fromAccountId toAccountId =
     \<lparr>pc_from = fromAccountId, pc_to = toAccountId, pc_amount = s_amount_minor r, pc_type = SCHEDULED,
      pc_note = s_note r, pc_idem = None, pc_reversal_of = None\<rparr>"

definition account_gone :: exn where
  "account_gone = DomainError NOT_FOUND ''Account no longer exists'' [] []"

definition pay :: "schedule_row \<Rightarrow> posted_transfer tx" where
  "pay r =
     tx_bind (find_account_id_for_user (s_owner_user_id r)) (\<lambda>fo.
     tx_bind (find_account_id_for_user (s_payee_user_id r)) (\<lambda>po.
     tx_bind (the_or account_gone fo) (\<lambda>fromAccountId.
     tx_bind (the_or account_gone po) (\<lambda>toAccountId.
     tx_bind (outbound_in_window fromAccountId) (\<lambda>spent.
     tx_bind tx_env (\<lambda>env.
     tx_bind (throw_if (DAILY_TRANSFER_LIMIT_MINOR (cfg env) < spent + s_amount_minor r)
       (limit_exceeded ''Scheduled payment would exceed the daily limit''
         [(''dailyLimitMinor'', JStr (int_text (DAILY_TRANSFER_LIMIT_MINOR (cfg env)))),
          (''alreadySentMinor'', JStr (int_text spent))])) (\<lambda>_.
     post_double_entry (pay_command r fromAccountId toAccountId))))))))"

definition occurrence_key :: "schedule \<Rightarrow> string" where
  "occurrence_key s = uuid_text (s_id (sc_row s)) @ CHR '':'' # sc_next_raw s"

definition schedule_event :: "string \<Rightarrow> schedule_row \<Rightarrow> (string \<times> json) list \<Rightarrow> outbox_event" where
  "schedule_event type r payload =
     \<lparr>ev_type = type, ev_aggregate_type = ''scheduled_transfer'', ev_aggregate_id = s_id r,
      ev_payload = JObj ([(''scheduleId'', JStr (uuid_text (s_id r))),
        (''ownerUserId'', JStr (uuid_text (s_owner_user_id r)))] @ payload)\<rparr>"

text \<open>After the payment and the release of the savepoint.\<close>

definition run_paid :: "schedule_row \<Rightarrow> claimed_occurrence \<Rightarrow> posted_transfer \<Rightarrow> run_outcome tx" where
  "run_paid r oc t =
     tx_bind (settle_occurrence (co_id oc) O_PAID (Some (p_id t)) None) (\<lambda>_.
     tx_bind (advance_schedule (s_id r) (s_interval_kind r) True) (\<lambda>_.
     tx_bind (enqueue_event
       \<lparr>ev_type = ''MONEY_RECEIVED'', ev_aggregate_type = ''transfer'', ev_aggregate_id = p_id t,
        ev_payload = JObj [(''transferId'', JStr (uuid_text (p_id t))), (''reference'', JStr (p_reference t)),
          (''senderUserId'', JStr (uuid_text (s_owner_user_id r))),
          (''recipientUserId'', JStr (uuid_text (s_payee_user_id r))),
          (''amountMinor'', JStr (int_text (p_amount t))), (''note'', jopt (p_note t))]\<rparr>) (\<lambda>_.
     tx_bind (enqueue_event (schedule_event ''SCHEDULE_PAID'' r
       [(''amountMinor'', JStr (int_text (p_amount t))), (''reference'', JStr (p_reference t))])) (\<lambda>_.
     tx_return Paid))))"

text \<open>The catch branch, after \<open>ROLLBACK TO SAVEPOINT\<close>.\<close>

fun is_domain_error :: "exn \<Rightarrow> bool" where
  "is_domain_error (DomainError _ _ _ _) = True"
| "is_domain_error _ = False"

definition error_parts :: "exn \<Rightarrow> error_code \<times> string" where
  "error_parts e = (case e of DomainError c m _ _ \<Rightarrow> (c, m) | _ \<Rightarrow> (INTERNAL, ''''))"

definition can_retry :: "env \<Rightarrow> error_code \<Rightarrow> int \<Rightarrow> bool" where
  "can_retry env code attempts \<longleftrightarrow>
     code \<in> set RETRYABLE_CODES \<and> attempts < SCHEDULE_MAX_ATTEMPTS (cfg env)"

definition run_failed :: "schedule_row \<Rightarrow> claimed_occurrence \<Rightarrow> exn \<Rightarrow> run_outcome tx" where
  "run_failed r oc e =
     (case error_parts e of (code, message) \<Rightarrow>
     tx_bind tx_env (\<lambda>env.
     if can_retry env code (co_attempts oc)
     then tx_bind (defer_schedule (s_id r)
            (SCHEDULE_RETRY_BASE_SECONDS (cfg env) * 2 ^ nat (co_attempts oc - 1))) (\<lambda>_. tx_return Deferred)
     else
       tx_bind (settle_occurrence (co_id oc) O_FAILED None (Some message)) (\<lambda>_.
       tx_bind (advance_schedule (s_id r) (s_interval_kind r) False) (\<lambda>_.
       tx_bind (enqueue_event (schedule_event ''SCHEDULE_FAILED'' r
         [(''amountMinor'', JStr (int_text (s_amount_minor r))), (''reason'', JStr message),
          (''code'', JStr (code_text code))])) (\<lambda>_.
       tx_return Failed)))))"

definition run_skipped :: "schedule_row \<Rightarrow> claimed_occurrence \<Rightarrow> int \<Rightarrow> run_outcome tx" where
  "run_skipped r oc lateBy =
     tx_bind (settle_occurrence (co_id oc) O_SKIPPED None
       (Some (''Missed its window by '' @ int_text (rounded_seconds lateBy) @ ''s''))) (\<lambda>_.
     tx_bind (advance_schedule (s_id r) (s_interval_kind r) False) (\<lambda>_.
     tx_bind (enqueue_event (schedule_event ''SCHEDULE_SKIPPED'' r
       [(''amountMinor'', JStr (int_text (s_amount_minor r))),
        (''dueAt'', JStr (iso_string (date_of_micros (s_next_run_at r))))])) (\<lambda>_.
     tx_return Skipped)))"

definition run_schedule_tx :: "uuid \<Rightarrow> run_outcome tx" where
  "run_schedule_tx scheduleId =
     tx_bind (claim_due_schedule scheduleId) (\<lambda>claimed.
     case claimed of
       None \<Rightarrow> tx_return Not_Claimed
     | Some s \<Rightarrow>
         (let r = sc_row s in
         tx_bind (claim_occurrence (s_id r) (occurrence_key s) (sc_next_raw s)) (\<lambda>occurrence.
         case occurrence of
           None \<Rightarrow>
             tx_bind (advance_schedule (s_id r) (s_interval_kind r) False) (\<lambda>_. tx_return Duplicate_Run)
         | Some oc \<Rightarrow>
             tx_bind tx_env (\<lambda>env.
             (let lateBy = date_now env - date_of_micros (s_next_run_at r) in
              if SCHEDULE_CATCHUP_GRACE_MS (cfg env) < lateBy then run_skipped r oc lateBy
              else savepoint_try is_domain_error (pay r) (run_paid r oc) (run_failed r oc))))))"

definition run_schedule :: "uuid \<Rightarrow> (nat \<Rightarrow> env) \<Rightarrow> db \<Rightarrow> (exn + run_outcome \<times> hook list) \<times> db" where
  "run_schedule scheduleId envs d = transact (run_schedule_tx scheduleId) envs d"

section \<open>The tick\<close>

record tick_result =
  tk_claimed :: nat
  tk_paid :: nat
  tk_failed :: nat
  tk_deferred :: nat
  tk_skipped :: nat
  tk_duplicate :: nat

definition EMPTY_TICK :: tick_result where
  "EMPTY_TICK = \<lparr>tk_claimed = 0, tk_paid = 0, tk_failed = 0, tk_deferred = 0, tk_skipped = 0, tk_duplicate = 0\<rparr>"

definition counted :: "run_outcome \<Rightarrow> tick_result \<Rightarrow> tick_result" where
  "counted x k = \<lparr>
     tk_claimed = tk_claimed k + (if x \<noteq> Not_Claimed then 1 else 0),
     tk_paid = tk_paid k + (if x = Paid then 1 else 0),
     tk_failed = tk_failed k + (if x = Failed then 1 else 0),
     tk_deferred = tk_deferred k + (if x = Deferred then 1 else 0),
     tk_skipped = tk_skipped k + (if x = Skipped then 1 else 0),
     tk_duplicate = tk_duplicate k + (if x = Duplicate_Run then 1 else 0)\<rparr>"

text \<open>The k-th run of the tick has the environments \<open>envss k\<close>. An error ends the tick.\<close>

fun run_all :: "nat \<Rightarrow> uuid list \<Rightarrow> tick_result \<Rightarrow> (nat \<Rightarrow> nat \<Rightarrow> env) \<Rightarrow> db \<Rightarrow> (exn + tick_result) \<times> db" where
  "run_all k [] res envss d = (Inr res, d)"
| "run_all k (i # ids) res envss d =
     (case run_schedule i (envss k) d of
        (Inl e, d') \<Rightarrow> (Inl e, d')
      | (Inr (x, _), d') \<Rightarrow> run_all (Suc k) ids (counted x res) envss d')"

definition run_due_schedules ::
  "nat \<Rightarrow> (nat \<Rightarrow> env) \<Rightarrow> (nat \<Rightarrow> nat \<Rightarrow> env) \<Rightarrow> db \<Rightarrow> (exn + tick_result) \<times> db" where
  "run_due_schedules limit renvs envss d =
     (case read_transact (find_due_schedule_ids limit) renvs d of
        (Inl e, d') \<Rightarrow> (Inl e, d')
      | (Inr (dueIds, _), d') \<Rightarrow> run_all 0 dueIds EMPTY_TICK envss d')"

definition add_tick :: "tick_result \<Rightarrow> tick_result \<Rightarrow> tick_result" where
  "add_tick a b = \<lparr>tk_claimed = tk_claimed a + tk_claimed b, tk_paid = tk_paid a + tk_paid b,
     tk_failed = tk_failed a + tk_failed b, tk_deferred = tk_deferred a + tk_deferred b,
     tk_skipped = tk_skipped a + tk_skipped b, tk_duplicate = tk_duplicate a + tk_duplicate b\<rparr>"

text \<open>\<open>drainSchedules\<close>: tick number n reads with \<open>renvss n\<close> and runs with \<open>envsss n\<close>.\<close>

fun drain_schedules ::
  "nat \<Rightarrow> nat \<Rightarrow> tick_result \<Rightarrow> (nat \<Rightarrow> nat \<Rightarrow> env) \<Rightarrow> (nat \<Rightarrow> nat \<Rightarrow> nat \<Rightarrow> env) \<Rightarrow> db \<Rightarrow> (exn + tick_result) \<times> db" where
  "drain_schedules 0 n acc renvss envsss d = (Inr acc, d)"
| "drain_schedules (Suc maxTicks) n acc renvss envsss d =
     (case run_due_schedules 50 (renvss n) (envsss n) d of
        (Inl e, d') \<Rightarrow> (Inl e, d')
      | (Inr res, d') \<Rightarrow>
          if tk_paid res = 0 \<and> tk_failed res = 0 \<and> tk_skipped res = 0 \<and> tk_duplicate res = 0
          then (Inr (add_tick acc res), d')
          else drain_schedules maxTicks (Suc n) (add_tick acc res) renvss envsss d')"

end
