(* ===== verification/Notifications.thy ===== *)
theory Notifications
  imports Outbox Uuid
begin

text \<open>
  \<open>modules/notifications/notification.handler.ts\<close>: what an event of the outbox tells which user.
  A user has at most one notification per event, whatever is delivered how often.
\<close>

section \<open>Reading a payload\<close>

definition str :: "json \<Rightarrow> string \<Rightarrow> string option" where
  "str payload key = jstr (jget key payload)"

fun radix_value :: "nat \<Rightarrow> (char \<Rightarrow> nat) \<Rightarrow> string \<Rightarrow> nat" where
  "radix_value r v s = foldl (\<lambda>a c. r * a + v c) 0 s"

text \<open>
  \<open>BigInt\<close> of a string: blanks are dropped, nothing is zero, a sign goes with decimal digits
  only, and \<open>0x\<close>, \<open>0o\<close>, \<open>0b\<close> start the other radices.
\<close>

definition radix_text :: "char \<Rightarrow> string \<Rightarrow> int option" where
  "radix_text c ds =
     (if ds = [] then None
      else if (c = CHR ''x'' \<or> c = CHR ''X'') \<and> list_all is_hex ds then Some (int (hex_value ds))
      else if (c = CHR ''o'' \<or> c = CHR ''O'') \<and> list_all (\<lambda>d. is_digit d \<and> digit_val d < 8) ds
      then Some (int (radix_value 8 digit_val ds))
      else if (c = CHR ''b'' \<or> c = CHR ''B'') \<and> list_all (\<lambda>d. is_digit d \<and> digit_val d < 2) ds
      then Some (int (radix_value 2 digit_val ds))
      else None)"

definition js_big_int :: "string \<Rightarrow> exn + int" where
  "js_big_int s =
     (let t = js_trim s;
          bad = Inl (JsError None (''Cannot convert '' @ s @ '' to a BigInt'')) in
      if t = [] then Inr 0
      else if is_int_text t then Inr (big_int t)
      else (case t of
          c # ds \<Rightarrow>
            if c = CHR ''+'' \<and> ds \<noteq> [] \<and> list_all is_digit ds then Inr (int (digits_val ds))
            else if c = CHR ''0'' \<and> ds \<noteq> []
            then (case radix_text (hd ds) (tl ds) of None \<Rightarrow> bad | Some n \<Rightarrow> Inr n)
            else bad
        | [] \<Rightarrow> bad))"

definition taka_of :: "json \<Rightarrow> exn + string" where
  "taka_of payload =
     (case str payload ''amountMinor'' of
        None \<Rightarrow> Inr ''''
      | Some minor \<Rightarrow> (case js_big_int minor of Inl e \<Rightarrow> Inl e | Inr n \<Rightarrow> Inr (format_taka n)))"

section \<open>Notifying\<close>

text \<open>
  \<open>INSERT ... ON CONFLICT (user_id, event_id) DO NOTHING\<close>. The texts that reach it are the ones
  the service writes; the server's other spellings of a uuid do not occur.
\<close>

definition notification_of :: "uuid \<Rightarrow> uuid \<Rightarrow> uuid \<Rightarrow> string \<Rightarrow> json \<Rightarrow> micros \<Rightarrow> notification_row" where
  "notification_of i userId eventId type payload t =
     \<lparr>n_id = i, n_user_id = userId, n_event_id = eventId, n_type = type, n_payload = payload,
      n_created_at = t, n_read_at = None\<rparr>"

definition notify :: "string \<Rightarrow> uuid \<Rightarrow> string \<Rightarrow> json \<Rightarrow> unit tx" where
  "notify userId eventId type payload = query (\<lambda>env d.
     if \<not> is_uuid userId then Inl (PgError ''22P02'' None)
     else if list_ex (\<lambda>n. n_user_id n = uuid_value userId \<and> n_event_id n = eventId) (notifications_t d)
     then Inr ((), d)
     else if \<not> user_exists (uuid_value userId) d then Inl (PgError FOREIGN_KEY_VIOLATION None)
     else Inr ((), d\<lparr>notifications_t := notifications_t d @
            [notification_of (next_uuid d) (uuid_value userId) eventId type payload (now env)],
          next_uuid := Suc (next_uuid d)\<rparr>))"

record outbox_event_record =
  er_id :: uuid
  er_type :: string
  er_aggregate_type :: string
  er_aggregate_id :: uuid
  er_payload :: json
  er_attempts :: int

text \<open>\<open>if (!userId) return 0\<close>, else the notification and 1. An empty text is no user either.\<close>

definition tell ::
  "string option \<Rightarrow> outbox_event_record \<Rightarrow> string \<Rightarrow> (exn + json) \<Rightarrow> nat tx" where
  "tell target event type payload =
     (if target = None \<or> target = Some [] then tx_return 0
      else tx_bind (from_sum payload) (\<lambda>p.
           tx_bind (notify (the target) (er_id event) type p) (\<lambda>_. tx_return 1)))"

definition with_taka :: "json \<Rightarrow> (string \<Rightarrow> json) \<Rightarrow> exn + json" where
  "with_taka p f = (case taka_of p of Inl e \<Rightarrow> Inl e | Inr t \<Rightarrow> Inr (f t))"

definition update_wording :: "string \<Rightarrow> string \<Rightarrow> string" where
  "update_wording type t =
     (if type = ''REQUEST_DECLINED'' then ''Your request for BDT '' @ t @ '' was declined.''
      else if type = ''REQUEST_CANCELLED'' then ''A request for BDT '' @ t @ '' was cancelled.''
      else ''Your request for BDT '' @ t @ '' expired.'')"

definition schedule_wording :: "string \<Rightarrow> json \<Rightarrow> string \<Rightarrow> string" where
  "schedule_wording type p t =
     (if type = ''SCHEDULE_PAID'' then ''Your scheduled payment of BDT '' @ t @ '' was sent.''
      else if type = ''SCHEDULE_FAILED''
      then ''Your scheduled payment of BDT '' @ t @ '' could not be sent: '' @
        (case str p ''reason'' of None \<Rightarrow> ''unknown reason'' | Some r \<Rightarrow> r)
      else ''A scheduled payment of BDT '' @ t @ '' was skipped because it was overdue.'')"

definition welcome_payload :: "json \<Rightarrow> exn + json" where
  "welcome_payload p =
     (case js_big_int (case str p ''bonusMinor'' of None \<Rightarrow> ''0'' | Some b \<Rightarrow> b) of
        Inl e \<Rightarrow> Inl e
      | Inr n \<Rightarrow> Inr (JObj [(''title'', JStr ''Welcome to TakaFlow''),
          (''body'', JStr (''Your account has been funded with BDT '' @ format_taka n @ ''.'')),
          (''reference'', jopt (str p ''transferReference''))]))"

definition handle_event :: "outbox_event_record \<Rightarrow> nat tx" where
  "handle_event event =
     (let p = er_payload event; type = er_type event in
      if type = ''USER_REGISTERED'' then tell (str p ''userId'') event ''WELCOME'' (welcome_payload p)
      else if type = ''MONEY_RECEIVED'' then
        tell (str p ''recipientUserId'') event ''MONEY_RECEIVED'' (with_taka p (\<lambda>t. JObj [
          (''title'', JStr ''Money received''), (''body'', JStr (''You received BDT '' @ t @ ''.'')),
          (''reference'', jopt (str p ''reference'')), (''note'', jopt (str p ''note''))]))
      else if type = ''REQUEST_CREATED'' then
        tell (str p ''payerUserId'') event ''REQUEST_RECEIVED'' (with_taka p (\<lambda>t. JObj [
          (''title'', JStr ''Payment requested''),
          (''body'', JStr ((case str p ''requesterName'' of None \<Rightarrow> ''Someone'' | Some n \<Rightarrow> n) @
             '' requested BDT '' @ t @ '' from you.'')),
          (''requestId'', jopt (str p ''requestId'')), (''note'', jopt (str p ''note''))]))
      else if type = ''REQUEST_ACCEPTED'' then
        tell (str p ''requesterUserId'') event ''REQUEST_ACCEPTED'' (with_taka p (\<lambda>t. JObj [
          (''title'', JStr ''Request paid''),
          (''body'', JStr (''Your request for BDT '' @ t @ '' was paid.'')),
          (''requestId'', jopt (str p ''requestId'')), (''reference'', jopt (str p ''transferReference''))]))
      else if type \<in> {''REQUEST_DECLINED'', ''REQUEST_CANCELLED'', ''REQUEST_EXPIRED''} then
        tell (if type = ''REQUEST_CANCELLED'' then str p ''payerUserId'' else str p ''requesterUserId'')
          event type (with_taka p (\<lambda>t. JObj [
            (''title'', JStr ''Request update''), (''body'', JStr (update_wording type t)),
            (''requestId'', jopt (str p ''requestId'')), (''reason'', jopt (str p ''reason''))]))
      else if type \<in> {''SCHEDULE_PAID'', ''SCHEDULE_FAILED'', ''SCHEDULE_SKIPPED''} then
        tell (str p ''ownerUserId'') event type (with_taka p (\<lambda>t. JObj [
          (''title'', JStr ''Scheduled payment''), (''body'', JStr (schedule_wording type p t)),
          (''scheduleId'', jopt (str p ''scheduleId'')), (''reference'', jopt (str p ''reference''))]))
      else if type \<in> {''ACCOUNT_FROZEN'', ''ACCOUNT_UNFROZEN''} then
        tell (str p ''userId'') event type (Inr (JObj [
          (''title'', JStr (if type = ''ACCOUNT_FROZEN'' then ''Account frozen'' else ''Account unfrozen'')),
          (''body'', JStr (if type = ''ACCOUNT_FROZEN''
             then ''Outgoing payments are blocked until you unfreeze the account.''
             else ''Your account can send money again.''))]))
      else if type = ''SECURITY_ALERT'' then
        tell (str p ''userId'') event ''SECURITY_ALERT'' (with_taka p (\<lambda>t. JObj [
          (''title'', JStr ''Security alert''),
          (''body'', JStr (''Unusual transaction detected: BDT '' @ t @
             '' sent. If this was not you, freeze your account now.'')),
          (''reference'', jopt (str p ''reference''))]))
      else tx_return 0)"

end
