(* ===== verification/Dispatcher.thy ===== *)
theory Dispatcher
  imports Notifications
begin

text \<open>
  \<open>workers/outbox.dispatcher.ts\<close>: a batch of due events, each delivered inside a savepoint.
\<close>

definition MAX_ATTEMPTS :: int where
  "MAX_ATTEMPTS = 5"

record dispatch_result =
  dr_claimed :: nat
  dr_processed :: nat
  dr_failed :: nat
  dr_notifications :: nat

definition is_ready :: "env \<Rightarrow> outbox_row \<Rightarrow> bool" where
  "is_ready env x \<longleftrightarrow> x_status x = X_PENDING \<and> x_next_attempt_at x \<le> now env \<and> x_id x \<notin> set (held env)"

definition ready_events :: "nat \<Rightarrow> outbox_row list tx" where
  "ready_events batchSize = select (\<lambda>env d.
     take batchSize (sort_key x_created_at (filter (is_ready env) (outbox_t d))))"

definition event_record :: "outbox_row \<Rightarrow> outbox_event_record" where
  "event_record x =
     \<lparr>er_id = x_id x, er_type = x_event_type x, er_aggregate_type = x_aggregate_type x,
      er_aggregate_id = x_aggregate_id x, er_payload = x_payload x, er_attempts = x_attempts x\<rparr>"

definition processed_row :: "outbox_row \<Rightarrow> outbox_row" where
  "processed_row x = x\<lparr>x_status := X_PROCESSED, x_attempts := x_attempts x + 1\<rparr>"

definition mark_processed :: "uuid \<Rightarrow> unit tx" where
  "mark_processed i = query (\<lambda>_ d.
     Inr ((), d\<lparr>outbox_t := upd_where (\<lambda>x. x_id x = i) processed_row (outbox_t d)\<rparr>))"

definition retry_seconds :: "int \<Rightarrow> int" where
  "retry_seconds attempts = min (2 ^ nat attempts) 300"

definition failed_event_row :: "micros \<Rightarrow> int \<Rightarrow> string \<Rightarrow> outbox_row \<Rightarrow> outbox_row" where
  "failed_event_row t attempts message x =
     x\<lparr>x_status := (if MAX_ATTEMPTS \<le> attempts then X_FAILED else X_PENDING), x_attempts := attempts,
       x_last_error := Some message, x_next_attempt_at := t + retry_seconds attempts * 1000000\<rparr>"

definition mark_event_failed :: "uuid \<Rightarrow> int \<Rightarrow> string \<Rightarrow> unit tx" where
  "mark_event_failed i attempts message = query (\<lambda>env d.
     Inr ((), d\<lparr>outbox_t := upd_where (\<lambda>x. x_id x = i)
       (failed_event_row (now env) attempts message) (outbox_t d)\<rparr>))"

text \<open>
  One round of the loop. Every savepoint has the same name: rolling back to it leaves it in place,
  so \<open>saved\<close> are the databases at the savepoints earlier failures left behind, the latest first.
  When an event was handled and its savepoint released, but marking it failed, the rollback goes to
  the one before, or finds none and the transaction ends. \<open>message_of\<close> gives the text of an error,
  which for an error of the server is the server's.
\<close>

type_synonym rounds = "dispatch_result \<times> db list"

definition one_more_failed :: "dispatch_result \<Rightarrow> dispatch_result" where
  "one_more_failed res = res\<lparr>dr_failed := Suc (dr_failed res)\<rparr>"

definition fail_event :: "(exn \<Rightarrow> string) \<Rightarrow> outbox_row \<Rightarrow> dispatch_result \<Rightarrow> db list \<Rightarrow> exn \<Rightarrow> rounds tx" where
  "fail_event message_of x res saved e =
     tx_bind command (\<lambda>_.
     tx_bind (mark_event_failed (x_id x) (x_attempts x + 1) (take 500 (message_of e))) (\<lambda>_.
     tx_return (one_more_failed res, saved)))"

definition deliver :: "outbox_row \<Rightarrow> nat tx" where
  "deliver x =
     tx_bind (handle_event (event_record x)) (\<lambda>delivered.
     tx_bind command (\<lambda>_. tx_return delivered))"

definition dispatch_event ::
  "(exn \<Rightarrow> string) \<Rightarrow> outbox_row \<Rightarrow> rounds \<Rightarrow> rounds tx" where
  "dispatch_event message_of x = (\<lambda>(res, saved).
     tx_bind command (\<lambda>_ env s.
       case deliver x env s of
         (Inl e, s1) \<Rightarrow>
           fail_event message_of x res (data s # saved) e env (s1\<lparr>data := data s, aborted := aborted s\<rparr>)
       | (Inr delivered, s1) \<Rightarrow>
           (case mark_processed (x_id x) env s1 of
              (Inr _, s2) \<Rightarrow>
                (Inr (res\<lparr>dr_processed := Suc (dr_processed res),
                          dr_notifications := dr_notifications res + delivered\<rparr>, saved), s2)
            | (Inl e, s2) \<Rightarrow>
                (case saved of
                   [] \<Rightarrow> query (\<lambda>_ _. Inl NO_SAVEPOINT) env s2
                 | d0 # _ \<Rightarrow>
                     fail_event message_of x res saved e env (s2\<lparr>data := d0, aborted := False\<rparr>)))))"

fun dispatch_events :: "(exn \<Rightarrow> string) \<Rightarrow> outbox_row list \<Rightarrow> rounds \<Rightarrow> rounds tx" where
  "dispatch_events message_of [] acc = tx_return acc"
| "dispatch_events message_of (x # xs) acc =
     tx_bind (dispatch_event message_of x acc) (dispatch_events message_of xs)"

definition dispatch_tx :: "(exn \<Rightarrow> string) \<Rightarrow> nat \<Rightarrow> dispatch_result tx" where
  "dispatch_tx message_of batchSize =
     tx_bind (ready_events batchSize) (\<lambda>rows.
     tx_bind (dispatch_events message_of rows
       (\<lparr>dr_claimed = length rows, dr_processed = 0, dr_failed = 0, dr_notifications = 0\<rparr>, [])) (\<lambda>(res, _).
     tx_return res))"

definition dispatch_batch ::
  "(exn \<Rightarrow> string) \<Rightarrow> nat \<Rightarrow> (nat \<Rightarrow> env) \<Rightarrow> db \<Rightarrow> (exn + dispatch_result \<times> hook list) \<times> db" where
  "dispatch_batch message_of batchSize envs d = transact (dispatch_tx message_of batchSize) envs d"

text \<open>\<open>drainOutbox\<close>: batch number n runs in \<open>envss n\<close>.\<close>

definition add_results :: "dispatch_result \<Rightarrow> dispatch_result \<Rightarrow> dispatch_result" where
  "add_results a b =
     \<lparr>dr_claimed = dr_claimed a + dr_claimed b, dr_processed = dr_processed a + dr_processed b,
      dr_failed = dr_failed a + dr_failed b, dr_notifications = dr_notifications a + dr_notifications b\<rparr>"

fun drain_outbox ::
  "(exn \<Rightarrow> string) \<Rightarrow> nat \<Rightarrow> nat \<Rightarrow> dispatch_result \<Rightarrow> (nat \<Rightarrow> nat \<Rightarrow> env) \<Rightarrow> db \<Rightarrow>
   (exn + dispatch_result) \<times> db" where
  "drain_outbox message_of 0 n acc envss d = (Inr acc, d)"
| "drain_outbox message_of (Suc maxBatches) n acc envss d =
     (case dispatch_batch message_of 50 (envss n) d of
        (Inl e, d') \<Rightarrow> (Inl e, d')
      | (Inr (batch, _), d') \<Rightarrow>
          if dr_claimed batch = 0 then (Inr (add_results acc batch), d')
          else drain_outbox message_of maxBatches (Suc n) (add_results acc batch) envss d')"

end
