(* ===== verification/Routes.thy ===== *)
theory Routes
  imports Schedule_Worker Dispatcher Accounts
begin

text \<open>
  The guards of \<open>platform/http\<close> and the handlers of \<open>admin.routes.ts\<close>, \<open>accounts.routes.ts\<close> and
  \<open>auth.routes.ts\<close> that do work of their own.
\<close>

section \<open>Guards\<close>

text \<open>What \<open>jwt.verify\<close> says of a token is a parameter.\<close>

datatype jwt_verdict = Claims string string | Expired | Invalid

definition verify_access_token :: "(string \<Rightarrow> jwt_verdict) \<Rightarrow> string \<Rightarrow> exn + string \<times> string" where
  "verify_access_token verify token =
     (case verify token of
        Claims sub phone \<Rightarrow> Inr (sub, phone)
      | Expired \<Rightarrow> Inl (unauthenticated ''Access token expired'')
      | Invalid \<Rightarrow> Inl (unauthenticated ''Invalid access token''))"

definition require_auth :: "(string \<Rightarrow> jwt_verdict) \<Rightarrow> string option \<Rightarrow> exn + string \<times> string" where
  "require_auth verify header =
     (case header of
        None \<Rightarrow> Inl (unauthenticated ''Missing bearer token'')
      | Some h \<Rightarrow>
          if take 7 h \<noteq> ''Bearer '' then Inl (unauthenticated ''Missing bearer token'')
          else verify_access_token verify (js_trim (drop 7 h)))"

text \<open>\<open>timingSafeEqual\<close> of two buffers of the same length.\<close>

definition same_bytes :: "string \<Rightarrow> string \<Rightarrow> bool" where
  "same_bytes a b \<longleftrightarrow>
     (let x = utf8_bytes a; y = utf8_bytes b in length x = length y \<and> x = y)"

definition require_admin :: "config \<Rightarrow> header \<Rightarrow> exn + unit" where
  "require_admin c hdr =
     (if ADMIN_API_TOKEN c = None \<or> ADMIN_API_TOKEN c = Some []
      then Inl (unavailable ''Operator API is not configured on this instance'')
      else
        (let presented = (case hdr of Absent \<Rightarrow> None | One h \<Rightarrow> Some h | Many hs \<Rightarrow> first_row hs) in
         if presented = None \<or> presented = Some [] then Inl (unauthenticated ''Missing operator token'')
         else if \<not> same_bytes (the presented) (the (ADMIN_API_TOKEN c))
         then Inl (unauthenticated ''Invalid operator token'')
         else Inr ()))"

definition require_active_account :: "uuid \<Rightarrow> env \<Rightarrow> db \<Rightarrow> (exn + unit) \<times> db" where
  "require_active_account userId env d =
     (case pool_query (\<lambda>_ d. Inr (find_account_by_user_id userId d, d)) env d of
        (Inl e, d) \<Rightarrow> (Inl e, d)
      | (Inr None, d) \<Rightarrow> (Inl (not_found ''Account''), d)
      | (Inr (Some a), d) \<Rightarrow>
          if a_status a = A_FROZEN
          then (Inl (account_frozen ''Your account is frozen. Unfreeze it in settings to send money again.''), d)
          else if a_status a = A_CLOSED then (Inl (account_frozen ''This account is closed''), d)
          else (Inr (), d))"

section \<open>The operator's routes\<close>

definition admin_login :: "config \<Rightarrow> string \<Rightarrow> string \<Rightarrow> exn + string \<times> string" where
  "admin_login c username password =
     (if ADMIN_API_TOKEN c = None \<or> ADMIN_API_TOKEN c = Some []
      then Inl (unavailable ''Operator API is not configured on this instance'')
      else
        (let userOk = same_bytes username (ADMIN_USERNAME c); passOk = same_bytes password (ADMIN_PASSWORD c) in
         if \<not> userOk \<or> \<not> passOk then Inl (unauthenticated ''Invalid operator credentials'')
         else Inr (the (ADMIN_API_TOKEN c), ADMIN_USERNAME c)))"

definition made_due :: "env \<Rightarrow> schedule_row \<Rightarrow> schedule_row" where
  "made_due env r = r\<lparr>s_next_run_at := now env - 1000000, s_retry_after := None\<rparr>"

definition make_due :: "uuid \<Rightarrow> env \<Rightarrow> db \<Rightarrow> (exn + unit) \<times> db" where
  "make_due i env d =
     (let P = (\<lambda>r. s_id r = i \<and> s_status r = S_ACTIVE) in
      case pool_query (\<lambda>env d. Inr (count_where P (schedules_t d),
          d\<lparr>schedules_t := upd_where P (made_due env) (schedules_t d)\<rparr>)) env d of
        (Inl e, d') \<Rightarrow> (Inl e, d')
      | (Inr rowCount, d') \<Rightarrow> if rowCount = 0 then (Inl (not_found ''Active schedule''), d') else (Inr (), d'))"

text \<open>The workers on demand: schedules, then expiry, then the outbox.\<close>

definition run_workers ::
  "(exn \<Rightarrow> string) \<Rightarrow> (nat \<Rightarrow> nat \<Rightarrow> env) \<Rightarrow> (nat \<Rightarrow> nat \<Rightarrow> nat \<Rightarrow> env) \<Rightarrow> (nat \<Rightarrow> env) \<Rightarrow> (nat \<Rightarrow> nat \<Rightarrow> env) \<Rightarrow> db \<Rightarrow>
   (exn + dispatch_result \<times> nat \<times> tick_result) \<times> db" where
  "run_workers message_of renvss envsss eenvs oenvss d =
     (case drain_schedules 50 0 EMPTY_TICK renvss envsss d of
        (Inl e, d1) \<Rightarrow> (Inl e, d1)
      | (Inr schedules, d1) \<Rightarrow>
          (case expire_requests 200 eenvs d1 of
             (Inl e, d2) \<Rightarrow> (Inl e, d2)
           | (Inr (expired, _), d2) \<Rightarrow>
               (case drain_outbox message_of 100 0
                   \<lparr>dr_claimed = 0, dr_processed = 0, dr_failed = 0, dr_notifications = 0\<rparr> oenvss d2 of
                  (Inl e, d3) \<Rightarrow> (Inl e, d3)
                | (Inr outbox, d3) \<Rightarrow> (Inr (outbox, expired, schedules), d3))))"

section \<open>Notifications\<close>

definition list_notifications :: "uuid \<Rightarrow> nat \<Rightarrow> bool \<Rightarrow> env \<Rightarrow> db \<Rightarrow> (exn + json list) \<times> db" where
  "list_notifications userId limit unreadOnly env d =
     (case pool_query (\<lambda>_ d. Inr (take limit (rev (sort_key (\<lambda>n. (n_created_at n, n_id n))
         (filter (\<lambda>n. n_user_id n = userId \<and> (unreadOnly \<longrightarrow> n_read_at n = None)) (notifications_t d)))), d)) env d of
        (Inl e, d') \<Rightarrow> (Inl e, d')
      | (Inr rows, d') \<Rightarrow>
          (Inr (map (\<lambda>n. JObj [(''id'', JStr (uuid_text (n_id n))), (''type'', JStr (n_type n)),
             (''payload'', n_payload n), (''read'', JBool (n_read_at n \<noteq> None)),
             (''createdAt'', JStr (iso_string (date_of_micros (n_created_at n))))]) rows), d'))"

definition read_notification :: "env \<Rightarrow> notification_row \<Rightarrow> notification_row" where
  "read_notification env n = n\<lparr>n_read_at := Some (now env)\<rparr>"

definition mark_read :: "uuid \<Rightarrow> uuid \<Rightarrow> env \<Rightarrow> db \<Rightarrow> (exn + unit) \<times> db" where
  "mark_read userId i env d =
     pool_query (\<lambda>env d. Inr ((), d\<lparr>notifications_t :=
       upd_where (\<lambda>n. n_id n = i \<and> n_user_id n = userId \<and> n_read_at n = None) (read_notification env)
         (notifications_t d)\<rparr>)) env d"

section \<open>The user's own data\<close>

definition me :: "uuid \<Rightarrow> env \<Rightarrow> env \<Rightarrow> db \<Rightarrow> (exn + json) \<times> db" where
  "me userId env env2 d =
     (case pool_query (\<lambda>_ d. Inr (find_user_by_id userId d, d)) env d of
        (Inl e, d) \<Rightarrow> (Inl e, d)
      | (Inr None, d) \<Rightarrow> (Inl (not_found ''User''), d)
      | (Inr (Some user), d) \<Rightarrow>
          (case pool_query (\<lambda>_ d. Inr (find_account_by_user_id userId d, d)) env2 d of
             (Inl e, d) \<Rightarrow> (Inl e, d)
           | (Inr None, d) \<Rightarrow> (Inl (not_found ''Account''), d)
           | (Inr (Some account), d) \<Rightarrow>
               (Inr (JObj [
                  (''user'', JObj [(''id'', JStr (uuid_text (u_id user))), (''phone'', JStr (u_phone user)),
                     (''name'', JStr (u_name user)),
                     (''createdAt'', JStr (iso_string (date_of_micros (u_created_at user))))]),
                  (''account'', JObj [(''id'', JStr (uuid_text (a_id account))),
                     (''status'', JStr (account_status_text (a_status account))),
                     (''balance'', money (a_balance_minor account))])]), d)))"

definition search_users :: "uuid \<Rightarrow> string \<Rightarrow> env \<Rightarrow> db \<Rightarrow> (exn + json) \<times> db" where
  "search_users myId q env d =
     (case pool_query (\<lambda>_ d. Inr (find_user_by_phone q d, d)) env d of
        (Inl e, d) \<Rightarrow> (Inl e, d)
      | (Inr None, d) \<Rightarrow> (Inl (not_found ''User''), d)
      | (Inr (Some user), d) \<Rightarrow>
          if u_status user \<noteq> U_ACTIVE then (Inl (not_found ''User''), d)
          else (Inr (JObj [(''id'', JStr (uuid_text (u_id user))), (''phone'', JStr (u_phone user)),
                           (''name'', JStr (u_name user)), (''isSelf'', JBool (u_id user = myId))]), d))"

end
