(* ===== verification/History.thy ===== *)
theory History
  imports Read_Router Requests
begin

text \<open>
  \<open>modules/transfers/history.repo.ts\<close> and \<open>history.service.ts\<close>: the entries of an account, newest
  first, with the movement and the other side of each, page by page or by reference.
\<close>

section \<open>Repository\<close>

datatype history_direction = IN | OUT

record history_filters =
  hf_account_id :: uuid
  hf_direction :: "history_direction option"
  hf_type :: "transfer_type option"
  hf_from :: "millis option"
  hf_to :: "millis option"
  hf_min :: "int option"
  hf_max :: "int option"
  hf_phone :: "string option"
  hf_limit :: nat
  hf_cursor :: "cursor option"

record history_entry =
  he_id :: string
  he_created_at_raw :: pg_timestamp
  he_created_at :: millis
  he_direction :: entry_direction
  he_amount :: int
  he_balance_after :: int
  he_reference :: string
  he_type :: string
  he_status :: string
  he_note :: "string option"
  he_counterparty_name :: string
  he_counterparty_phone :: "string option"

text \<open>
  A row of the join: an entry, its transfer, and the user of the account on the other side, when
  that account is a user's.
\<close>

type_synonym history_row = "entry_row \<times> transfer_row \<times> user_row option"

definition other_account :: "entry_row \<Rightarrow> transfer_row \<Rightarrow> uuid" where
  "other_account e t = (if e_direction e = DEBIT then t_to_account_id t else t_from_account_id t)"

definition account_owner :: "account_row \<Rightarrow> db \<Rightarrow> user_row option" where
  "account_owner a d = (case a_user_id a of None \<Rightarrow> None | Some u \<Rightarrow> find_user_by_id u d)"

definition history_rows :: "db \<Rightarrow> history_row list" where
  "history_rows d =
     concat (map (\<lambda>e. concat (map (\<lambda>t. map (\<lambda>a. (e, t, account_owner a d))
         (filter (\<lambda>a. a_id a = other_account e t) (accounts_t d)))
       (filter (\<lambda>t. t_id t = e_transfer_id e \<and> t_created_at t = e_created_at e) (transfers_t d))))
     (entries_t d))"

definition history_key :: "history_row \<Rightarrow> row_key" where
  "history_key = (\<lambda>(e, _, _). (e_created_at e, e_id e))"

text \<open>\<open>toMinor\<close> of the text of a \<open>bigint\<close> is its value.\<close>

definition map_entry :: "history_row \<Rightarrow> exn + history_entry" where
  "map_entry = (\<lambda>(e, t, u).
     (case as_pg_timestamp (pg_text (e_created_at e)) of
        Inl x \<Rightarrow> Inl x
      | Inr raw \<Rightarrow>
          (case to_date raw of
             Inl x \<Rightarrow> Inl x
           | Inr date \<Rightarrow> Inr
               \<lparr>he_id = int_text (int (e_id e)), he_created_at_raw = raw, he_created_at = date,
                he_direction = e_direction e, he_amount = e_amount_minor e,
                he_balance_after = e_balance_after e, he_reference = t_reference t,
                he_type = type_text (t_type t), he_status = transfer_status_text (t_status t),
                he_note = t_note t,
                he_counterparty_name = (case u of None \<Rightarrow> ''TakaFlow'' | Some x \<Rightarrow> u_name x),
                he_counterparty_phone = map_option u_phone u\<rparr>)))"

text \<open>\<open>$n::bigint\<close> of a number and of a cursor's id.\<close>

definition cast_bigint :: "string \<Rightarrow> exn + int" where
  "cast_bigint s =
     (if \<not> is_int_text s then Inl (PgError ''22P02'' None)
      else if int8_range (big_int s) then Inr (big_int s) else Inl (PgError ''22003'' None))"

definition serial_cursor :: "cursor option \<Rightarrow> exn + row_key option" where
  "serial_cursor c =
     (case c of
        None \<Rightarrow> Inr None
      | Some k \<Rightarrow>
          (case (cast_timestamp (cur_created_at k), cast_bigint (cur_id k)) of
             (Inr t, Inr i) \<Rightarrow> Inr (Some (t, nat i))
           | (Inl e, _) \<Rightarrow> Inl e
           | (_, Inl e) \<Rightarrow> Inl e))"

definition opt_all :: "('a \<Rightarrow> bool) \<Rightarrow> 'a option \<Rightarrow> bool" where
  "opt_all P x = (case x of None \<Rightarrow> True | Some a \<Rightarrow> P a)"

definition in_history :: "history_filters \<Rightarrow> history_row \<Rightarrow> bool" where
  "in_history f = (\<lambda>(e, t, u).
     e_account_id e = hf_account_id f \<and>
     opt_all (\<lambda>x. e_direction e = (if x = IN then CREDIT else DEBIT)) (hf_direction f) \<and>
     opt_all (\<lambda>x. t_type t = x) (hf_type f) \<and>
     opt_all (\<lambda>x. micros_of_date x \<le> e_created_at e) (hf_from f) \<and>
     opt_all (\<lambda>x. e_created_at e < micros_of_date x) (hf_to f) \<and>
     opt_all (\<lambda>x. x \<le> e_amount_minor e) (hf_min f) \<and>
     opt_all (\<lambda>x. e_amount_minor e \<le> x) (hf_max f) \<and>
     opt_all (\<lambda>x. map_option u_phone u = Some x) (hf_phone f))"

definition bounds_fit :: "history_filters \<Rightarrow> bool" where
  "bounds_fit f \<longleftrightarrow> opt_all int8_range (hf_min f) \<and> opt_all int8_range (hf_max f)"

definition list_history_rows :: "history_filters \<Rightarrow> history_entry list tx" where
  "list_history_rows f =
     tx_bind (query (\<lambda>_ d.
       if \<not> bounds_fit f then Inl (PgError ''22003'' None)
       else (case serial_cursor (hf_cursor f) of
          Inl e \<Rightarrow> Inl e
        | Inr k \<Rightarrow> Inr (keyset_query history_key k (hf_limit f) (filter (in_history f) (history_rows d)), d))))
     (tx_map (\<lambda>r. from_sum (map_entry r)))"

definition find_by_reference ::
  "uuid \<Rightarrow> string \<Rightarrow> (millis \<times> millis) option \<Rightarrow> history_entry option tx" where
  "find_by_reference accountId reference dateRange =
     tx_bind (select (\<lambda>_ d. select_first (\<lambda>(e, t, _).
         e_account_id e = accountId \<and> t_reference t = reference \<and>
         opt_all (\<lambda>(from', to'). micros_of_date from' \<le> e_created_at e \<and> e_created_at e < micros_of_date to')
           dateRange) (history_rows d))) (\<lambda>r.
     case r of
       None \<Rightarrow> tx_return None
     | Some x \<Rightarrow> tx_bind (from_sum (map_entry x)) (\<lambda>e. tx_return (Some e)))"

section \<open>Service\<close>

definition history_dto :: "history_entry \<Rightarrow> json" where
  "history_dto e = JObj [
     (''id'', JStr (he_id e)), (''reference'', JStr (he_reference e)),
     (''direction'', JStr (if he_direction e = CREDIT then ''IN'' else ''OUT'')),
     (''type'', JStr (he_type e)), (''status'', JStr (he_status e)), (''amount'', money (he_amount e)),
     (''balanceAfter'', money (he_balance_after e)), (''note'', jopt (he_note e)),
     (''counterparty'', JObj [(''name'', JStr (he_counterparty_name e)), (''phone'', jopt (he_counterparty_phone e))]),
     (''createdAt'', JStr (iso_string (he_created_at e)))]"

record history_request =
  hq_direction :: "history_direction option"
  hq_type :: "transfer_type option"
  hq_from :: "millis option"
  hq_to :: "millis option"
  hq_min :: "string option"
  hq_max :: "string option"
  hq_phone :: "string option"
  hq_limit :: nat
  hq_cursor :: "string option"

definition history_filters_of :: "uuid \<Rightarrow> history_request \<Rightarrow> cursor option \<Rightarrow> history_filters" where
  "history_filters_of accountId q c =
     \<lparr>hf_account_id = accountId, hf_direction = hq_direction q, hf_type = hq_type q, hf_from = hq_from q,
      hf_to = hq_to q, hf_min = map_option big_int (hq_min q), hf_max = map_option big_int (hq_max q),
      hf_phone = hq_phone q, hf_limit = hq_limit q + 1, hf_cursor = c\<rparr>"

definition served_by_text :: "served_by \<Rightarrow> string" where
  "served_by_text s = (case s of Primary \<Rightarrow> ''primary'' | Replica \<Rightarrow> ''replica'')"

definition history_page :: "history_entry list \<Rightarrow> nat \<Rightarrow> served_by \<Rightarrow> json" where
  "history_page rows limit served =
     (case to_page he_created_at_raw he_id rows limit of
        (items, c) \<Rightarrow> JObj [(''items'', JArr (map history_dto items)), (''nextCursor'', jopt c),
                            (''servedBy'', JStr (served_by_text served))])"

definition window_reversed :: "history_request \<Rightarrow> bool" where
  "window_reversed q = (case (hq_from q, hq_to q) of (Some f, Some t) \<Rightarrow> t < f | _ \<Rightarrow> False)"

text \<open>The account is looked up on the primary's pool in \<open>env\<close>; the read is routed.\<close>

definition list_history ::
  "uuid \<Rightarrow> history_request \<Rightarrow> (uuid \<Rightarrow> string option option) \<Rightarrow> replica option \<Rightarrow> env \<Rightarrow> (nat \<Rightarrow> env) \<Rightarrow>
   (nat \<Rightarrow> env) \<Rightarrow> db \<Rightarrow> (exn + json) \<times> db" where
  "list_history userId q redis rep env envs retry_envs d =
     (case pool_query (\<lambda>_ d. Inr (find_account_by_user_id userId d, d)) env d of
        (Inl e, d) \<Rightarrow> (Inl e, d)
      | (Inr None, d) \<Rightarrow> (Inl (not_found ''Account''), d)
      | (Inr (Some account), d) \<Rightarrow>
          if window_reversed q then (Inl (validation ''`from` must be earlier than `to`'' []), d)
          else (case decode_cursor (hq_cursor q) of
             Inl e \<Rightarrow> (Inl e, d)
           | Inr c \<Rightarrow>
               (case with_routed_read (list_history_rows (history_filters_of (a_id account) q c))
                       (Some userId) redis rep envs retry_envs d of
                  (Inl e, d') \<Rightarrow> (Inl e, d')
                | (Inr (rows, served), d') \<Rightarrow> (Inr (history_page rows (hq_limit q) served), d'))))"

definition get_receipt ::
  "uuid \<Rightarrow> string \<Rightarrow> (uuid \<Rightarrow> string option option) \<Rightarrow> replica option \<Rightarrow> env \<Rightarrow> (nat \<Rightarrow> env) \<Rightarrow>
   (nat \<Rightarrow> env) \<Rightarrow> db \<Rightarrow> (exn + json) \<times> db" where
  "get_receipt userId reference redis rep env envs retry_envs d =
     (case pool_query (\<lambda>_ d. Inr (find_account_by_user_id userId d, d)) env d of
        (Inl e, d) \<Rightarrow> (Inl e, d)
      | (Inr None, d) \<Rightarrow> (Inl (not_found ''Account''), d)
      | (Inr (Some account), d) \<Rightarrow>
          (case with_routed_read (find_by_reference (a_id account) reference (reference_date_range reference))
                  (Some userId) redis rep envs retry_envs d of
             (Inl e, d') \<Rightarrow> (Inl e, d')
           | (Inr (None, _), d') \<Rightarrow> (Inl (not_found ''Transfer''), d')
           | (Inr (Some e, _), d') \<Rightarrow> (Inr (history_dto e), d')))"

end
