(* ===== verification/Statement.thy ===== *)
theory Statement
  imports History
begin

text \<open>
  \<open>modules/transfers/statement.service.ts\<close>: the account statement as CSV, page after page, each read
  in a transaction of its own.
\<close>

section \<open>Fields\<close>

text \<open>\<open>/^[=+\<backslash>-@\<backslash>t\<backslash>r]/\<close> and \<open>/[",\<backslash>r\<backslash>n]/\<close>.\<close>

definition formula_start :: "char \<Rightarrow> bool" where
  "formula_start c \<longleftrightarrow> c \<in> {CHR ''='', CHR ''+'', CHR ''-'', CHR ''@'', CHR 0x09, CHR 0x0D}"

definition needs_quotes :: "char \<Rightarrow> bool" where
  "needs_quotes c \<longleftrightarrow> c \<in> {CHR 0x22, CHR '','', CHR 0x0D, CHR 0x0A}"

fun double_quotes :: "string \<Rightarrow> string" where
  "double_quotes [] = []"
| "double_quotes (c # s) =
     (if c = CHR 0x22 then CHR 0x22 # CHR 0x22 # double_quotes s else c # double_quotes s)"

definition disarmed :: "string \<Rightarrow> string" where
  "disarmed v = (if formula_start (hd v) then CHR 0x27 # v else v)"

definition csv_field :: "string option \<Rightarrow> string" where
  "csv_field value =
     (case value of
        None \<Rightarrow> []
      | Some v \<Rightarrow>
          if v = [] then []
          else
            (let escaped = double_quotes (disarmed v) in
             if list_ex needs_quotes escaped then CHR 0x22 # escaped @ [CHR 0x22] else escaped))"

definition csv_fields :: "history_entry \<Rightarrow> string option list" where
  "csv_fields e =
     [Some (iso_string (he_created_at e)), Some (he_reference e), Some (he_type e),
      Some (if he_direction e = CREDIT then ''IN'' else ''OUT''), Some (he_counterparty_name e),
      he_counterparty_phone e, Some (format_taka (he_amount e)), Some (int_text (he_amount e)),
      Some (format_taka (he_balance_after e)), he_note e]"

definition crlf :: string where
  "crlf = [CHR 0x0D, CHR 0x0A]"

definition csv_row :: "history_entry \<Rightarrow> string" where
  "csv_row e = comma_join (map csv_field (csv_fields e)) @ crlf"

section \<open>The stream\<close>

definition PAGE_SIZE :: nat where
  "PAGE_SIZE = 500"

definition COLUMNS :: "string list" where
  "COLUMNS = [''date'', ''reference'', ''type'', ''direction'', ''counterparty'', ''counterparty_phone'',
     ''amount_bdt'', ''amount_minor'', ''balance_after_bdt'', ''note'']"

definition byte_order_mark :: string where
  "byte_order_mark = [CHR 0xEF, CHR 0xBB, CHR 0xBF]"

record statement_window =
  sw_account_id :: uuid
  sw_from :: "millis option"
  sw_to :: "millis option"

definition statement_filters :: "statement_window \<Rightarrow> millis \<Rightarrow> cursor option \<Rightarrow> history_filters" where
  "statement_filters w untilMs c =
     \<lparr>hf_account_id = sw_account_id w, hf_direction = None, hf_type = None, hf_from = sw_from w,
      hf_to = Some untilMs, hf_min = None, hf_max = None, hf_phone = None, hf_limit = PAGE_SIZE, hf_cursor = c\<rparr>"

text \<open>
  Page n reads the database \<open>dbs n\<close> in the environments \<open>envss n\<close>; an error ends the stream after
  the chunks already sent. \<open>fuel\<close> bounds the number of pages.
\<close>

fun statement_pages ::
  "nat \<Rightarrow> statement_window \<Rightarrow> millis \<Rightarrow> nat \<Rightarrow> cursor option \<Rightarrow> (nat \<Rightarrow> nat \<Rightarrow> env) \<Rightarrow> (nat \<Rightarrow> db) \<Rightarrow>
   history_entry list list \<times> exn option" where
  "statement_pages 0 w untilMs n c envss dbs = ([], None)"
| "statement_pages (Suc fuel) w untilMs n c envss dbs =
     (case read_transact (list_history_rows (statement_filters w untilMs c)) (envss n) (dbs n) of
        (Inl e, _) \<Rightarrow> ([], Some e)
      | (Inr (rows, _), _) \<Rightarrow>
          if rows = [] then ([], None)
          else if length rows < PAGE_SIZE then ([rows], None)
          else
            (case statement_pages fuel w untilMs (Suc n)
                (Some \<lparr>cur_created_at = he_created_at_raw (last rows), cur_id = he_id (last rows)\<rparr>) envss dbs of
               (pages, e) \<Rightarrow> (rows # pages, e)))"

text \<open>\<open>clock\<close> is the process clock when the request starts.\<close>

definition statement_chunks ::
  "nat \<Rightarrow> statement_window \<Rightarrow> millis \<Rightarrow> (nat \<Rightarrow> nat \<Rightarrow> env) \<Rightarrow> (nat \<Rightarrow> db) \<Rightarrow> string list \<times> exn option" where
  "statement_chunks fuel w clock envss dbs =
     (let untilMs = (case sw_to w of None \<Rightarrow> clock | Some t \<Rightarrow> t) in
      case statement_pages fuel w untilMs 0 None envss dbs of
        (pages, e) \<Rightarrow>
          (byte_order_mark # (comma_join COLUMNS @ crlf) #
           map (\<lambda>rows. foldl (\<lambda>chunk x. chunk @ csv_row x) [] rows) pages, e))"

definition statement_filename :: "statement_window \<Rightarrow> millis \<Rightarrow> string" where
  "statement_filename w clock =
     ''takaflow-statement-'' @ (case sw_from w of None \<Rightarrow> ''start'' | Some t \<Rightarrow> take 10 (iso_string t)) @
     ''-to-'' @ take 10 (iso_string (case sw_to w of None \<Rightarrow> clock | Some t \<Rightarrow> t)) @ ''.csv''"

end
