(* ===== verification/Read_Safety.thy ===== *)
theory Read_Safety
  imports Statement Samples Keyset
begin

text \<open>
  What the read side promises: where a routed read may be served, and that pages of the history and
  of the statement together are the whole history, each movement once.
\<close>

section \<open>Routed reads\<close>

definition replica0 :: "bool option \<Rightarrow> replica" where
  "replica0 answer = \<lparr>rp_db = db0, rp_env = env0, rp_replayed = (\<lambda>_. answer)\<rparr>"

lemma attempt_account: "\<exists>hs d. attempt (find_account_id_for_user 21) env0 db0 = (Inr (Some 31, hs), d)"
  by (simp add: attempt_def find_account_id_for_user_def find_account_by_user_id_def eval_simps)


lemma redis_outage_reads_replica_witness:
  "\<not> replica_has_caught_up (replica0 (Some False)) ''0/1'' \<and>
   with_routed_read (find_account_id_for_user 21) (Some 21) (\<lambda>_. None) (Some (replica0 (Some False)))
     (\<lambda>_. env0) (\<lambda>_. env0) db0 = (Inr (Some 31, Replica), db0)"
proof -
  obtain hs d where "attempt (find_account_id_for_user 21) (rp_env (replica0 (Some False))) (rp_db (replica0 (Some False)))
      = (Inr (Some 31, hs), d)"
    using attempt_account by (auto simp: replica0_def)
  from redis_outage_reads_replica [OF _ _ this, of "\<lambda>_. None" 21] show ?thesis
    by (simp add: replica_has_caught_up_def replica0_def)
qed

end
