(* ===== verification/Schedule_Service.thy ===== *)
theory Schedule_Service
  imports Schedules
begin

text \<open>
  \<open>modules/schedules/schedule.service.ts\<close>: creating a schedule, the owner's transitions, and
  reading. No money moves on these paths.
\<close>

section \<open>Creating\<close>

definition schedule_dto :: "schedule \<Rightarrow> string \<times> string \<Rightarrow> json" where
  "schedule_dto s payee =
     (let r = sc_row s in JObj [
       (''id'', JStr (uuid_text (s_id r))), (''status'', JStr (schedule_status_text (s_status r))),
       (''intervalKind'', JStr (interval_text (s_interval_kind r))), (''amount'', money (s_amount_minor r)),
       (''note'', jopt (s_note r)),
       (''payee'', JObj [(''name'', JStr (fst payee)), (''phone'', JStr (snd payee))]),
       (''nextRunAt'', if s_status r = S_ACTIVE \<or> s_status r = S_PAUSED
          then JStr (iso_string (date_of_micros (s_next_run_at r))) else JNull),
       (''remainingRuns'', case s_remaining_runs r of None \<Rightarrow> JNull | Some n \<Rightarrow> jint n),
       (''lastRunAt'', jopt (map_option (\<lambda>t. iso_string (date_of_micros t)) (s_last_run_at r))),
       (''createdAt'', JStr (iso_string (date_of_micros (s_created_at r))))])"

record create_schedule_input =
  si_to_phone :: string
  si_amount :: int
  si_note :: "string option"
  si_interval :: schedule_interval
  si_start_at :: millis
  si_total_runs :: "int option"
  si_pin :: string

definition CREATE_SCHEDULE_ENDPOINT :: string where
  "CREATE_SCHEDULE_ENDPOINT = ''POST /api/v1/schedules''"

definition MIN_LEAD_MS :: int where
  "MIN_LEAD_MS = 0"

definition create_schedule_work ::
  "uuid \<Rightarrow> create_schedule_input \<Rightarrow> request_context \<Rightarrow> uuid \<Rightarrow> (int \<times> json) tx" where
  "create_schedule_work ownerUserId input ctx claimId =
     tx_bind (find_payee_by_phone (si_to_phone input)) (\<lambda>p.
     tx_bind (the_or (not_found ''User'') p) (\<lambda>payee.
     tx_bind (throw_if (pa_user_status payee \<noteq> U_ACTIVE) (not_found ''User'')) (\<lambda>_.
     tx_bind (throw_if (pa_user_id payee = ownerUserId) self_transfer) (\<lambda>_.
     tx_bind (insert_schedule ownerUserId (pa_user_id payee) (si_amount input) (si_note input)
       (si_interval input) (si_start_at input)
       (if si_interval input = ONCE then Some 1 else si_total_runs input)) (\<lambda>created.
     tx_bind (insert_audit_log (Some ownerUserId) ''SCHEDULE_CREATED'' ''scheduled_transfer''
       (Some (uuid_text (s_id (sc_row created))))
       (JObj [(''payeeUserId'', JStr (uuid_text (pa_user_id payee))),
              (''amountMinor'', JStr (int_text (s_amount_minor (sc_row created)))),
              (''intervalKind'', JStr (interval_text (s_interval_kind (sc_row created)))),
              (''startAt'', JStr (iso_string (date_of_micros (s_next_run_at (sc_row created)))))])
       ctx) (\<lambda>_.
     tx_return (201, JObj [(''schedule'', schedule_dto created (pa_name payee, pa_phone payee))])))))))"

definition create_schedule_tx ::
  "uuid \<Rightarrow> string \<Rightarrow> create_schedule_input \<Rightarrow> json \<Rightarrow> request_context \<Rightarrow> outcome tx" where
  "create_schedule_tx ownerUserId idempotencyKey input rawBody ctx =
     tx_bind tx_env (\<lambda>env.
     tx_bind (claim_idempotency_key ownerUserId idempotencyKey CREATE_SCHEDULE_ENDPOINT
       (hash_request env CREATE_SCHEDULE_ENDPOINT rawBody)) (\<lambda>claim.
     case claim of
       Mismatch \<Rightarrow> tx_throw idempotency_key_reuse
     | Replay st b \<Rightarrow> tx_return \<lparr>out_status = st, out_body = b, out_replayed = True\<rparr>
     | Claimed i \<Rightarrow>
         tx_bind (create_schedule_work ownerUserId input ctx i) (\<lambda>(st, b).
         tx_bind (complete_idempotency_key i st b) (\<lambda>_.
         tx_return \<lparr>out_status = st, out_body = b, out_replayed = False\<rparr>))))"

definition create_schedule ::
  "uuid \<Rightarrow> string \<Rightarrow> create_schedule_input \<Rightarrow> json \<Rightarrow> request_context \<Rightarrow> env \<Rightarrow> (nat \<Rightarrow> env) \<Rightarrow> (nat \<Rightarrow> env) \<Rightarrow> db \<Rightarrow>
   (exn + outcome \<times> hook list) \<times> db" where
  "create_schedule ownerUserId idempotencyKey input rawBody ctx env penvs envs d =
     (case verify_pin ownerUserId (si_pin input) env penvs d of
        (Inl e, d') \<Rightarrow> (Inl e, d')
      | (Inr _, d') \<Rightarrow>
          (let minT = MIN_TRANSFER_MINOR (cfg env); maxT = MAX_TRANSFER_MINOR (cfg env) in
           if si_amount input < minT
           then (Inl (validation (''Minimum scheduled amount is '' @ formatted minT @ '' BDT'') []), d')
           else if maxT < si_amount input
           then (Inl (limit_exceeded (''Maximum scheduled amount is '' @ formatted maxT @ '' BDT'') []), d')
           else if si_start_at input < date_now env - MIN_LEAD_MS
           then (Inl (validation ''A schedule cannot start in the past'' []), d')
           else transact (create_schedule_tx ownerUserId idempotencyKey input rawBody ctx) envs d'))"

section \<open>The owner's transitions\<close>

definition LEGAL_FROM :: "schedule_status \<Rightarrow> schedule_status list" where
  "LEGAL_FROM to =
     (if to = S_PAUSED then [S_ACTIVE] else if to = S_ACTIVE then [S_PAUSED] else [S_ACTIVE, S_PAUSED])"

definition payee_of :: "uuid \<Rightarrow> (string \<times> string) tx" where
  "payee_of payeeUserId = select (\<lambda>_ d. user_names (find_user_by_id payeeUserId d))"

definition schedule_transition_tx :: "uuid \<Rightarrow> uuid \<Rightarrow> schedule_status \<Rightarrow> request_context \<Rightarrow> json tx" where
  "schedule_transition_tx ownerUserId scheduleId to ctx =
     tx_bind (transition_schedule scheduleId ownerUserId to (LEGAL_FROM to)) (\<lambda>updated.
     case updated of
       None \<Rightarrow>
         tx_bind (find_schedule scheduleId) (\<lambda>found.
         tx_bind (the_or (not_found ''Schedule'') found) (\<lambda>existing.
         tx_bind (throw_if (s_owner_user_id (sc_row existing) \<noteq> ownerUserId) (not_found ''Schedule'')) (\<lambda>_.
         if s_status (sc_row existing) = to
         then tx_bind (payee_of (s_payee_user_id (sc_row existing))) (\<lambda>who. tx_return (schedule_dto existing who))
         else tx_throw (invalid_state
           (''This schedule is '' @ map lower (schedule_status_text (s_status (sc_row existing))))
           [(''status'', JStr (schedule_status_text (s_status (sc_row existing))))]))))
     | Some s \<Rightarrow>
         tx_bind (insert_audit_log (Some ownerUserId) (''SCHEDULE_'' @ schedule_status_text to)
           ''scheduled_transfer'' (Some (uuid_text (s_id (sc_row s)))) (JObj []) ctx) (\<lambda>_.
         tx_bind (payee_of (s_payee_user_id (sc_row s))) (\<lambda>who. tx_return (schedule_dto s who))))"

definition schedule_transition ::
  "uuid \<Rightarrow> uuid \<Rightarrow> schedule_status \<Rightarrow> request_context \<Rightarrow> (nat \<Rightarrow> env) \<Rightarrow> db \<Rightarrow> (exn + json \<times> hook list) \<times> db" where
  "schedule_transition ownerUserId scheduleId to ctx envs d =
     transact (schedule_transition_tx ownerUserId scheduleId to ctx) envs d"

definition pause_schedule ::
  "uuid \<Rightarrow> uuid \<Rightarrow> request_context \<Rightarrow> (nat \<Rightarrow> env) \<Rightarrow> db \<Rightarrow> (exn + json \<times> hook list) \<times> db" where
  "pause_schedule ownerUserId i ctx envs d = schedule_transition ownerUserId i S_PAUSED ctx envs d"

definition resume_schedule ::
  "uuid \<Rightarrow> uuid \<Rightarrow> request_context \<Rightarrow> (nat \<Rightarrow> env) \<Rightarrow> db \<Rightarrow> (exn + json \<times> hook list) \<times> db" where
  "resume_schedule ownerUserId i ctx envs d = schedule_transition ownerUserId i S_ACTIVE ctx envs d"

definition cancel_schedule ::
  "uuid \<Rightarrow> uuid \<Rightarrow> request_context \<Rightarrow> (nat \<Rightarrow> env) \<Rightarrow> db \<Rightarrow> (exn + json \<times> hook list) \<times> db" where
  "cancel_schedule ownerUserId i ctx envs d = schedule_transition ownerUserId i S_CANCELLED ctx envs d"

section \<open>Reading\<close>

record schedule_query =
  sq_status :: "schedule_status option"
  sq_limit :: nat
  sq_cursor :: "string option"

definition schedule_page :: "(schedule \<times> string \<times> string) list \<Rightarrow> nat \<Rightarrow> json" where
  "schedule_page rows limit =
     (case to_page (\<lambda>(s, _). sc_created_raw s) (\<lambda>(s, _). uuid_text (s_id (sc_row s))) rows limit of
        (items, c) \<Rightarrow> JObj [(''items'', JArr (map (\<lambda>(s, who). schedule_dto s who) items)),
                            (''nextCursor'', jopt c)])"

definition list_schedules :: "uuid \<Rightarrow> schedule_query \<Rightarrow> (nat \<Rightarrow> env) \<Rightarrow> db \<Rightarrow> (exn + json) \<times> db" where
  "list_schedules ownerUserId q envs d =
     (case decode_cursor (sq_cursor q) of
        Inl e \<Rightarrow> (Inl e, d)
      | Inr c \<Rightarrow>
          (case read_transact (list_schedule_rows ownerUserId (sq_status q) (sq_limit q + 1) c) envs d of
             (Inl e, d') \<Rightarrow> (Inl e, d')
           | (Inr (rows, _), d') \<Rightarrow> (Inr (schedule_page rows (sq_limit q)), d')))"

fun occurrence_status_text :: "occurrence_status \<Rightarrow> string" where
  "occurrence_status_text O_PENDING = ''PENDING''"
| "occurrence_status_text O_PAID = ''PAID''"
| "occurrence_status_text O_FAILED = ''FAILED''"
| "occurrence_status_text O_SKIPPED = ''SKIPPED''"

definition occurrence_dto :: "occurrence_record \<Rightarrow> json" where
  "occurrence_dto x = JObj [(''dueAt'', JStr (iso_string (oc_due_at x))),
     (''status'', JStr (occurrence_status_text (oc_status x))), (''attempts'', jint (oc_attempts x)),
     (''failureReason'', jopt (oc_failure x)), (''transferReference'', jopt (oc_reference x))]"

definition get_schedule_tx :: "uuid \<Rightarrow> uuid \<Rightarrow> json tx" where
  "get_schedule_tx ownerUserId i =
     tx_bind (find_schedule i) (\<lambda>found.
     tx_bind (the_or (not_found ''Schedule'') found) (\<lambda>s.
     tx_bind (throw_if (s_owner_user_id (sc_row s) \<noteq> ownerUserId) (not_found ''Schedule'')) (\<lambda>_.
     tx_bind (list_occurrences i 20) (\<lambda>xs.
     tx_bind (payee_of (s_payee_user_id (sc_row s))) (\<lambda>who.
     tx_return (JObj [(''schedule'', schedule_dto s who),
                      (''occurrences'', JArr (map occurrence_dto xs))]))))))"

definition get_schedule :: "uuid \<Rightarrow> uuid \<Rightarrow> (nat \<Rightarrow> env) \<Rightarrow> db \<Rightarrow> (exn + json \<times> hook list) \<times> db" where
  "get_schedule ownerUserId i envs d = read_transact (get_schedule_tx ownerUserId i) envs d"

end
