(* ===== verification/Schedule_Safety.thy ===== *)
theory Schedule_Safety
  imports Schedule_Service Schedule_Worker Samples
begin

text \<open>
  Correctness of schedules: the endpoints and the worker keep the books and the keys, an occurrence is
  settled once, and it is PAID exactly when one transfer of the schedule's amount, from its owner to
  its payee, was posted for it.
\<close>

section \<open>Frames\<close>

lemma keeps_mapped [keeps_intros]: "keeps I (mapped r)"
  unfolding mapped_def by (intro keeps_intros)

lemma keeps_schedule_reads [keeps_intros]:
  "keeps I (find_schedule i)" "keeps I (find_due_schedule_ids n)" "keeps I (claim_due_schedule i)"
  "keeps I (payee_of u)" "keeps I (list_occurrences i n)"
  unfolding find_schedule_def find_due_schedule_ids_def claim_due_schedule_def payee_of_def
    list_occurrences_def
  by (intro keeps_intros)+

lemma keeps_insert_schedule:
  "(\<And>d xs n. I d \<Longrightarrow> next_uuid d \<le> n \<Longrightarrow> I (d\<lparr>schedules_t := xs, next_uuid := n\<rparr>)) \<Longrightarrow>
   keeps I (insert_schedule u p a n k t r)"
  unfolding insert_schedule_def
  by (intro keeps_intros keeps_query) (auto simp: Let_def split: option.splits)

lemma keeps_schedule_updates:
  assumes "\<And>d xs. I d \<Longrightarrow> I (d\<lparr>schedules_t := xs\<rparr>)"
  shows "keeps I (advance_schedule i k b)" and "keeps I (defer_schedule i n)"
    and "keeps I (transition_schedule i u to from')"
  unfolding advance_schedule_def defer_schedule_def transition_schedule_def
  by (intro keeps_intros keeps_query; auto simp: Let_def intro: assms)+

lemma keeps_occurrence_writes:
  assumes "\<And>d xs n. I d \<Longrightarrow> next_uuid d \<le> n \<Longrightarrow> I (d\<lparr>occurrences_t := xs, next_uuid := n\<rparr>)"
    and "\<And>d xs. I d \<Longrightarrow> I (d\<lparr>occurrences_t := xs\<rparr>)"
  shows "keeps I (claim_occurrence i k t)" and "keeps I (settle_occurrence j st x r)"
  unfolding claim_occurrence_def settle_occurrence_def
  by (rule keeps_query; auto intro: assms split: option.splits if_splits)+

lemma keeps_create_schedule_work:
  assumes "\<And>d xs. I d \<Longrightarrow> I (d\<lparr>audit_t := xs\<rparr>)"
    and "\<And>u p a n k t r. keeps I (insert_schedule u p a n k t r)"
  shows "keeps I (create_schedule_work u input ctx i)"
  unfolding create_schedule_work_def
  by (intro keeps_intros keeps_insert_audit_log assms)

lemma keeps_schedule_transition:
  assumes "\<And>d xs. I d \<Longrightarrow> I (d\<lparr>audit_t := xs\<rparr>)"
    and "\<And>i u to from'. keeps I (transition_schedule i u to from')"
  shows "keeps I (schedule_transition_tx u i to ctx)"
  unfolding schedule_transition_tx_def
  by (intro keeps_intros keeps_insert_audit_log assms)

lemma keeps_pay: "(\<And>r a b. keeps I (post_double_entry (pay_command r a b))) \<Longrightarrow> keeps I (pay r)"
  unfolding pay_def by (intro keeps_intros)

lemma keeps_run_schedule:
  assumes ev: "\<And>e. keeps I (enqueue_event e)"
    and sch: "\<And>d xs. I d \<Longrightarrow> I (d\<lparr>schedules_t := xs\<rparr>)"
    and occ: "\<And>i k t. keeps I (claim_occurrence i k t)" "\<And>j st x r. keeps I (settle_occurrence j st x r)"
    and post: "\<And>r a b. keeps I (post_double_entry (pay_command r a b))"
  shows "keeps I (run_schedule_tx i)"
  unfolding run_schedule_tx_def Let_def run_skipped_def run_paid_def run_failed_def
  by (intro keeps_intros keeps_savepoint keeps_pay keeps_schedule_updates occ post ev sch)

section \<open>Idempotent creation\<close>

interpretation create_sched: idempotent_endpoint "create_schedule_tx u key input raw ctx" u key
    CREATE_SCHEDULE_ENDPOINT "\<lambda>env. hash_request env CREATE_SCHEDULE_ENDPOINT raw"
    "create_schedule_work u input ctx" for u key input raw ctx
proof
  show "create_schedule_tx u key input raw ctx = tx_bind tx_env (\<lambda>env.
         tx_bind (claim_idempotency_key u key CREATE_SCHEDULE_ENDPOINT
           (hash_request env CREATE_SCHEDULE_ENDPOINT raw)) (\<lambda>claim.
         case claim of
           Mismatch \<Rightarrow> tx_throw idempotency_key_reuse
         | Replay st b \<Rightarrow> tx_return \<lparr>out_status = st, out_body = b, out_replayed = True\<rparr>
         | Claimed i \<Rightarrow>
             tx_bind (create_schedule_work u input ctx i) (\<lambda>(st, b).
             tx_bind (complete_idempotency_key i st b) (\<lambda>_.
             tx_return \<lparr>out_status = st, out_body = b, out_replayed = False\<rparr>))))"
    by (simp only: create_schedule_tx_def)
  show "keeps (\<lambda>d. idem_t d = K \<and> n \<le> next_uuid d) (create_schedule_work u input ctx i)" for K n i
    by (rule keeps_create_schedule_work) (auto intro!: keeps_insert_schedule)
qed

section \<open>The books\<close>

lemma ledger_schedule_frames:
  "ledger_ok d \<Longrightarrow> next_uuid d \<le> n \<Longrightarrow> ledger_ok (d\<lparr>schedules_t := rs, next_uuid := n\<rparr>)"
  "ledger_ok d \<Longrightarrow> ledger_ok (d\<lparr>schedules_t := rs\<rparr>)"
  "ledger_ok d \<Longrightarrow> next_uuid d \<le> n \<Longrightarrow> ledger_ok (d\<lparr>occurrences_t := os, next_uuid := n\<rparr>)"
  "ledger_ok d \<Longrightarrow> ledger_ok (d\<lparr>occurrences_t := os\<rparr>)"
  by (erule ledger_frame, simp add: same_books_def)+

lemma keeps_ledger_create_schedule: "keeps ledger_ok (create_schedule_tx u key input raw ctx)"
  unfolding create_schedule_tx_def
  by (intro keeps_intros keeps_claim_cases keeps_ledger_claim keeps_ledger_complete
      keeps_create_schedule_work keeps_insert_schedule ledger_frames ledger_schedule_frames)

lemma keeps_ledger_schedule_transition: "keeps ledger_ok (schedule_transition_tx u i to ctx)"
  by (intro keeps_schedule_transition keeps_schedule_updates ledger_frames ledger_schedule_frames)

lemma keeps_ledger_run_schedule: "keeps ledger_ok (run_schedule_tx i)"
  by (intro keeps_run_schedule keeps_occurrence_writes keeps_ledger_post keeps_enqueue_event ledger_frames
      ledger_schedule_frames)

section \<open>What a run does\<close>

lemma mapped_Inr: "mapped x env s = (Inr y, s') \<Longrightarrow> s' = s \<and> map_option sc_row y = x"
  by (auto simp: mapped_def run_simps from_sum_def map_schedule_def split: option.splits sum.splits)

lemma claim_due_Inr:
  assumes "claim_due_schedule i env s = (Inr y, s')"
  shows "data s' = data s \<and> \<not> aborted s' \<and> locks s' = locks s \<and>
    (\<forall>c. y = Some c \<longrightarrow> sc_row c \<in> set (schedules_t (data s)) \<and> s_id (sc_row c) = i \<and> is_due env (sc_row c))"
proof -
  from assms obtain r s1 where sel: "faults env (stmts s) = None" "\<not> aborted s"
      "r = select_first (\<lambda>r. s_id r = i \<and> is_due env r \<and> s_id r \<notin> set (held env)) (schedules_t (data s))"
      "s1 = s\<lparr>stmts := Suc (stmts s)\<rparr>" and m: "mapped r env s1 = (Inr y, s')"
    unfolding claim_due_schedule_def tx_bind_Inr_iff select_Inr_iff
    by (elim exE conjE, hypsubst) (rule that, (assumption | rule refl | simp)+)
  have "r = Some (sc_row c) \<Longrightarrow> sc_row c \<in> set (schedules_t (data s)) \<and> s_id (sc_row c) = i \<and> is_due env (sc_row c)" for c
    by (drule sel(3) [symmetric, THEN trans], drule select_first_SomeD) simp
  with mapped_Inr [OF m] sel(2,4) show ?thesis by auto
qed

text \<open>The table of occurrences after a claim: a pending row retried, or a new one.\<close>

definition new_occurrence :: "uuid \<Rightarrow> uuid \<Rightarrow> string \<Rightarrow> micros \<Rightarrow> occurrence_row" where
  "new_occurrence j i key t = \<lparr>o_id = j, o_schedule_id = i, o_occurrence_key = key, o_due_at = t,
     o_status = O_PENDING, o_transfer_id = None, o_failure_reason = None, o_attempts = 1, o_completed_at = None\<rparr>"

lemma claim_occurrence_Inr:
  assumes "claim_occurrence i key t env s = (Inr y, s')"
  obtains (settled) x where "y = None" "x \<in> set (occurrences_t (data s))" "o_occurrence_key x = key"
      "o_status x \<noteq> O_PENDING" "data s' = data s" "\<not> aborted s'"
    | (again) x where "y = Some \<lparr>co_id = o_id x, co_attempts = o_attempts x + 1\<rparr>"
      "x \<in> set (occurrences_t (data s))" "o_occurrence_key x = key" "o_status x = O_PENDING"
      "data s' = (data s)\<lparr>occurrences_t := upd_where (\<lambda>q. o_occurrence_key q = key) retried (occurrences_t (data s))\<rparr>"
      "\<not> aborted s'"
    | (fresh) m where "y = Some \<lparr>co_id = next_uuid (data s), co_attempts = 1\<rparr>"
      "\<And>x. x \<in> set (occurrences_t (data s)) \<Longrightarrow> o_occurrence_key x \<noteq> key"
      "data s' = (data s)\<lparr>occurrences_t := occurrences_t (data s) @ [new_occurrence (next_uuid (data s)) i key m],
        next_uuid := Suc (next_uuid (data s))\<rparr>" "\<not> aborted s'"
proof (cases "select_first (\<lambda>x. o_occurrence_key x = key) (occurrences_t (data s))")
  case None
  have N: "\<And>x. x \<in> set (occurrences_t (data s)) \<Longrightarrow> o_occurrence_key x \<noteq> key"
    using None by (auto simp: select_first_None_iff)
  from assms None have "y = Some \<lparr>co_id = next_uuid (data s), co_attempts = 1\<rparr> \<and>
      data s' = (data s)\<lparr>occurrences_t := occurrences_t (data s) @
        [new_occurrence (next_uuid (data s)) i key (the (pg_parse t))], next_uuid := Suc (next_uuid (data s))\<rparr> \<and> \<not> aborted s'"
    by (simp add: claim_occurrence_def query_Inr_iff new_occurrence_def split: option.splits if_splits)
  with N show thesis by (intro fresh [of "the (pg_parse t)"]) auto
next
  case (Some x)
  then have x: "x \<in> set (occurrences_t (data s))" "o_occurrence_key x = key" by (auto dest: select_first_SomeD)
  show thesis
  proof (cases "o_status x = O_PENDING")
    case True
    with assms Some x show thesis
      by (intro again [of x]) (auto simp: claim_occurrence_def query_Inr_iff split: option.splits)
  next
    case False
    with assms Some x show thesis
      by (intro settled [of x]) (auto simp: claim_occurrence_def query_Inr_iff split: option.splits)
  qed
qed

lemma pay_Inr:
  assumes run: "pay r env s = (Inr t, s')"
  obtains fa ta s1 where "find_account_by_user_id (s_owner_user_id r) (data s) = Some fa"
    "find_account_by_user_id (s_payee_user_id r) (data s) = Some ta" "data s1 = data s" "locks s1 = locks s"
    "spent_since (now env - 24 * 3600 * 1000000) (a_id fa) (data s) + s_amount_minor r
       \<le> DAILY_TRANSFER_LIMIT_MINOR (cfg env)"
    "post_double_entry (pay_command r (a_id fa) (a_id ta)) env s1 = (Inr t, s')"
proof -
  from run obtain fo s1 po s2 i s3 j s4 spent s5 z s6 where
    f: "find_account_id_for_user (s_owner_user_id r) env s = (Inr fo, s1)"
      "find_account_id_for_user (s_payee_user_id r) env s1 = (Inr po, s2)"
      "the_or account_gone fo env s2 = (Inr i, s3)" "the_or account_gone po env s3 = (Inr j, s4)" and
    o: "outbound_in_window i env s4 = (Inr spent, s5)"
      "throw_if (DAILY_TRANSFER_LIMIT_MINOR (cfg env) < spent + s_amount_minor r)
       (limit_exceeded ''Scheduled payment would exceed the daily limit''
         [(''dailyLimitMinor'', JStr (int_text (DAILY_TRANSFER_LIMIT_MINOR (cfg env)))),
          (''alreadySentMinor'', JStr (int_text spent))]) env s5 = (Inr z, s6)" and
    p: "post_double_entry (pay_command r i j) env s6 = (Inr t, s')"
    unfolding pay_def tx_bind_Inr_iff env_Inr_iff
    by (elim exE conjE, hypsubst) (rule that, (assumption | rule refl | simp)+)
  have ids: "fo = Some i" "po = Some j" "s3 = s2" "s4 = s3" using f(3,4) by (auto simp: run_simps)
  note A = account_of_user_Inr [OF f(1) [unfolded ids(1)]] account_of_user_Inr [OF f(2) [unfolded ids(2)]]
  obtain fa ta where fa: "find_account_by_user_id (s_owner_user_id r) (data s) = Some fa" "i = a_id fa" and
    ta: "find_account_by_user_id (s_payee_user_id r) (data s) = Some ta" "j = a_id ta" and
    d4: "data s4 = data s" "locks s4 = locks s"
    using A ids(3,4) by auto
  have d6: "data s6 = data s" "locks s6 = locks s"
    "spent_since (now env - 24 * 3600 * 1000000) (a_id fa) (data s) + s_amount_minor r
       \<le> DAILY_TRANSFER_LIMIT_MINOR (cfg env)"
    using o d4 fa(2) by (auto simp: outbound_in_window_def run_simps)
  show thesis by (rule that [OF fa(1) ta(1) d6(1,2,3) p [unfolded fa(2) ta(2)]])
qed

lemma settle_occurrence_Inr:
  "settle_occurrence j st x m env s = (Inr u, s') \<Longrightarrow>
   data s' = (data s)\<lparr>occurrences_t := upd_where (\<lambda>q. o_id q = j) (settled_occurrence env st x m) (occurrences_t (data s))\<rparr> \<and>
   \<not> aborted s'"
  by (auto simp: settle_occurrence_def query_Inr_iff split: if_splits)

lemma advance_schedule_Inr:
  "advance_schedule i k b env s = (Inr u, s') \<Longrightarrow>
   data s' = (data s)\<lparr>schedules_t := upd_where (\<lambda>r. s_id r = i) (advanced env k b) (schedules_t (data s))\<rparr> \<and>
   \<not> aborted s'"
  by (auto simp: advance_schedule_def query_Inr_iff)

lemma defer_schedule_Inr:
  "defer_schedule i n env s = (Inr u, s') \<Longrightarrow>
   data s' = (data s)\<lparr>schedules_t := upd_where (\<lambda>r. s_id r = i)
     (\<lambda>r. r\<lparr>s_retry_after := Some (now env + n * 1000000)\<rparr>) (schedules_t (data s))\<rparr> \<and> \<not> aborted s'"
  by (auto simp: defer_schedule_def query_Inr_iff)

text \<open>The end of an occurrence: settled with a status, the schedule advanced, events written.\<close>

definition ended :: "env \<Rightarrow> uuid \<Rightarrow> occurrence_status \<Rightarrow> uuid option \<Rightarrow> string option \<Rightarrow> schedule_row \<Rightarrow> bool \<Rightarrow> db \<Rightarrow> db" where
  "ended env j st x m r consume d = d\<lparr>
     occurrences_t := upd_where (\<lambda>q. o_id q = j) (settled_occurrence env st x m) (occurrences_t d),
     schedules_t := upd_where (\<lambda>q. s_id q = s_id r) (advanced env (s_interval_kind r) consume) (schedules_t d)\<rparr>"

lemma run_paid_Inr:
  assumes "run_paid r oc t env s = (Inr y, s')"
  shows "y = Paid \<and> logged (ended env (co_id oc) O_PAID (Some (p_id t)) None r True (data s)) (data s') \<and> \<not> aborted s'"
proof -
  from assms obtain z1 s1 z2 s2 e1 z3 s3 e2 z4 where
    a: "settle_occurrence (co_id oc) O_PAID (Some (p_id t)) None env s = (Inr z1, s1)"
      "advance_schedule (s_id r) (s_interval_kind r) True env s1 = (Inr z2, s2)" and
    e: "enqueue_event e1 env s2 = (Inr z3, s3)" "enqueue_event e2 env s3 = (Inr z4, s')" and y: "y = Paid"
    unfolding run_paid_def tx_bind_Inr_iff return_Inr_iff
    by (elim exE conjE, hypsubst) (rule that, (assumption | rule refl | simp)+)
  have "data s2 = ended env (co_id oc) O_PAID (Some (p_id t)) None r True (data s)"
    using settle_occurrence_Inr [OF a(1)] advance_schedule_Inr [OF a(2)] by (simp add: ended_def)
  with enqueue_event_frame [OF e(1)] enqueue_event_frame [OF e(2)] y show ?thesis
    by (auto intro: logged_trans)
qed

lemma run_skipped_Inr:
  assumes "run_skipped r oc late env s = (Inr y, s')"
  shows "y = Skipped \<and> (\<exists>m. logged (ended env (co_id oc) O_SKIPPED None m r False (data s)) (data s')) \<and> \<not> aborted s'"
proof -
  from assms obtain m z1 s1 z2 s2 e1 z3 where
    a: "settle_occurrence (co_id oc) O_SKIPPED None m env s = (Inr z1, s1)"
      "advance_schedule (s_id r) (s_interval_kind r) False env s1 = (Inr z2, s2)" and
    e: "enqueue_event e1 env s2 = (Inr z3, s')" and y: "y = Skipped"
    unfolding run_skipped_def tx_bind_Inr_iff return_Inr_iff
    by (elim exE conjE, hypsubst) (rule that, (assumption | rule refl | simp)+)
  have "data s2 = ended env (co_id oc) O_SKIPPED None m r False (data s)"
    using settle_occurrence_Inr [OF a(1)] advance_schedule_Inr [OF a(2)] by (simp add: ended_def)
  with enqueue_event_frame [OF e] y show ?thesis by auto
qed

text \<open>A payment that failed: tried again later, or given up.\<close>

definition deferred :: "env \<Rightarrow> schedule_row \<Rightarrow> int \<Rightarrow> db \<Rightarrow> db" where
  "deferred env r n d = d\<lparr>schedules_t := upd_where (\<lambda>q. s_id q = s_id r)
     (\<lambda>q. q\<lparr>s_retry_after := Some (now env + n * 1000000)\<rparr>) (schedules_t d)\<rparr>"

lemma run_failed_Inr:
  assumes "run_failed r oc e env s = (Inr y, s')"
  shows "(y = Deferred \<and> co_attempts oc < SCHEDULE_MAX_ATTEMPTS (cfg env) \<and>
           data s' = deferred env r (SCHEDULE_RETRY_BASE_SECONDS (cfg env) * 2 ^ nat (co_attempts oc - 1)) (data s) \<and>
           \<not> aborted s') \<or>
         (y = Failed \<and> (\<exists>m. logged (ended env (co_id oc) O_FAILED None m r False (data s)) (data s')) \<and> \<not> aborted s')"
proof -
  obtain code msg where e: "error_parts e = (code, msg)" by fastforce
  show ?thesis
  proof (cases "can_retry env code (co_attempts oc)")
    case True
    with assms e show ?thesis
      by (auto simp: run_failed_def tx_bind_Inr_iff env_Inr_iff return_Inr_iff deferred_def can_retry_def
          dest!: defer_schedule_Inr)
  next
    case False
    from assms e False obtain m z1 s1 z2 s2 e1 z3 where
      a: "settle_occurrence (co_id oc) O_FAILED None m env s = (Inr z1, s1)"
        "advance_schedule (s_id r) (s_interval_kind r) False env s1 = (Inr z2, s2)" and
      e1: "enqueue_event e1 env s2 = (Inr z3, s')" and y: "y = Failed"
      by (simp add: run_failed_def tx_bind_Inr_iff return_Inr_iff env_Inr_iff)
        (elim exE conjE, (rule that, (assumption | rule refl | simp)+))
    have "data s2 = ended env (co_id oc) O_FAILED None m r False (data s)"
      using settle_occurrence_Inr [OF a(1)] advance_schedule_Inr [OF a(2)] by (simp add: ended_def)
    with enqueue_event_frame [OF e1] y show ?thesis by auto
  qed
qed

text \<open>One run, as a whole.\<close>

definition claimed_as :: "schedule_row \<Rightarrow> string \<Rightarrow> claimed_occurrence \<Rightarrow> db \<Rightarrow> db \<Rightarrow> bool" where
  "claimed_as r key oc d d1 \<longleftrightarrow>
     (\<exists>x\<in>set (occurrences_t d). oc = \<lparr>co_id = o_id x, co_attempts = o_attempts x + 1\<rparr> \<and>
        o_occurrence_key x = key \<and> o_status x = O_PENDING \<and>
        d1 = d\<lparr>occurrences_t := upd_where (\<lambda>q. o_occurrence_key q = key) retried (occurrences_t d)\<rparr>) \<or>
     (oc = \<lparr>co_id = next_uuid d, co_attempts = 1\<rparr> \<and> (\<forall>x\<in>set (occurrences_t d). o_occurrence_key x \<noteq> key) \<and>
        (\<exists>m. d1 = d\<lparr>occurrences_t := occurrences_t d @ [new_occurrence (next_uuid d) (s_id r) key m],
                  next_uuid := Suc (next_uuid d)\<rparr>))"

lemma run_schedule_Inr:
  assumes run: "run_schedule_tx i env s = (Inr y, s')"
  obtains (idle) "y = Not_Claimed" "data s' = data s" "\<not> aborted s'"
    | (duplicate) r x where "y = Duplicate_Run" "r \<in> set (schedules_t (data s))" "s_id r = i" "is_due env r"
      "x \<in> set (occurrences_t (data s))" "o_status x \<noteq> O_PENDING" "\<not> aborted s'"
      "data s' = (data s)\<lparr>schedules_t := upd_where (\<lambda>q. s_id q = s_id r)
         (advanced env (s_interval_kind r) False) (schedules_t (data s))\<rparr>"
    | (worked) r raw oc d1 s1 where "r \<in> set (schedules_t (data s))" "s_id r = i" "is_due env r"
      "claimed_as r (uuid_text (s_id r) @ CHR '':'' # raw) oc (data s) d1" "data s1 = d1" "\<not> aborted s1"
      "(if SCHEDULE_CATCHUP_GRACE_MS (cfg env) < date_now env - date_of_micros (s_next_run_at r)
        then run_skipped r oc (date_now env - date_of_micros (s_next_run_at r))
        else savepoint_try is_domain_error (pay r) (run_paid r oc) (run_failed r oc)) env s1 = (Inr y, s')"
proof -
  from run obtain cl s1 where c: "claim_due_schedule i env s = (Inr cl, s1)" and
    k: "(case cl of
       None \<Rightarrow> tx_return Not_Claimed
     | Some sc \<Rightarrow>
         (let r = sc_row sc in
         tx_bind (claim_occurrence (s_id r) (occurrence_key sc) (sc_next_raw sc)) (\<lambda>occurrence.
         case occurrence of
           None \<Rightarrow>
             tx_bind (advance_schedule (s_id r) (s_interval_kind r) False) (\<lambda>_. tx_return Duplicate_Run)
         | Some oc \<Rightarrow>
             tx_bind tx_env (\<lambda>env.
             (let lateBy = date_now env - date_of_micros (s_next_run_at r) in
              if SCHEDULE_CATCHUP_GRACE_MS (cfg env) < lateBy then run_skipped r oc lateBy
              else savepoint_try is_domain_error (pay r) (run_paid r oc) (run_failed r oc)))))) env s1 = (Inr y, s')"
    unfolding run_schedule_tx_def tx_bind_Inr_iff by blast
  note C = claim_due_Inr [OF c]
  show thesis
  proof (cases cl)
    case None
    with k C show thesis by (intro idle) (auto simp: return_Inr_iff)
  next
    case (Some sc)
    let ?r = "sc_row sc"
    have r: "?r \<in> set (schedules_t (data s))" "s_id ?r = i" "is_due env ?r" using C Some by auto
    from k obtain oo s2 where o: "claim_occurrence (s_id ?r) (occurrence_key sc) (sc_next_raw sc) env s1 = (Inr oo, s2)" and
      w: "(case oo of
           None \<Rightarrow>
             tx_bind (advance_schedule (s_id ?r) (s_interval_kind ?r) False) (\<lambda>_. tx_return Duplicate_Run)
         | Some oc \<Rightarrow>
             tx_bind tx_env (\<lambda>env.
             (let lateBy = date_now env - date_of_micros (s_next_run_at ?r) in
              if SCHEDULE_CATCHUP_GRACE_MS (cfg env) < lateBy then run_skipped ?r oc lateBy
              else savepoint_try is_domain_error (pay ?r) (run_paid ?r oc) (run_failed ?r oc)))) env s2 = (Inr y, s')"
      unfolding Some Let_def option.case tx_bind_Inr_iff by blast
    have work: thesis if "oo = Some oc" "claimed_as ?r (occurrence_key sc) oc (data s) (data s2)" "\<not> aborted s2" for oc
      using w that(1) that(2) [unfolded occurrence_key_def] that(3) r
      by (intro worked [of ?r "sc_next_raw sc" oc "data s2" s2])
        (simp_all add: tx_bind_Inr_iff env_Inr_iff Let_def)
    from o show thesis
    proof (cases rule: claim_occurrence_Inr)
      case (settled x)
      with w C r show thesis
        by (intro duplicate [of ?r x]) (auto simp: tx_bind_Inr_iff return_Inr_iff dest!: advance_schedule_Inr)
    next
      case (again x)
      with C show thesis by (intro work) (auto simp: claimed_as_def)
    next
      case (fresh m)
      with C show thesis by (intro work) (auto simp: claimed_as_def)
    qed
  qed
qed

text \<open>After the claim: skipped, deferred, failed, or paid by one movement.\<close>

lemma run_worked_Inr:
  assumes run: "(if late then run_skipped r oc n
        else savepoint_try is_domain_error (pay r) (run_paid r oc) (run_failed r oc)) env s = (Inr y, s')"
  obtains (ended) st m where "st = O_SKIPPED \<and> y = Skipped \<or> st = O_FAILED \<and> y = Failed" "\<not> aborted s'"
      "logged (ended env (co_id oc) st None m r False (data s)) (data s')"
    | (deferred) n where "y = Deferred" "co_attempts oc < SCHEDULE_MAX_ATTEMPTS (cfg env)"
      "data s' = deferred env r n (data s)" "\<not> aborted s'"
      "n = SCHEDULE_RETRY_BASE_SECONDS (cfg env) * 2 ^ nat (co_attempts oc - 1)"
    | (paid) fa ta p s1 s2 where "y = Paid" "\<not> aborted s'" "\<not> late"
      "find_account_by_user_id (s_owner_user_id r) (data s) = Some fa"
      "find_account_by_user_id (s_payee_user_id r) (data s) = Some ta" "data s1 = data s"
      "spent_since (now env - 24 * 3600 * 1000000) (a_id fa) (data s) + s_amount_minor r
         \<le> DAILY_TRANSFER_LIMIT_MINOR (cfg env)"
      "post_double_entry (pay_command r (a_id fa) (a_id ta)) env s1 = (Inr p, s2)"
      "logged (ended env (co_id oc) O_PAID (Some (p_id p)) None r True (data s2)) (data s')"
proof (cases late)
  case True
  with run show thesis using run_skipped_Inr [of r oc n env s y s'] by (auto intro: ended)
next
  case False
  then have t: "savepoint_try is_domain_error (pay r) (run_paid r oc) (run_failed r oc) env s = (Inr y, s')"
    using run by simp
  from t show thesis
  proof (cases rule: savepoint_try_cases)
    case (done_ok p s1 s2 s3)
    have d: "data s1 = data s" "data s3 = data s2" using done_ok(1,3) by (auto simp: command_Inr_iff)
    note R = run_paid_Inr [OF done_ok(4)]
    from done_ok(2) show thesis
      by (rule pay_Inr) (rule paid, use R d False in auto)
  next
    case (rolled_back e s1 s2 s3)
    have d: "data s3 = data s" using rolled_back(1,4) by (auto simp: command_Inr_iff)
    from run_failed_Inr [OF rolled_back(3)] show thesis unfolding d using ended deferred by blast
  qed
qed

section \<open>Settlement of occurrences\<close>

text \<open>A schedule never changes its parties or its amount.\<close>

definition same_order :: "schedule_row \<Rightarrow> schedule_row \<Rightarrow> bool" where
  "same_order r r' \<longleftrightarrow>
     s_id r' = s_id r \<and> s_owner_user_id r' = s_owner_user_id r \<and> s_payee_user_id r' = s_payee_user_id r \<and>
     s_amount_minor r' = s_amount_minor r"

definition orders_grow :: "db \<Rightarrow> db \<Rightarrow> bool" where
  "orders_grow d d' \<longleftrightarrow>
     grows d d' \<and> (\<forall>r\<in>set (schedules_t d). \<exists>r'\<in>set (schedules_t d'). same_order r r')"

text \<open>The key of an occurrence starts with the id of its schedule.\<close>

definition occurrence_of :: "schedule_row \<Rightarrow> occurrence_row \<Rightarrow> bool" where
  "occurrence_of r x \<longleftrightarrow> (\<exists>raw. o_occurrence_key x = uuid_text (s_id r) @ CHR '':'' # raw)"

definition pays :: "db \<Rightarrow> transfer_row \<Rightarrow> occurrence_row \<Rightarrow> bool" where
  "pays d t x \<longleftrightarrow>
     t_type t = SCHEDULED \<and>
     (\<exists>r\<in>set (schedules_t d). occurrence_of r x \<and> t_amount_minor t = s_amount_minor r \<and>
        account_user (t_from_account_id t) d = Some (s_owner_user_id r) \<and>
        account_user (t_to_account_id t) d = Some (s_payee_user_id r))"

definition occurrence_paid :: "occurrence_row \<Rightarrow> bool" where
  "occurrence_paid x \<longleftrightarrow> o_status x = O_PAID"

definition occurrence_well :: "occurrence_row \<Rightarrow> bool" where
  "occurrence_well x \<longleftrightarrow> 1 \<le> o_attempts x"

definition occurrences_settled :: "db \<Rightarrow> bool" where
  "occurrences_settled d \<longleftrightarrow>
     settled_rows occurrences_t o_id o_transfer_id occurrence_paid occurrence_well pays d"

definition occurrences_ok :: "db \<Rightarrow> bool" where
  "occurrences_ok d \<longleftrightarrow> occurrences_settled d \<and> keyed o_occurrence_key (occurrences_t d)"

lemma pays_grow:
  assumes g: "orders_grow d d'" and m: "same_movement t t'" and p: "pays d t x"
  shows "pays d' t' x"
proof -
  from p obtain r where r: "r \<in> set (schedules_t d)" "occurrence_of r x" "t_amount_minor t = s_amount_minor r"
    "account_user (t_from_account_id t) d = Some (s_owner_user_id r)"
    "account_user (t_to_account_id t) d = Some (s_payee_user_id r)" and t: "t_type t = SCHEDULED"
    unfolding pays_def by blast
  from g r(1) obtain r' where r': "r' \<in> set (schedules_t d')" "same_order r r'" unfolding orders_grow_def by blast
  show ?thesis
    unfolding pays_def
    using g r r' t m by (intro conjI bexI [of _ r'])
      (auto simp: orders_grow_def grows_def same_order_def same_movement_def occurrence_of_def)
qed

interpretation occ: settlement occurrences_t o_id o_transfer_id occurrence_paid occurrence_well pays
    orders_grow occurrences_settled
  by unfold_locales (simp_all add: occurrences_settled_def orders_grow_def [THEN iffD1, THEN conjunct1] pays_grow)

lemma same_order_refl [simp]: "same_order r r"
  by (simp add: same_order_def)

lemma orders_grow_schedules: "grows d d' \<Longrightarrow> schedules_t d' = schedules_t d \<Longrightarrow> orders_grow d d'"
  unfolding orders_grow_def using same_order_refl by metis

lemma orders_grow_refl: "orders_grow d d"
  by (rule orders_grow_schedules [OF grows_refl]) simp

lemma orders_grow_trans: "orders_grow d d1 \<Longrightarrow> orders_grow d1 d2 \<Longrightarrow> orders_grow d d2"
  unfolding orders_grow_def using grows_trans by (auto simp: same_order_def) metis

lemma orders_grow_upd:
  assumes f: "\<And>r. same_order r (f r)" and b: "same_books d d'" and s: "schedules_t d' = upd_where P f (schedules_t d)"
  shows "orders_grow d d'"
proof -
  have "\<exists>r'\<in>set (upd_where P f xs). same_order r r'" if "r \<in> set xs" for r xs
    using that f by (induction xs) auto
  then show ?thesis using grows_same_books [OF b] by (simp add: orders_grow_def s)
qed

lemma same_order_advanced: "same_order r (advanced env k b r)"
  by (simp add: same_order_def advanced_def split: option.splits)

lemma orders_grow_ended: "orders_grow d (ended env j st x m r b d)"
  by (rule orders_grow_upd [OF same_order_advanced]) (simp_all add: ended_def same_books_def)

lemma orders_grow_deferred: "orders_grow d (deferred env r n d)"
  unfolding deferred_def
  by (rule orders_grow_upd [where f = "\<lambda>q. q\<lparr>s_retry_after := Some (now env + n * 1000000)\<rparr>"])
    (simp_all add: same_books_def same_order_def)

lemma occurrences_ok_ext: "occurrences_ok d \<Longrightarrow> orders_grow d d' \<Longrightarrow> occurrences_t d' = occurrences_t d \<Longrightarrow> occurrences_ok d'"
  unfolding occurrences_ok_def using occ.ok_ext [of d d'] by simp

lemma orders_grow_logged: "logged d d' \<Longrightarrow> orders_grow d d'"
  by (intro orders_grow_schedules grows_same_books) (simp_all add: logged_simps same_books_def)

lemma occurrences_ok_logged: "occurrences_ok d \<Longrightarrow> logged d d' \<Longrightarrow> occurrences_ok d'"
  by (rule occurrences_ok_ext [OF _ orders_grow_logged]) (simp_all add: logged_simps)

text \<open>A claim leaves one pending row with the key.\<close>

definition pending_as :: "uuid \<Rightarrow> string \<Rightarrow> int \<Rightarrow> db \<Rightarrow> bool" where
  "pending_as j key n d \<longleftrightarrow>
     (\<exists>x\<in>set (occurrences_t d). o_id x = j \<and> o_occurrence_key x = key \<and> o_status x = O_PENDING \<and> o_attempts x = n)"

lemma orders_grow_occurrences:
  "orders_grow d (d\<lparr>occurrences_t := xs\<rparr>)"
  "next_uuid d \<le> n \<Longrightarrow> orders_grow d (d\<lparr>occurrences_t := xs, next_uuid := n\<rparr>)"
  by (intro orders_grow_schedules grows_same_books; simp add: same_books_def)+

lemma retried_simps [simp]:
  "o_id (retried x) = o_id x" "o_occurrence_key (retried x) = o_occurrence_key x" "o_status (retried x) = o_status x"
  "o_transfer_id (retried x) = o_transfer_id x" "o_attempts (retried x) = o_attempts x + 1"
  by (simp_all add: retried_def)

lemma claimed_occurrences:
  assumes ok: "occurrences_ok d" and c: "claimed_as r key oc d d1"
  shows "occurrences_ok d1" and "pending_as (co_id oc) key (co_attempts oc) d1" and "orders_grow d d1"
proof -
  have s: "occurrences_settled d" and k: "keyed o_occurrence_key (occurrences_t d)"
    using ok by (simp_all add: occurrences_ok_def)
  have "occurrences_ok d1 \<and> pending_as (co_id oc) key (co_attempts oc) d1 \<and> orders_grow d d1"
    using c unfolding claimed_as_def
  proof (elim disjE bexE exE conjE)
    fix x assume x: "x \<in> set (occurrences_t d)" "o_occurrence_key x = key" "o_status x = O_PENDING"
      and oc: "oc = \<lparr>co_id = o_id x, co_attempts = o_attempts x + 1\<rparr>"
      and d1: "d1 = d\<lparr>occurrences_t := upd_where (\<lambda>q. o_occurrence_key q = key) retried (occurrences_t d)\<rparr>"
    have eq: "q = x" if "q \<in> set (occurrences_t d)" "o_occurrence_key q = key" for q
      using keyed_inj [OF k that(1) x(1)] that(2) x(2) by simp
    have "occurrences_settled d1" unfolding d1
      by (rule occ.ok_ended [OF s orders_grow_occurrences(1), where f = retried and P = "\<lambda>q. o_occurrence_key q = key"])
        (use x(3) in \<open>auto simp: occurrence_paid_def occurrence_well_def dest: eq\<close>)
    moreover have "keyed o_occurrence_key (occurrences_t d1)" using k by (simp add: d1 keyed_upd_where)
    moreover have "pending_as (co_id oc) key (co_attempts oc) d1"
      unfolding pending_as_def d1 oc using x by (auto simp: set_upd_where intro!: bexI [of _ "retried x"])
    ultimately show ?thesis using orders_grow_occurrences(1) by (simp add: occurrences_ok_def d1)
  next
    fix m assume oc: "oc = \<lparr>co_id = next_uuid d, co_attempts = 1\<rparr>" and n: "\<forall>x\<in>set (occurrences_t d). o_occurrence_key x \<noteq> key"
      and d1: "d1 = d\<lparr>occurrences_t := occurrences_t d @ [new_occurrence (next_uuid d) (s_id r) key m],
                  next_uuid := Suc (next_uuid d)\<rparr>"
    have g: "orders_grow d d1" unfolding d1 by (rule orders_grow_occurrences(2)) simp
    have "occurrences_settled d1"
      by (rule occ.ok_insert [OF s g, where r = "new_occurrence (next_uuid d) (s_id r) key m"])
        (simp_all add: d1 new_occurrence_def occurrence_well_def occurrence_paid_def)
    moreover have "keyed o_occurrence_key (occurrences_t d1)"
      using k n by (simp add: d1 keyed_append1 new_occurrence_def)
    moreover have "pending_as (co_id oc) key (co_attempts oc) d1"
      by (simp add: pending_as_def d1 oc new_occurrence_def)
    ultimately show ?thesis using g by (simp add: occurrences_ok_def)
  qed
  then show "occurrences_ok d1" "pending_as (co_id oc) key (co_attempts oc) d1" "orders_grow d d1" by simp_all
qed

lemma settled_occurrence_simps [simp]:
  "o_id (settled_occurrence env st t m x) = o_id x" "o_status (settled_occurrence env st t m x) = st"
  "o_occurrence_key (settled_occurrence env st t m x) = o_occurrence_key x"
  "o_transfer_id (settled_occurrence env st t m x) = t" "o_attempts (settled_occurrence env st t m x) = o_attempts x"
  by (simp_all add: settled_occurrence_def)

lemma ended_simps [simp]:
  "occurrences_t (ended env j st t m r b d) =
     upd_where (\<lambda>q. o_id q = j) (settled_occurrence env st t m) (occurrences_t d)"
  "transfers_t (ended env j st t m r b d) = transfers_t d" "next_uuid (ended env j st t m r b d) = next_uuid d"
  by (simp_all add: ended_def)

lemma ended_occurrences:
  assumes ok: "occurrences_ok d" and p: "pending_as j key n d" and st: "st \<noteq> O_PAID"
  shows "occurrences_ok (ended env j st None m r b d)"
proof -
  have s: "occurrences_settled d" and k: "keyed o_occurrence_key (occurrences_t d)"
    using ok by (simp_all add: occurrences_ok_def)
  from p obtain x where x: "x \<in> set (occurrences_t d)" "o_id x = j" "o_status x = O_PENDING" by (auto simp: pending_as_def)
  have eq: "q = x" if "q \<in> set (occurrences_t d)" "o_id q = j" for q
    using keyed_inj [OF occ.ok_keyed [OF s] that(1) x(1)] that(2) x(2) by simp
  have "occurrences_settled (ended env j st None m r b d)"
    by (rule occ.ok_ended [OF s orders_grow_ended, where f = "settled_occurrence env st None m" and P = "\<lambda>q. o_id q = j"])
      (use st x(3) in \<open>auto simp: occurrence_paid_def occurrence_well_def dest: eq\<close>)
  with k show ?thesis by (simp add: occurrences_ok_def keyed_upd_where)
qed

lemma paid_occurrences:
  assumes ok: "occurrences_ok d" and p: "pending_as j key n d" and key: "key = uuid_text (s_id r) @ CHR '':'' # raw"
    and books: "ledger_ok d" and r: "r \<in> set (schedules_t d)"
    and fa: "find_account_by_user_id (s_owner_user_id r) d = Some fa"
    and ta: "find_account_by_user_id (s_payee_user_id r) d = Some ta"
    and post: "post_double_entry (pay_command r (a_id fa) (a_id ta)) env s1 = (Inr q, s2)" and s1: "data s1 = d"
  shows "occurrences_ok (ended env j O_PAID (Some (p_id q)) None r True (data s2))" (is "occurrences_ok ?d")
    and "orders_grow d (data s2)"
proof -
  let ?c = "pay_command r (a_id fa) (a_id ta)"
  have s: "occurrences_settled d" and k: "keyed o_occurrence_key (occurrences_t d)"
    using ok by (simp_all add: occurrences_ok_def)
  from p obtain x where x: "x \<in> set (occurrences_t d)" "o_id x = j" "o_occurrence_key x = key" by (auto simp: pending_as_def)
  from post obtain src dst where m: "movable ?c src dst (data s1)" and
    d2: "data s2 = movement_applied (next_entry_ids env (data s1)) ?c (movement_row ?c (p_reference q) (p_id q) (now env)) src dst (data s1)"
      "p_id q = next_uuid (data s1)"
    by (rule post_double_entry_Inr)
  let ?t = "movement_row ?c (p_reference q) (p_id q) (now env)"
  have R: "occurrences_t (data s2) = occurrences_t d" "next_uuid (data s2) = Suc (next_uuid d)"
    "transfers_t (data s2) = transfers_t d @ [?t]" "schedules_t (data s2) = schedules_t d"
    unfolding d2 s1 by (simp_all add: movement_applied_def)
  have g2: "orders_grow d (data s2)"
    using orders_grow_schedules [OF grows_movement [OF m]] R(4) unfolding d2(1) s1 by simp
  have g: "orders_grow d ?d" using g2 orders_grow_ended by (rule orders_grow_trans)
  have ne: "pc_from ?c \<noteq> pc_to ?c" using m by (simp add: movable_def)
  have "pays (data s2) ?t x"
    unfolding pays_def occurrence_of_def x(3) key d2(1) s1
    using r account_of_user [OF books fa] account_of_user [OF books ta] ne
    by (auto simp: account_user_movement pay_command_def intro!: bexI [of _ r]) (simp add: movement_applied_def)
  from pays_grow [OF orders_grow_ended same_movement_refl this]
  have t: "pays ?d ?t x" .
  have eq: "y = x" if "y \<in> set (occurrences_t d)" "o_id y = j" for y
    using keyed_inj [OF occ.ok_keyed [OF s] that(1) x(1)] that(2) x(2) by simp
  have "occurrences_settled ?d"
  proof (rule occ.ok_paid [OF s g, where f = "settled_occurrence env O_PAID (Some (p_id q)) None" and i = "p_id q"
      and P = "\<lambda>q. o_id q = j" and j = j])
    show "\<exists>t\<in>set (transfers_t ?d). t_id t = p_id q \<and> pays ?d t (settled_occurrence env O_PAID (Some (p_id q)) None y)"
      if "y \<in> set (occurrences_t d)" "o_id y = j" for y
      using t eq [OF that] by (auto simp: R pays_def occurrence_of_def)
    show "o_transfer_id y \<noteq> Some (p_id q)" if "y \<in> set (occurrences_t d)" for y
      using occ.paid_by_less [OF s that] d2(2) s1 by auto
  qed (simp_all add: R d2(2) s1 occurrence_paid_def occurrence_well_def)
  with k show "occurrences_ok ?d" by (simp add: occurrences_ok_def keyed_upd_where R)
  show "orders_grow d (data s2)" by (rule g2)
qed

lemma claimed_books:
  assumes "claimed_as r key oc d d1"
  shows "same_books d d1" and "schedules_t d1 = schedules_t d"
  using assms by (auto simp: claimed_as_def same_books_def)

lemma advanced_orders_grow:
  "orders_grow d (d\<lparr>schedules_t := upd_where P (advanced env k b) (schedules_t d)\<rparr>)"
  by (rule orders_grow_upd [OF same_order_advanced]) (simp_all add: same_books_def)

text \<open>Money moves exactly when the outcome is \<open>Paid\<close>, and the occurrences stay sound.\<close>

definition moved_as_ordered :: "env \<Rightarrow> uuid \<Rightarrow> db \<Rightarrow> db \<Rightarrow> bool" where
  "moved_as_ordered env i d d' \<longleftrightarrow>
     (\<exists>r\<in>set (schedules_t d). \<exists>t fa ta x.
        s_id r = i \<and> is_due env r \<and>
        find_account_by_user_id (s_owner_user_id r) d = Some fa \<and>
        find_account_by_user_id (s_payee_user_id r) d = Some ta \<and>
        a_status fa = A_ACTIVE \<and> s_amount_minor r \<le> a_balance_minor fa \<and>
        spent_since (now env - 24 * 3600 * 1000000) (a_id fa) d + s_amount_minor r
          \<le> DAILY_TRANSFER_LIMIT_MINOR (cfg env) \<and>
        transfers_t d' = transfers_t d @ [t] \<and> t_type t = SCHEDULED \<and> t_amount_minor t = s_amount_minor r \<and>
        t_from_account_id t = a_id fa \<and> t_to_account_id t = a_id ta \<and>
        x \<in> set (occurrences_t d') \<and> o_status x = O_PAID \<and> o_transfer_id x = Some (t_id t))"

lemma account_by_id_books: "same_books d d' \<Longrightarrow> find_account_by_user_id u d' = find_account_by_user_id u d"
  by (simp add: same_books_def find_account_by_user_id_def)

lemma spent_books: "same_books d d' \<Longrightarrow> spent_since t a d' = spent_since t a d"
  by (simp add: same_books_def spent_since_def)

lemma run_schedule_safe:
  assumes run: "run_schedule_tx i env s = (Inr y, s')" and books: "ledger_ok (data s)" and ok: "occurrences_ok (data s)"
  shows "occurrences_ok (data s') \<and> orders_grow (data s) (data s') \<and>
    (if y = Paid then moved_as_ordered env i (data s) (data s')
     else transfers_t (data s') = transfers_t (data s) \<and> accounts_t (data s') = accounts_t (data s))"
  using run
proof (cases rule: run_schedule_Inr)
  case idle
  with ok orders_grow_refl show ?thesis by simp
next
  case (duplicate r x)
  have "orders_grow (data s) (data s')" unfolding duplicate(8) by (rule advanced_orders_grow)
  with duplicate ok show ?thesis using occurrences_ok_ext [OF ok] by simp
next
  case (worked r raw oc d1 s1)
  note C = claimed_occurrences [OF ok worked(4)] and B = claimed_books [OF worked(4)]
  have d1: "data s1 = d1" by (rule worked(5))
  from worked(7) show ?thesis
  proof (cases rule: run_worked_Inr)
    case (ended st m)
    have e: "occurrences_ok (ended env (co_id oc) st None m r False d1)"
      by (rule ended_occurrences [OF C(1,2)]) (use ended(1) in auto)
    have "orders_grow d1 (data s')"
      using orders_grow_trans [OF orders_grow_ended orders_grow_logged [OF ended(3)]] d1 by simp
    with C(3) have "orders_grow (data s) (data s')" by (rule orders_grow_trans)
    moreover have "occurrences_ok (data s')" using occurrences_ok_logged [OF e] ended(3) d1 by simp
    ultimately show ?thesis
      using ended(1) logged_simps [OF ended(3)] d1 B(1) by (auto simp: ended_def same_books_def)
  next
    case (deferred n)
    have "orders_grow d1 (data s')" using orders_grow_deferred deferred(3) d1 by simp
    with C(1,3) show ?thesis
      using deferred(1,3) d1 B(1) occurrences_ok_ext [OF C(1), of "data s'"] orders_grow_trans
      by (auto simp: deferred_def same_books_def)
  next
    case (paid fa ta p sa s2)
    let ?c = "pay_command r (a_id fa) (a_id ta)"
    have bk1: "ledger_ok d1" by (rule ledger_frame [OF books B(1)])
    have r1: "r \<in> set (schedules_t d1)" using worked(1) B(2) by simp
    note P = paid_occurrences [OF C(1,2) refl bk1 r1 paid(4,5) [unfolded d1] paid(8) paid(6) [unfolded d1]]
    have ok': "occurrences_ok (data s')" by (rule occurrences_ok_logged [OF P(1) paid(9)])
    have g: "orders_grow (data s) (data s')"
      using orders_grow_trans [OF C(3) orders_grow_trans [OF P(2) orders_grow_trans [OF orders_grow_ended
        orders_grow_logged [OF paid(9)]]]] .
    from paid(8) obtain src dst where m: "movable ?c src dst (data sa)" and
      d2: "data s2 = movement_applied (next_entry_ids env (data sa)) ?c (movement_row ?c (p_reference p) (p_id p) (now env)) src dst (data sa)"
      by (rule post_double_entry_Inr)
    let ?t = "movement_row ?c (p_reference p) (p_id p) (now env)"
    have F: "find_account_by_user_id (s_owner_user_id r) (data s) = Some fa"
      "find_account_by_user_id (s_payee_user_id r) (data s) = Some ta"
      using paid(4,5) account_by_id_books [OF B(1)] d1 by simp_all
    have src: "src = fa" "a_status fa = A_ACTIVE" "s_amount_minor r \<le> a_balance_minor fa"
      using m account_of_user(1,3) [OF bk1 paid(4) [unfolded d1]] paid(6) d1
      by (auto simp: movable_def pay_command_def)
    obtain x where x: "x \<in> set (occurrences_t d1)" "o_id x = co_id oc" using C(2) by (auto simp: pending_as_def)
    have "settled_occurrence env O_PAID (Some (p_id p)) None x \<in> set (occurrences_t (data s'))"
      using x paid(6) d1 unfolding logged_simps [OF paid(9)] ended_simps d2
      by (auto simp: set_upd_where movement_applied_def)
    moreover have "transfers_t (data s') = transfers_t (data s) @ [?t]"
      using B(1) paid(6) d1 unfolding logged_simps [OF paid(9)] ended_simps d2
      by (simp add: movement_applied_def same_books_def)
    ultimately have "moved_as_ordered env i (data s) (data s')"
      unfolding moved_as_ordered_def
      using worked(1-3) F src paid(7) d1 spent_books [OF B(1)]
      by (intro bexI [of _ r] exI [of _ ?t] exI [of _ fa] exI [of _ ta]
          exI [of _ "settled_occurrence env O_PAID (Some (p_id p)) None x"]) (auto simp: pay_command_def)
    with ok' g paid(1) show ?thesis by simp
  qed
qed

end
