(* ===== verification/Dispatcher_Safety.thy ===== *)
theory Dispatcher_Safety
  imports Dispatcher Samples
begin

text \<open>
  Exactly-once delivery: a user has at most one notification of an event, and only of events that are
  marked as processed, whatever fails and is rolled back inside a batch.
\<close>

definition notes_ok :: "db \<Rightarrow> bool" where
  "notes_ok d \<longleftrightarrow>
     keyed (\<lambda>n. (n_user_id n, n_event_id n)) (notifications_t d) \<and> keyed x_id (outbox_t d) \<and>
     (\<forall>x\<in>set (outbox_t d). x_id x < next_uuid d) \<and>
     (\<forall>n\<in>set (notifications_t d). \<exists>x\<in>set (outbox_t d). x_id x = n_event_id n \<and> x_status x = X_PROCESSED)"

section \<open>One event\<close>

text \<open>\<open>told i d d'\<close>: at most one notification was added, and it is the first of its user for event i.\<close>

definition told :: "uuid \<Rightarrow> db \<Rightarrow> db \<Rightarrow> bool" where
  "told i d d' \<longleftrightarrow> d' = d \<or>
     (\<exists>n. d' = d\<lparr>notifications_t := notifications_t d @ [n], next_uuid := Suc (next_uuid d)\<rparr> \<and>
          n_event_id n = i \<and>
          (\<forall>m\<in>set (notifications_t d). (n_user_id m, n_event_id m) \<noteq> (n_user_id n, i)))"

lemma told_refl [simp]: "told i d d"
  by (simp add: told_def)

lemma told_new:
  "(\<forall>m\<in>set (notifications_t d). \<not> (n_user_id m = u \<and> n_event_id m = i)) \<Longrightarrow>
   told i d (d\<lparr>notifications_t := notifications_t d @ [notification_of j u i ty p t], next_uuid := Suc (next_uuid d)\<rparr>)"
  unfolding told_def by (rule disjI2, rule exI [of _ "notification_of j u i ty p t"]) (simp add: notification_of_def)

text \<open>A delivery of event i: what it leaves when it returns.\<close>

definition delivers :: "uuid \<Rightarrow> nat tx \<Rightarrow> bool" where
  "delivers i m \<longleftrightarrow> (\<forall>env s n s'. m env s = (Inr n, s') \<and> \<not> aborted s \<longrightarrow>
     told i (data s) (data s') \<and> \<not> aborted s' \<and> n \<le> 1)"

lemma notify_Inr:
  assumes "notify u i ty p env s = (Inr x, s')"
  shows "told i (data s) (data s') \<and> \<not> aborted s'"
  using assms unfolding notify_def query_Inr_iff
  by (auto simp: list_ex_iff intro!: told_new split: if_splits)

lemma delivers_return: "delivers i (tx_return 0)"
  by (simp add: delivers_def return_Inr_iff)

lemma delivers_tell: "delivers (er_id e) (tell u e ty p)"
proof -
  have "told (er_id e) (data s) (data s') \<and> \<not> aborted s' \<and> n \<le> 1"
    if run: "tell u e ty p env s = (Inr n, s')" and s: "\<not> aborted s" for env s n s'
  proof (cases "u = None \<or> u = Some []")
    case True
    with run s show ?thesis by (auto simp: tell_def return_Inr_iff)
  next
    case False
    from run False obtain q s1 s2 where "from_sum p env s = (Inr q, s1)"
      "notify (the u) (er_id e) ty q env s1 = (Inr (), s2)" "n = 1" "s' = s2"
      by (auto simp: tell_def tx_bind_Inr_iff return_Inr_iff)
    moreover from this(1) have "s1 = s" by (cases p) (auto simp: run_simps from_sum_def)
    ultimately show ?thesis using notify_Inr by simp
  qed
  then show ?thesis by (auto simp: delivers_def)
qed

lemma delivers_if: "delivers i m \<Longrightarrow> delivers i n \<Longrightarrow> delivers i (if c then m else n)"
  by simp

lemma delivers_handle_event: "delivers (er_id e) (handle_event e)"
  unfolding handle_event_def Let_def by (intro delivers_if delivers_tell delivers_return)

lemma deliver_Inr:
  assumes "deliver x env s = (Inr n, s')" and "\<not> aborted s"
  shows "told (x_id x) (data s) (data s') \<and> \<not> aborted s'"
  using assms delivers_handle_event [of "event_record x"]
  by (fastforce simp: deliver_def delivers_def tx_bind_Inr_iff command_Inr_iff return_Inr_iff event_record_def)

section \<open>A batch\<close>

text \<open>The events still to be delivered are pending; the one in hand is there.\<close>

definition batch_ok :: "outbox_row list \<Rightarrow> db \<Rightarrow> bool" where
  "batch_ok xs d \<longleftrightarrow> notes_ok d \<and>
     (\<forall>x\<in>set xs. \<exists>z\<in>set (outbox_t d). x_id z = x_id x \<and> x_status z = X_PENDING)"

lemma batch_ok_tl: "batch_ok (x # xs) d \<Longrightarrow> batch_ok xs d"
  by (simp add: batch_ok_def)

lemma batch_row:
  assumes "batch_ok (x # xs) d" and z: "z \<in> set (outbox_t d)" "x_id z = x_id x"
  shows "x_status z = X_PENDING"
proof -
  obtain y where y: "y \<in> set (outbox_t d)" "x_id y = x_id x" "x_status y = X_PENDING" and
    k: "keyed x_id (outbox_t d)" using assms(1) by (auto simp: batch_ok_def notes_ok_def)
  have "z = y" by (rule keyed_inj [OF k z(1) y(1)]) (simp add: z(2) y(2))
  with y(3) show ?thesis by simp
qed

lemma no_note:
  assumes "batch_ok (x # xs) d" and "n \<in> set (notifications_t d)"
  shows "n_event_id n \<noteq> x_id x"
proof
  assume e: "n_event_id n = x_id x"
  obtain z where "z \<in> set (outbox_t d)" "x_id z = n_event_id n" "x_status z = X_PROCESSED"
    using assms unfolding batch_ok_def notes_ok_def by blast
  with batch_row [OF assms(1), of z] e show False by simp
qed

lemma upd_rows:
  assumes "\<And>z. x_id (f z) = x_id z" and "z \<in> set (outbox_t d)"
  shows "\<exists>z'\<in>set (upd_where (\<lambda>q. x_id q = i) f (outbox_t d)). x_id z' = x_id z \<and>
    (x_id z \<noteq> i \<longrightarrow> x_status z' = x_status z) \<and> (x_id z = i \<longrightarrow> x_status z' = x_status (f z))"
  using assms by (auto simp: set_upd_where)

lemma batch_ok_upd:
  assumes ok: "batch_ok (x # xs) d" and f: "\<And>z. x_id (f z) = x_id z" and x: "\<forall>y\<in>set xs. x_id y \<noteq> x_id x"
    and new: "told (x_id x) d d'" and st: "d' \<noteq> d \<Longrightarrow> \<forall>z. x_status (f z) = X_PROCESSED"
  shows "batch_ok xs (d'\<lparr>outbox_t := upd_where (\<lambda>q. x_id q = x_id x) f (outbox_t d')\<rparr>)" (is "batch_ok xs ?d")
proof -
  have o: "outbox_t d' = outbox_t d" "next_uuid d \<le> next_uuid d'" using new by (auto simp: told_def)
  have n: "notes_ok d" using ok by (simp add: batch_ok_def)
  have k: "keyed (\<lambda>n. (n_user_id n, n_event_id n)) (notifications_t d')"
    using n new by (auto simp: notes_ok_def told_def keyed_append1)
  have ids: "x_id z < next_uuid d'" if "z \<in> set (upd_where (\<lambda>q. x_id q = x_id x) f (outbox_t d))" for z
    using that n o(2) by (fastforce simp: notes_ok_def set_upd_where f)
  have proc: "\<exists>z\<in>set (outbox_t ?d). x_id z = n_event_id m \<and> x_status z = X_PROCESSED"
    if m: "m \<in> set (notifications_t d')" for m
  proof (cases "m \<in> set (notifications_t d)")
    case True
    then obtain z where z: "z \<in> set (outbox_t d)" "x_id z = n_event_id m" "x_status z = X_PROCESSED"
      using n by (auto simp: notes_ok_def)
    with no_note [OF ok True] upd_rows [of f, OF f z(1), of "x_id x"] show ?thesis by (auto simp: o)
  next
    case False
    then have m': "n_event_id m = x_id x" "d' \<noteq> d" using m new by (auto simp: told_def)
    obtain z where z: "z \<in> set (outbox_t d)" "x_id z = x_id x" using ok by (auto simp: batch_ok_def)
    with upd_rows [of f, OF f z(1), of "x_id x"] st m' show ?thesis by (auto simp: o)
  qed
  have "\<exists>z\<in>set (outbox_t ?d). x_id z = x_id y \<and> x_status z = X_PENDING" if y: "y \<in> set xs" for y
  proof -
    obtain z where z: "z \<in> set (outbox_t d)" "x_id z = x_id y" "x_status z = X_PENDING"
      using ok y by (auto simp: batch_ok_def)
    with x y upd_rows [of f, OF f z(1), of "x_id x"] show ?thesis by (auto simp: o)
  qed
  with k ids proc n show ?thesis
    by (auto simp: batch_ok_def notes_ok_def o keyed_upd_where f)
qed

lemma row_updates [simp]:
  "x_id (processed_row z) = x_id z" "x_status (processed_row z) = X_PROCESSED"
  "x_id (failed_event_row t k m z) = x_id z"
  by (simp_all add: processed_row_def failed_event_row_def)

lemma fail_event_Inr:
  assumes "fail_event msg x res saved e env s = (Inr (res', saved'), s')"
  shows "saved' = saved" and "\<not> aborted s'"
    and "\<exists>t k m. data s' = (data s)\<lparr>outbox_t := upd_where (\<lambda>z. x_id z = x_id x) (failed_event_row t k m) (outbox_t (data s))\<rparr>"
  using assms
  by (auto simp: fail_event_def mark_event_failed_def tx_bind_Inr_iff command_Inr_iff query_Inr_iff return_Inr_iff)

lemma fail_event_ok:
  assumes "fail_event msg x res saved e env s = (Inr (res', saved'), s')"
    and "batch_ok (x # xs) (data s)" and "\<forall>y\<in>set xs. x_id y \<noteq> x_id x"
  shows "batch_ok xs (data s')"
proof -
  obtain t k m where d: "data s' = (data s)\<lparr>outbox_t := upd_where (\<lambda>z. x_id z = x_id x) (failed_event_row t k m) (outbox_t (data s))\<rparr>"
    using fail_event_Inr(3) [OF assms(1)] by blast
  show ?thesis unfolding d
    by (rule batch_ok_upd [OF assms(2) _ assms(3)]) simp_all
qed

lemma mark_processed_Inr:
  "mark_processed i env s = (Inr u, s') \<Longrightarrow>
   data s' = (data s)\<lparr>outbox_t := upd_where (\<lambda>z. x_id z = i) processed_row (outbox_t (data s))\<rparr> \<and> \<not> aborted s'"
  by (auto simp: mark_processed_def query_Inr_iff)

lemma dispatch_event_ok:
  assumes run: "dispatch_event msg x (res, saved) env s = (Inr (res', saved'), s')"
    and ok: "batch_ok (x # xs) (data s)" "\<forall>d0\<in>set saved. batch_ok (x # xs) d0"
    and x: "\<forall>y\<in>set xs. x_id y \<noteq> x_id x" and live: "\<not> aborted s"
  shows "batch_ok xs (data s') \<and> (\<forall>d0\<in>set saved'. batch_ok xs d0) \<and> \<not> aborted s'"
proof -
  from run obtain s0 where s0: "command env s = (Inr (), s0)" and
    r: "(case deliver x env s0 of
         (Inl e, s1) \<Rightarrow>
           fail_event msg x res (data s0 # saved) e env (s1\<lparr>data := data s0, aborted := aborted s0\<rparr>)
       | (Inr delivered, s1) \<Rightarrow>
           (case mark_processed (x_id x) env s1 of
              (Inr _, s2) \<Rightarrow>
                (Inr (res\<lparr>dr_processed := Suc (dr_processed res),
                          dr_notifications := dr_notifications res + delivered\<rparr>, saved), s2)
            | (Inl e, s2) \<Rightarrow>
                (case saved of
                   [] \<Rightarrow> query (\<lambda>_ _. Inl NO_SAVEPOINT) env s2
                 | d0 # _ \<Rightarrow>
                     fail_event msg x res saved e env (s2\<lparr>data := d0, aborted := False\<rparr>))))
      = (Inr (res', saved'), s')"
    unfolding dispatch_event_def prod.case tx_bind_Inr_iff by (elim exE conjE) (rule that, simp_all)
  have d0: "data s0 = data s" "\<not> aborted s0" using s0 live by (auto simp: command_Inr_iff)
  obtain z s1 where z: "deliver x env s0 = (z, s1)" by fastforce
  show ?thesis
  proof (cases z)
    case (Inl e)
    have f: "fail_event msg x res (data s0 # saved) e env (s1\<lparr>data := data s0, aborted := aborted s0\<rparr>) =
        (Inr (res', saved'), s')" using r z Inl by simp
    have "batch_ok xs (data s')" by (rule fail_event_ok [OF f _ x]) (simp add: d0 ok(1))
    with fail_event_Inr(1,2) [OF f] ok show ?thesis by (auto simp: d0 intro: batch_ok_tl)
  next
    case (Inr n)
    have t: "told (x_id x) (data s) (data s1)" using deliver_Inr [of x env s0 n s1] z Inr d0 by simp
    obtain q s2 where q: "mark_processed (x_id x) env s1 = (q, s2)" by fastforce
    show ?thesis
    proof (cases q)
      case (Inr u)
      have s': "data s' = (data s1)\<lparr>outbox_t := upd_where (\<lambda>z. x_id z = x_id x) processed_row (outbox_t (data s1))\<rparr>"
        "saved' = saved" "\<not> aborted s'"
        using r z \<open>z = Inr n\<close> q Inr mark_processed_Inr [of "x_id x" env s1 u s2] by auto
      have "batch_ok xs (data s')" unfolding s'(1) by (rule batch_ok_upd [OF ok(1) _ x t]) simp_all
      with s' ok show ?thesis by (auto intro: batch_ok_tl)
    next
      case (Inl e)
      show ?thesis
      proof (cases saved)
        case Nil
        with r z \<open>z = Inr n\<close> q Inl show ?thesis by (simp add: query_Inr_iff)
      next
        case (Cons d0 ds)
        have f: "fail_event msg x res saved e env (s2\<lparr>data := d0, aborted := False\<rparr>) = (Inr (res', saved'), s')"
          using r z \<open>z = Inr n\<close> q Inl Cons by simp
        have "batch_ok xs (data s')" by (rule fail_event_ok [OF f _ x]) (simp add: ok(2) Cons)
        with fail_event_Inr(1,2) [OF f] ok show ?thesis by (auto intro: batch_ok_tl)
      qed
    qed
  qed
qed

lemma dispatch_events_ok:
  assumes "dispatch_events msg xs (res, saved) env s = (Inr (res', saved'), s')"
    and "batch_ok xs (data s)" "\<forall>d0\<in>set saved. batch_ok xs d0" "distinct (map x_id xs)" "\<not> aborted s"
  shows "notes_ok (data s') \<and> \<not> aborted s'"
  using assms
proof (induction xs arbitrary: res saved s)
  case Nil
  then show ?case by (auto simp: return_Inr_iff batch_ok_def)
next
  case (Cons x xs)
  from Cons.prems(1) obtain res1 saved1 s1 where
    one: "dispatch_event msg x (res, saved) env s = (Inr (res1, saved1), s1)" and
    rest: "dispatch_events msg xs (res1, saved1) env s1 = (Inr (res', saved'), s')"
    by (auto simp: tx_bind_Inr_iff)
  have "\<forall>y\<in>set xs. x_id y \<noteq> x_id x" using Cons.prems(4) by (auto simp: image_iff)
  from dispatch_event_ok [OF one Cons.prems(2,3) this Cons.prems(5)] Cons.IH [OF rest] Cons.prems(4)
  show ?case by simp
qed

lemma sort_key_distinct: "distinct (map f xs) \<Longrightarrow> distinct (map f (sort_key g xs))"
proof -
  assume "distinct (map f xs)"
  moreover have "mset (map f (sort_key g xs)) = mset (map f xs)" by simp
  ultimately show ?thesis using mset_eq_imp_distinct_iff by blast
qed

lemma distinct_take: "distinct (map f xs) \<Longrightarrow> distinct (map f (take n xs))"
  by (simp flip: take_map)

lemma distinct_filter: "distinct (map f xs) \<Longrightarrow> distinct (map f (filter P xs))"
  by (induction xs) auto

lemma ready_batch:
  assumes ok: "notes_ok d"
  shows "batch_ok (take n (sort_key x_created_at (filter (is_ready env) (outbox_t d)))) d" (is "batch_ok ?xs d")
    and "distinct (map x_id (take n (sort_key x_created_at (filter (is_ready env) (outbox_t d)))))"
proof -
  have "x \<in> set (outbox_t d) \<and> x_status x = X_PENDING" if x: "x \<in> set ?xs" for x
  proof -
    have "x \<in> set (sort_key x_created_at (filter (is_ready env) (outbox_t d)))" using x by (rule in_set_takeD)
    then show ?thesis by (simp add: is_ready_def)
  qed
  then show "batch_ok ?xs d" using ok unfolding batch_ok_def by blast
  show "distinct (map x_id ?xs)"
    using ok by (intro distinct_take sort_key_distinct distinct_filter) (simp add: notes_ok_def keyed_def)
qed

lemma keeps_notes_dispatch: "keeps notes_ok (dispatch_tx msg n)"
  unfolding keeps_def
proof (rule tripleI)
  fix env s a s'
  assume s: "notes_ok (data s)" and run: "dispatch_tx msg n env s = (Inr a, s')"
  from run obtain rows s1 x s2 where
    rows: "ready_events n env s = (Inr rows, s1)" and
    x: "dispatch_events msg rows (\<lparr>dr_claimed = length rows, dr_processed = 0, dr_failed = 0,
      dr_notifications = 0\<rparr>, []) env s1 = (Inr x, s2)" and
    last: "(case x of (res, _) \<Rightarrow> tx_return res) env s2 = (Inr a, s')"
    unfolding dispatch_tx_def tx_bind_Inr_iff by (elim exE conjE) (rule that)
  have d: "dispatch_events msg rows (\<lparr>dr_claimed = length rows, dr_processed = 0, dr_failed = 0,
      dr_notifications = 0\<rparr>, []) env s1 = (Inr (fst x, snd x), s')"
    using x last by (auto simp: return_Inr_iff split: prod.splits)
  have r: "rows = take n (sort_key x_created_at (filter (is_ready env) (outbox_t (data s))))"
    "data s1 = data s" "\<not> aborted s1"
    using rows by (auto simp: ready_events_def select_Inr_iff)
  from dispatch_events_ok [OF d] ready_batch [OF s, of n env] r show "\<not> aborted s' \<and> notes_ok (data s')" by simp
qed

section \<open>What a batch leaves alone\<close>

text \<open>Properties that read neither events nor notifications are kept, also across the rollbacks.\<close>

definition deaf :: "(db \<Rightarrow> bool) \<Rightarrow> bool" where
  "deaf I \<longleftrightarrow> (\<forall>d xs ys n. I d \<longrightarrow> next_uuid d \<le> n \<longrightarrow>
     I (d\<lparr>outbox_t := xs, notifications_t := ys, next_uuid := n\<rparr>))"

lemma deaf_outbox: "deaf I \<Longrightarrow> I d \<Longrightarrow> I (d\<lparr>outbox_t := xs\<rparr>)"
  unfolding deaf_def by (drule spec [of _ d], drule spec [of _ xs], drule spec [of _ "notifications_t d"],
    drule spec [of _ "next_uuid d"]) simp

lemma deaf_told: "deaf I \<Longrightarrow> I d \<Longrightarrow> told i d d' \<Longrightarrow> I d'"
  unfolding told_def deaf_def
  by (elim disjE exE conjE, simp) (drule spec [of _ d], drule spec [of _ "outbox_t d"], simp)

lemma dispatch_event_deaf:
  assumes deaf: "deaf I" and run: "dispatch_event msg x (res, saved) env s = (Inr (res', saved'), s')"
    and i: "I (data s)" "\<forall>d0\<in>set saved. I d0" and live: "\<not> aborted s"
  shows "I (data s') \<and> (\<forall>d0\<in>set saved'. I d0) \<and> \<not> aborted s'"
proof -
  from run obtain s0 where s0: "command env s = (Inr (), s0)" and
    r: "(case deliver x env s0 of
         (Inl e, s1) \<Rightarrow>
           fail_event msg x res (data s0 # saved) e env (s1\<lparr>data := data s0, aborted := aborted s0\<rparr>)
       | (Inr delivered, s1) \<Rightarrow>
           (case mark_processed (x_id x) env s1 of
              (Inr _, s2) \<Rightarrow>
                (Inr (res\<lparr>dr_processed := Suc (dr_processed res),
                          dr_notifications := dr_notifications res + delivered\<rparr>, saved), s2)
            | (Inl e, s2) \<Rightarrow>
                (case saved of
                   [] \<Rightarrow> query (\<lambda>_ _. Inl NO_SAVEPOINT) env s2
                 | d0 # _ \<Rightarrow>
                     fail_event msg x res saved e env (s2\<lparr>data := d0, aborted := False\<rparr>))))
      = (Inr (res', saved'), s')"
    unfolding dispatch_event_def prod.case tx_bind_Inr_iff by (elim exE conjE) (rule that, simp_all)
  have d0: "data s0 = data s" "\<not> aborted s0" using s0 live by (auto simp: command_Inr_iff)
  have fail: "I (data s') \<and> (\<forall>d0\<in>set saved'. I d0) \<and> \<not> aborted s'"
    if f: "fail_event msg x res sv e env q = (Inr (res', saved'), s')" and q: "I (data q)" "\<forall>d0\<in>set sv. I d0" for sv e q
    using fail_event_Inr [OF f] q deaf_outbox [OF deaf q(1)] by auto
  obtain z s1 where z: "deliver x env s0 = (z, s1)" by fastforce
  show ?thesis
  proof (cases z)
    case (Inl e)
    with r z have f: "fail_event msg x res (data s0 # saved) e env (s1\<lparr>data := data s0, aborted := aborted s0\<rparr>) =
        (Inr (res', saved'), s')" by simp
    show ?thesis by (rule fail [OF f]) (simp_all add: d0 i)
  next
    case (Inr n)
    have "told (x_id x) (data s) (data s1)" using deliver_Inr [of x env s0 n s1] z Inr d0 by simp
    then have t: "I (data s1)" by (rule deaf_told [OF deaf i(1)])
    obtain q s2 where q: "mark_processed (x_id x) env s1 = (q, s2)" by fastforce
    show ?thesis
    proof (cases q)
      case (Inr u)
      then show ?thesis
        using r z \<open>z = Inr n\<close> q mark_processed_Inr [of "x_id x" env s1 u s2] deaf_outbox [OF deaf t] i(2) by auto
    next
      case (Inl e)
      show ?thesis
      proof (cases saved)
        case (Cons d1 ds)
        with r z \<open>z = Inr n\<close> q Inl have
          f: "fail_event msg x res saved e env (s2\<lparr>data := d1, aborted := False\<rparr>) = (Inr (res', saved'), s')" by simp
        show ?thesis by (rule fail [OF f]) (use Cons i(2) in simp_all)
      qed (use r z \<open>z = Inr n\<close> q Inl in \<open>simp add: query_Inr_iff\<close>)
    qed
  qed
qed

lemma keeps_dispatch: "deaf I \<Longrightarrow> keeps I (dispatch_tx msg n)"
  unfolding keeps_def
proof (rule tripleI)
  fix env s a s'
  assume deaf: "deaf I" and s: "I (data s)" and run: "dispatch_tx msg n env s = (Inr a, s')"
  have many: "I (data s') \<and> \<not> aborted s'"
    if "dispatch_events msg xs (res, saved) env s = (Inr (res', saved'), s')"
      "I (data s)" "\<forall>d0\<in>set saved. I d0" "\<not> aborted s" for xs res saved s res' saved'
    using that
  proof (induction xs arbitrary: res saved s)
    case (Cons x xs)
    from Cons.prems(1) obtain res1 saved1 s1 where
      one: "dispatch_event msg x (res, saved) env s = (Inr (res1, saved1), s1)" and
      rest: "dispatch_events msg xs (res1, saved1) env s1 = (Inr (res', saved'), s')"
      by (auto simp: tx_bind_Inr_iff)
    from dispatch_event_deaf [OF deaf one Cons.prems(2-4)] Cons.IH [OF rest] show ?case by simp
  qed (auto simp: return_Inr_iff)
  from run obtain rows s1 x s2 where
    rows: "ready_events n env s = (Inr rows, s1)" and
    x: "dispatch_events msg rows (\<lparr>dr_claimed = length rows, dr_processed = 0, dr_failed = 0,
      dr_notifications = 0\<rparr>, []) env s1 = (Inr x, s2)" and
    last: "(case x of (res, _) \<Rightarrow> tx_return res) env s2 = (Inr a, s')"
    unfolding dispatch_tx_def tx_bind_Inr_iff by (elim exE conjE) (rule that)
  have d: "dispatch_events msg rows (\<lparr>dr_claimed = length rows, dr_processed = 0, dr_failed = 0,
      dr_notifications = 0\<rparr>, []) env s1 = (Inr (fst x, snd x), s')"
    using x last by (auto simp: return_Inr_iff split: prod.splits)
  have "data s1 = data s" "\<not> aborted s1" using rows by (auto simp: ready_events_def select_Inr_iff)
  with many [OF d] s show "\<not> aborted s' \<and> I (data s')" by simp
qed

end
