(* ===== verification/Invariants.thy ===== *)
theory Invariants
  imports Split_Safety Schedule_Safety Dispatcher_Safety Routes Reconciliation
begin

text \<open>
  Invariants of the whole program: what a property of the database must satisfy to be kept by every
  transaction, stated once as a locale over the statements that write, and the transactions that
  keep it because they are made of those statements.
\<close>

section \<open>The statements that write\<close>

text \<open>A refresh token that was revoked stays revoked, whatever is written to the table of tokens.\<close>

definition tokens_kept :: "token_row list \<Rightarrow> token_row list \<Rightarrow> bool" where
  "tokens_kept ts ts' \<longleftrightarrow> (\<forall>h r. select_first (\<lambda>q. rt_token_hash q = h) ts = Some r \<and> rt_revoked_at r \<noteq> None \<longrightarrow>
     (\<exists>r'. select_first (\<lambda>q. rt_token_hash q = h) ts' = Some r' \<and> rt_revoked_at r' \<noteq> None))"

lemma tokens_kept_refl [simp]: "tokens_kept ts ts"
  by (simp add: tokens_kept_def)

lemma tokens_kept_append [simp]: "tokens_kept ts (ts @ us)"
  by (simp add: tokens_kept_def select_first_append)

lemma tokens_kept_upd:
  assumes "\<And>r. rt_token_hash (f r) = rt_token_hash r" and "\<And>r. rt_revoked_at r \<noteq> None \<Longrightarrow> rt_revoked_at (f r) \<noteq> None"
  shows "tokens_kept ts (upd_where P f ts)"
  using assms(2) by (auto simp: tokens_kept_def select_first_upd_where assms(1))

locale primitives =
  fixes I :: "db \<Rightarrow> bool"
  assumes aside: "I d \<Longrightarrow> next_uuid d \<le> n \<Longrightarrow> tokens_kept (tokens_t d) ts \<Longrightarrow>
      I (d\<lparr>users_t := us, tokens_t := ts, splits_t := ss, audit_t := as, next_uuid := n\<rparr>)"
    and post: "pc_type c \<noteq> REVERSAL \<Longrightarrow> pc_reversal_of c = None \<Longrightarrow> keeps I (post_double_entry c)"
    and event: "keeps I (enqueue_event e)"
    and account: "keeps I (insert_user_account u)"
    and status: "I d \<Longrightarrow> I (d\<lparr>accounts_t := upd_where P (with_status st) (accounts_t d)\<rparr>)"
    and read: "I d \<Longrightarrow> I (d\<lparr>notifications_t := upd_where Q (read_notification env) (notifications_t d)\<rparr>)"
    and request_insert: "keeps I (insert_request u v x nt ex sp)"
    and request_end: "to \<noteq> R_ACCEPTED \<Longrightarrow> keeps I (transition i to u reason)"
    and request_expire: "keeps I (expire_due k)"
    and schedule_insert: "keeps I (insert_schedule u v x nt kind startAt remaining)"
    and schedule_update: "(\<And>r. same_order r (f r)) \<Longrightarrow> I d \<Longrightarrow> I (d\<lparr>schedules_t := upd_where R f (schedules_t d)\<rparr>)"
    and run: "keeps I (run_schedule_tx i)"
    and dispatch: "keeps I (dispatch_tx message_of k)"
    and reverse: "keeps I (reverse_work u ref ctx i)"
    and accept: "keeps I (accept_work u q ctx i)"
begin

lemma users: "I d \<Longrightarrow> I (d\<lparr>users_t := us\<rparr>)"
  using aside [where d = d and n = "next_uuid d" and us = us and ts = "tokens_t d" and ss = "splits_t d" and as = "audit_t d"]
  by simp

lemma new_users: "I d \<Longrightarrow> next_uuid d \<le> n \<Longrightarrow> I (d\<lparr>users_t := us, next_uuid := n\<rparr>)"
  using aside [where d = d and n = n and us = us and ts = "tokens_t d" and ss = "splits_t d" and as = "audit_t d"]
  by simp

lemma tokens: "I d \<Longrightarrow> tokens_kept (tokens_t d) ts \<Longrightarrow> I (d\<lparr>tokens_t := ts\<rparr>)"
  using aside [where d = d and n = "next_uuid d" and us = "users_t d" and ts = ts and ss = "splits_t d" and as = "audit_t d"]
  by simp

lemma new_tokens: "I d \<Longrightarrow> next_uuid d \<le> n \<Longrightarrow> tokens_kept (tokens_t d) ts \<Longrightarrow> I (d\<lparr>tokens_t := ts, next_uuid := n\<rparr>)"
  using aside [where d = d and n = n and us = "users_t d" and ts = ts and ss = "splits_t d" and as = "audit_t d"]
  by simp

lemma splits: "I d \<Longrightarrow> next_uuid d \<le> n \<Longrightarrow> I (d\<lparr>splits_t := ss, next_uuid := n\<rparr>)"
  using aside [where d = d and n = n and us = "users_t d" and ts = "tokens_t d" and ss = ss and as = "audit_t d"]
  by simp

lemma audits: "I d \<Longrightarrow> I (d\<lparr>audit_t := as\<rparr>)"
  using aside [where d = d and n = "next_uuid d" and us = "users_t d" and ts = "tokens_t d" and ss = "splits_t d" and as = as]
  by simp

lemma audit: "keeps I (insert_audit_log a ac ty en md ctx)"
  by (rule keeps_insert_audit_log) (rule audits)

lemma pin_counters: "keeps I (record_failed_attempt u)" "keeps I (clear_failed_attempts u)"
  unfolding record_failed_attempt_def clear_failed_attempts_def
  by (rule keeps_query; auto intro: users)+

lemma session: "keeps I (issue_session u p f)"
  unfolding issue_session_def insert_refresh_token_def Let_def
  by (intro keeps_intros keeps_query) (auto split: if_splits intro: new_tokens)

lemma register: "keeps I (register_tx input ph pn ctx)"
proof -
  have "keeps I (insert_user a b c e)" for a b c e
    unfolding insert_user_def
    by (rule keeps_query) (auto simp: Let_def intro: new_users split: if_splits)
  then show ?thesis
    unfolding register_tx_def
    by (intro keeps_intros account post event audit session keeps_track_write) (simp_all add: mint_command_def)
qed

lemma login: "keeps I (login_tx user acc ctx)"
  unfolding login_tx_def by (intro keeps_intros session audit)

lemma token_updates: "keeps I (revoke_family f)" "keeps I (revoke_token h)" "keeps I (mark_refresh_token_replaced i j)"
  unfolding revoke_family_def revoke_token_def mark_refresh_token_replaced_def
  by (rule keeps_query; auto simp: Let_def intro!: tokens tokens_kept_upd)+

lemma refresh: "keeps I (refresh_tx t ctx)"
  unfolding refresh_tx_def find_refresh_token_by_hash_def
  by (intro keeps_intros token_updates session audit)

lemma logout: "keeps I (logout_tx t)"
  unfolding logout_tx_def by (intro keeps_intros token_updates)

lemma send: "keeps I (send_money_work u input ctx i)"
  by (intro keeps_send_money_work event audits post) (simp_all add: send_command_def)

lemma create_request: "keeps I (create_request_work u input ctx i)"
  by (intro keeps_create_request_work event audits request_insert)

lemma terminate: "to \<noteq> R_ACCEPTED \<Longrightarrow> keeps I (terminate_tx u q to reason ctx)"
  by (intro keeps_terminate event audits request_end)

lemma expire: "keeps I (expire_requests_tx k)"
  by (intro keeps_expire event request_expire)

lemma create_split: "keeps I (create_split_work u input shares ctx i)"
  by (intro keeps_create_split_work event audits request_insert splits)

lemma create_schedule: "keeps I (create_schedule_work u input ctx i)"
  by (intro keeps_create_schedule_work audits schedule_insert)

lemma schedule_transition: "keeps I (schedule_transition_tx u i to ctx)"
proof (rule keeps_schedule_transition)
  show "keeps I (transition_schedule i' u' to' fs)" for i' u' to' fs
    unfolding transition_schedule_def
    by (intro keeps_intros, rule keeps_query)
      (auto simp: Let_def same_order_def transitioned_def intro!: schedule_update)
qed (rule audits)

lemma lock_account: "keeps I (lock_account_of_user u)"
  unfolding lock_account_of_user_def by (intro keeps_intros)

lemma set_status: "keeps I (set_status a st)"
  unfolding set_status_def by (rule keeps_query) (auto intro: status)

lemma own_freeze: "keeps I (set_own_freeze_tx u frozen ctx)"
  unfolding set_own_freeze_tx_def Let_def by (intro keeps_intros lock_account set_status event audit)

lemma operator_status: "keeps I (set_account_status_tx input ctx)"
  unfolding set_account_status_tx_def by (intro keeps_intros lock_account set_status audit)

lemma make_due: "I d \<Longrightarrow> make_due i env d = (r, d') \<Longrightarrow> I d'"
  using schedule_update [of "made_due env" d "\<lambda>r. s_id r = i \<and> s_status r = S_ACTIVE"]
  by (auto simp: make_due_def Let_def made_due_def [abs_def] same_order_def split: prod.splits sum.splits if_splits
      elim!: pool_query_cases)

lemma mark_read: "I d \<Longrightarrow> mark_read u i env d = (r, d') \<Longrightarrow> I d'"
  unfolding mark_read_def by (erule pool_query_cases) (auto intro: read)

end

section \<open>The transactions of the program\<close>

text \<open>
  The program changes the database by transactions only, each with its own attempts, failures and
  clock. A step is one of them, whatever it returns; the calls of users and workers are sequences of
  steps, and the steps of different calls may come in any order.
\<close>

inductive step :: "db \<Rightarrow> db \<Rightarrow> bool" where
  Pin_Failed: "transact (record_failed_attempt u) envs d = (r, d') \<Longrightarrow> step d d'"
| Pin_Cleared: "transact (clear_failed_attempts u) envs d = (r', d') \<Longrightarrow> step d d'"
| Register: "transact (register_tx input ph pn ctx) envs d = (r1, d') \<Longrightarrow> step d d'"
| Login: "transact (login_tx user acc ctx) envs d = (r2, d') \<Longrightarrow> step d d'"
| Refresh: "transact (refresh_tx t ctx) envs d = (r3, d') \<Longrightarrow> step d d'"
| Logout: "transact (logout_tx t) envs d = (r4, d') \<Longrightarrow> step d d'"
| Send: "transact (send_money_tx u key transfer raw ctx) envs d = (r5, d') \<Longrightarrow> step d d'"
| Reverse: "transact (reverse_tx u ref key raw ctx) envs d = (r6, d') \<Longrightarrow> step d d'"
| Request: "transact (create_request_tx u key request raw ctx) envs d = (r7, d') \<Longrightarrow> step d d'"
| Accept: "transact (accept_tx u q key raw ctx) envs d = (r8, d') \<Longrightarrow> step d d'"
| Terminate: "to \<in> {R_DECLINED, R_CANCELLED} \<Longrightarrow> transact (terminate_tx u q to reason ctx) envs d = (r9, d') \<Longrightarrow>
    step d d'"
| Expire: "transact (expire_requests_tx k) envs d = (r10, d') \<Longrightarrow> step d d'"
| Split: "transact (create_split_tx u key bill shares raw ctx) envs d = (r11, d') \<Longrightarrow> step d d'"
| Schedule: "transact (create_schedule_tx u key order raw ctx) envs d = (r12, d') \<Longrightarrow> step d d'"
| Transition: "transact (schedule_transition_tx u i st ctx) envs d = (r13, d') \<Longrightarrow> step d d'"
| Run: "transact (run_schedule_tx i) envs d = (r14, d') \<Longrightarrow> step d d'"
| Make_Due: "make_due i env d = (r15, d') \<Longrightarrow> step d d'"
| Dispatch: "transact (dispatch_tx message_of k) envs d = (r16, d') \<Longrightarrow> step d d'"
| Mark_Read: "mark_read u i env d = (r17, d') \<Longrightarrow> step d d'"
| Own_Freeze: "transact (set_own_freeze_tx u frozen ctx) envs d = (r18, d') \<Longrightarrow> step d d'"
| Operator_Status: "transact (set_account_status_tx setting ctx) envs d = (r19, d') \<Longrightarrow> step d d'"

inductive reachable :: "db \<Rightarrow> bool" where
  Start: "reachable initial_db"
| Step: "reachable d \<Longrightarrow> step d d' \<Longrightarrow> reachable d'"

locale transactions = primitives +
  assumes send_tx: "keeps I (send_money_tx u key transfer raw ctx)"
    and reverse_tx: "keeps I (reverse_tx u ref key raw ctx)"
    and request_tx: "keeps I (create_request_tx u key request raw ctx)"
    and accept_tx: "keeps I (accept_tx u q key raw ctx)"
    and split_tx: "keeps I (create_split_tx u key bill shares raw ctx)"
    and schedule_tx: "keeps I (create_schedule_tx u key order raw ctx)"
begin

lemma step_keeps: "step d d' \<Longrightarrow> I d \<Longrightarrow> I d'"
proof (induction rule: step.induct)
  case (Terminate to u q reason ctx envs d r9 d')
  from Terminate(1) have "to \<noteq> R_ACCEPTED" by auto
  from transact_keeps [OF terminate [OF this] Terminate(3,2)] show ?case .
next
  case (Make_Due i env d r15 d')
  then show ?case using make_due by blast
next
  case (Mark_Read u i env d r17 d')
  then show ?case using mark_read by blast
qed (erule transact_keeps [rotated -1]; simp add: pin_counters register login refresh logout send_tx reverse_tx
      request_tx accept_tx expire split_tx schedule_tx schedule_transition run dispatch own_freeze operator_status)+

lemma steps_keep: "step\<^sup>*\<^sup>* d d' \<Longrightarrow> I d \<Longrightarrow> I d'"
  by (induction rule: rtranclp_induct) (auto intro: step_keeps)

end

locale program = transactions +
  assumes start: "I initial_db"
begin

lemma always: "reachable d \<Longrightarrow> I d"
  by (induction rule: reachable.induct) (auto intro: start step_keeps)

end

text \<open>Where the claim of a key and its completion keep the property, so do the endpoints.\<close>

locale keyed_transactions = primitives +
  assumes claim: "keeps I (claim_idempotency_key u key ep h)"
    and complete: "keeps I (complete_idempotency_key i st b)"

sublocale keyed_transactions \<subseteq> transactions
proof
  show "keeps I (send_money_tx u key transfer raw ctx)" for u key transfer raw ctx
    unfolding send_money_tx_def by (intro keeps_intros keeps_claim_cases claim complete send)
  show "keeps I (reverse_tx u ref key raw ctx)" for u ref key raw ctx
    unfolding reverse_tx_def Let_def by (intro keeps_intros keeps_claim_cases claim complete reverse)
  show "keeps I (create_request_tx u key request raw ctx)" for u key request raw ctx
    unfolding create_request_tx_def by (intro keeps_intros keeps_claim_cases claim complete create_request)
  show "keeps I (accept_tx u q key raw ctx)" for u q key raw ctx
    unfolding accept_tx_def Let_def by (intro keeps_intros keeps_claim_cases claim complete accept)
  show "keeps I (create_split_tx u key bill shares raw ctx)" for u key bill shares raw ctx
    unfolding create_split_tx_def by (intro keeps_intros keeps_claim_cases claim complete create_split)
  show "keeps I (create_schedule_tx u key order raw ctx)" for u key order raw ctx
    unfolding create_schedule_tx_def by (intro keeps_intros keeps_claim_cases claim complete create_schedule)
qed

locale keyed_program = keyed_transactions +
  assumes initial: "I initial_db"

sublocale keyed_program \<subseteq> program
  by unfold_locales (rule initial)

end
