(* ===== verification/Safety.thy ===== *)
theory Safety
  imports Invariants
begin

text \<open>
  The invariants of the program, each proved of every transaction by interpreting the interface of
  \<open>Invariants\<close> on it: the books, the idempotency keys, the requests, the occurrences of schedules and
  the notifications.
\<close>

section \<open>The books\<close>

lemma with_status_simps [simp]:
  "a_id (with_status st a) = a_id a" "a_user_id (with_status st a) = a_user_id a"
  "a_type (with_status st a) = a_type a" "a_balance_minor (with_status st a) = a_balance_minor a"
  "owner_fits (with_status st a) = owner_fits a"
  by (simp_all add: with_status_def owner_fits_def)

lemma ledger_ok_status:
  assumes "ledger_ok d"
  shows "ledger_ok (d\<lparr>accounts_t := upd_where P (with_status st) (accounts_t d)\<rparr>)" (is "ledger_ok ?d")
proof -
  have A: "accounts_ok d" "transfers_ok d" "entries_ok d" using assms by (simp_all add: ledger_ok_def)
  have e: "entry_sum i ?d = entry_sum i d" "complete_entry t ?d = complete_entry t d" for i t
    by (simp_all add: entry_sum_def complete_entry_def)
  have ids: "account_ids ?d = account_ids d"
    unfolding account_ids_def by (simp flip: set_map add: map_upd_where)
  have "accounts_ok ?d"
    using A(1) unfolding accounts_ok_def e by (auto simp: keyed_upd_where map_upd_where set_upd_where)
  moreover have "transfers_ok ?d" using A(2) unfolding transfers_ok_def ids e by simp
  moreover have "entries_ok ?d" using A(3) by (simp add: entries_ok_def)
  ultimately show ?thesis by (simp add: ledger_ok_def)
qed

lemma ledger_deaf: "deaf ledger_ok"
  unfolding deaf_def by (intro allI impI) (erule ledger_frame, simp add: same_books_def)

lemma keeps_ledger_account: "keeps ledger_ok (insert_user_account u)"
  unfolding insert_user_account_def
  by (rule keeps_query) (auto split: if_splits intro: new_account_ledger_ok)

lemma ledger_ok_initial: "ledger_ok initial_db"
  by (simp add: ledger_ok_def accounts_ok_def transfers_ok_def entries_ok_def initial_db_def treasury_account_ids_def
      TREASURY_STRIPE_COUNT_def treasury_row_def keyed_def owner_fits_def entry_sum_def upt_rec)

interpretation books: keyed_program ledger_ok
proof
  show "keeps ledger_ok (transition i to u reason)" for i to u reason
    by (rule keeps_request_updates) (rule ledger_frames)
  show "keeps ledger_ok (expire_due k)" for k
    by (rule keeps_request_updates) (rule ledger_frames)
  show "keeps ledger_ok (insert_request u v x nt ex sp)" for u v x nt ex sp
    by (rule keeps_insert_request) (rule ledger_frames)
  show "keeps ledger_ok (insert_schedule u v x nt kind startAt remaining)" for u v x nt kind startAt remaining
    by (rule keeps_insert_schedule) (rule ledger_schedule_frames)
  show "keeps ledger_ok (enqueue_event e)" for e
    by (rule keeps_enqueue_event) (rule ledger_frames)
  show "keeps ledger_ok (reverse_work u ref ctx i)" for u ref ctx i
    by (intro keeps_reverse_work keeps_enqueue_event ledger_frames ledger_ok_reversed keeps_ledger_post)
  show "keeps ledger_ok (accept_work u q ctx i)" for u q ctx i
    by (intro keeps_accept_work keeps_enqueue_event ledger_frames keeps_request_updates keeps_ledger_post)
  show "keeps ledger_ok (claim_idempotency_key u key ep h)" for u key ep h by (rule keeps_ledger_claim)
  show "keeps ledger_ok (complete_idempotency_key i st b)" for i st b by (rule keeps_ledger_complete)
  show "ledger_ok d \<Longrightarrow> next_uuid d \<le> n \<Longrightarrow>
      ledger_ok (d\<lparr>users_t := us, tokens_t := ts, splits_t := ss, audit_t := as, next_uuid := n\<rparr>)" for d n us ts ss as
    by (erule ledger_frame) (simp add: same_books_def)
  show "ledger_ok d \<Longrightarrow> ledger_ok (d\<lparr>notifications_t := upd_where Q (read_notification env) (notifications_t d)\<rparr>)" for d Q env
    by (erule ledger_frame) (simp add: same_books_def)
qed (simp_all add: ledger_ok_status keeps_ledger_post keeps_ledger_account ledger_schedule_frames keeps_ledger_run_schedule
    keeps_dispatch [OF ledger_deaf] ledger_ok_initial)

section \<open>Idempotency keys\<close>

lemma key_rows_frame:
  "keys_with K d \<Longrightarrow> idem_t d' = idem_t d \<Longrightarrow> next_uuid d \<le> next_uuid d' \<Longrightarrow> keys_with K d'"
  by (fastforce simp: keys_with_def keys_ok_def)

lemma keys_deaf: "deaf (keys_with K)"
  unfolding deaf_def by (intro allI impI) (erule key_rows_frame, simp_all)

lemma keeps_keys_post: "keeps (keys_with K) (post_double_entry c)"
  by (rule keeps_post) (erule key_rows_frame, simp_all)

lemma keeps_keys_event: "keeps (keys_with K) (enqueue_event e)"
  by (rule keeps_enqueue_event) (erule key_rows_frame, simp_all)

interpretation held: transactions "keys_with K" for K
proof
  show "keeps (keys_with K) (transition i to u reason)" for i to u reason
    by (rule keeps_request_updates) (erule key_rows_frame, simp_all)
  show "keeps (keys_with K) (expire_due k)" for k
    by (rule keeps_request_updates) (erule key_rows_frame, simp_all)
  show "keeps (keys_with K) (insert_request u v x nt ex sp)" for u v x nt ex sp
    by (rule keeps_insert_request) (erule key_rows_frame, simp_all)
  show "keeps (keys_with K) (insert_schedule u v x nt kind startAt remaining)" for u v x nt kind startAt remaining
    by (rule keeps_insert_schedule) (erule key_rows_frame, simp_all)
  show "keeps (keys_with K) (reverse_work u ref ctx i)" for u ref ctx i
    by (rule keeps_reverse_work, rule keeps_keys_event) (erule key_rows_frame, simp, simp, erule key_rows_frame, simp, simp,
      rule keeps_keys_post)
  show "keeps (keys_with K) (accept_work u q ctx i)" for u q ctx i
    by (rule keeps_accept_work, rule keeps_keys_event) (erule key_rows_frame, simp, simp, rule keeps_keys_post,
      rule keeps_request_updates, erule key_rows_frame, simp, simp)
  show "keeps (keys_with K) (run_schedule_tx i)" for i
    by (rule keeps_run_schedule, rule keeps_keys_event) (erule key_rows_frame, simp, simp,
      (rule keeps_occurrence_writes; erule key_rows_frame; simp)+, rule keeps_keys_post)
  show "keys_with K d \<Longrightarrow> next_uuid d \<le> n \<Longrightarrow>
      keys_with K (d\<lparr>users_t := us, tokens_t := ts, splits_t := ss, audit_t := as, next_uuid := n\<rparr>)" for d n us ts ss as
    by (erule key_rows_frame) simp_all
  show "keys_with K d \<Longrightarrow> keys_with K (d\<lparr>notifications_t := upd_where Q (read_notification env) (notifications_t d)\<rparr>)" for d Q env
    by (erule key_rows_frame) simp_all
  show "keys_with K d \<Longrightarrow> keys_with K (d\<lparr>accounts_t := upd_where P (with_status st) (accounts_t d)\<rparr>)" for d P st
    by (erule key_rows_frame) simp_all
  show "keys_with K d \<Longrightarrow> keys_with K (d\<lparr>schedules_t := upd_where R f (schedules_t d)\<rparr>)" for d R f
    by (erule key_rows_frame) simp_all
  show "keeps (keys_with K) (insert_user_account u)" for u
    unfolding insert_user_account_def by (rule keeps_query) (auto split: if_splits elim!: key_rows_frame)
qed (simp_all add: keeps_keys_post keeps_keys_event keeps_dispatch [OF keys_deaf] send.keeps_keys reverse.keeps_keys
    create_req.keeps_keys accept.keeps_keys create_split.keeps_keys create_sched.keeps_keys)

interpretation keys: program keys_ok
  by (rule program.intro [OF held.transactions_axioms [of "{}", unfolded keys_with_empty]])
    (simp add: program_axioms_def keys_ok_def initial_db_def)

section \<open>Money requests\<close>

lemma account_user_status: "account_user i (d\<lparr>accounts_t := upd_where P (with_status st) (accounts_t d)\<rparr>) = account_user i d"
  unfolding account_user_def account_by_id_def
  by (simp add: select_first_upd_where [where P = "\<lambda>a. a_id a = i"] split: option.splits)

lemma grows_status: "grows d (d\<lparr>accounts_t := upd_where P (with_status st) (accounts_t d)\<rparr>)"
  unfolding grows_def account_user_status by simp (use same_movement_refl in blast)

lemma keeps_with_books:
  assumes "keeps ledger_ok m" and "\<And>env s a s'. m env s = (Inr a, s') \<Longrightarrow> \<not> aborted s \<Longrightarrow> ledger_ok (data s) \<Longrightarrow> J (data s) \<Longrightarrow> J (data s')"
  shows "keeps (\<lambda>d. ledger_ok d \<and> J d) m"
  unfolding keeps_def
proof (rule tripleI)
  fix env s a s'
  assume "\<not> aborted s" "ledger_ok (data s) \<and> J (data s)" "m env s = (Inr a, s')"
  then show "\<not> aborted s' \<and> ledger_ok (data s') \<and> J (data s')"
    using tripleD [OF assms(1) [unfolded keeps_def]] assms(2) by blast
qed

lemma keeps_both: "keeps ledger_ok m \<Longrightarrow> keeps J m \<Longrightarrow> keeps (\<lambda>d. ledger_ok d \<and> J d) m"
  by (rule keeps_conj)

lemma requests_frame: "requests_ok d \<Longrightarrow> same_books d d' \<Longrightarrow> requests_t d' = requests_t d \<Longrightarrow> requests_ok d'"
  by (erule req.ok_ext) (erule grows_same_books)

lemma requests_deaf: "deaf requests_ok"
  unfolding deaf_def by (intro allI impI) (erule requests_frame; simp add: same_books_def)

lemma keeps_requests_event: "keeps requests_ok (enqueue_event e)"
  by (rule keeps_enqueue_event) (erule requests_frame; simp add: same_books_def)

lemma keeps_requests_account: "keeps (\<lambda>d. ledger_ok d \<and> requests_ok d) (insert_user_account u)"
proof (rule keeps_with_books [OF keeps_ledger_account])
  fix env s a s'
  assume run: "insert_user_account u env s = (Inr a, s')" and ok: "ledger_ok (data s)" "requests_ok (data s)"
  have "keyed a_id (accounts_t (data s))" using ok(1) by (simp add: ledger_ok_def accounts_ok_def)
  from grows_new_account [OF this] run show "requests_ok (data s')"
    by (auto simp: insert_user_account_Inr_iff intro: req.ok_ext [OF ok(2)])
qed

lemma requests_mark_reversed: "requests_ok d \<Longrightarrow> requests_ok (d\<lparr>transfers_t := upd_where P reversed (transfers_t d)\<rparr>)"
  by (erule req.ok_ext) (rule grows_reversed, simp)

interpretation reqs: keyed_program "\<lambda>d. ledger_ok d \<and> requests_ok d"
proof
  show "ledger_ok d \<and> requests_ok d \<Longrightarrow> next_uuid d \<le> n \<Longrightarrow>
      ledger_ok (d\<lparr>users_t := us, tokens_t := ts, splits_t := ss, audit_t := as, next_uuid := n\<rparr>) \<and>
      requests_ok (d\<lparr>users_t := us, tokens_t := ts, splits_t := ss, audit_t := as, next_uuid := n\<rparr>)" for d n us ts ss as
    by (elim conjE, rule conjI, erule ledger_frame, simp add: same_books_def) (erule requests_frame; simp add: same_books_def)
  show "keeps (\<lambda>d. ledger_ok d \<and> requests_ok d) (post_double_entry c)" for c
    by (rule keeps_both [OF keeps_ledger_post keeps_requests_post])
  show "keeps (\<lambda>d. ledger_ok d \<and> requests_ok d) (enqueue_event e)" for e
    by (rule keeps_both [OF books.event keeps_requests_event])
  show "keeps (\<lambda>d. ledger_ok d \<and> requests_ok d) (insert_user_account u)" for u
    by (rule keeps_requests_account)
  show "ledger_ok d \<and> requests_ok d \<Longrightarrow>
      ledger_ok (d\<lparr>accounts_t := upd_where P (with_status st) (accounts_t d)\<rparr>) \<and>
      requests_ok (d\<lparr>accounts_t := upd_where P (with_status st) (accounts_t d)\<rparr>)" for d P st
    by (elim conjE, rule conjI, erule ledger_ok_status, erule req.ok_ext) (rule grows_status, simp)
  show "ledger_ok d \<and> requests_ok d \<Longrightarrow>
      ledger_ok (d\<lparr>notifications_t := upd_where Q (read_notification env) (notifications_t d)\<rparr>) \<and>
      requests_ok (d\<lparr>notifications_t := upd_where Q (read_notification env) (notifications_t d)\<rparr>)" for d Q env
    by (elim conjE, rule conjI, erule books.read) (erule requests_frame; simp add: same_books_def)
  show "keeps (\<lambda>d. ledger_ok d \<and> requests_ok d) (insert_request u v x nt ex sp)" for u v x nt ex sp
    by (rule keeps_both [OF books.request_insert keeps_requests_insert])
  show "to \<noteq> R_ACCEPTED \<Longrightarrow> keeps (\<lambda>d. ledger_ok d \<and> requests_ok d) (transition i to u reason)" for i to u reason
    by (rule keeps_both [OF books.request_end keeps_requests_transition])
  show "keeps (\<lambda>d. ledger_ok d \<and> requests_ok d) (expire_due k)" for k
    by (rule keeps_both [OF books.request_expire keeps_requests_expire_due])
  show "keeps (\<lambda>d. ledger_ok d \<and> requests_ok d) (insert_schedule u v x nt kind startAt remaining)" for u v x nt kind startAt remaining
    by (rule keeps_both [OF books.schedule_insert], rule keeps_insert_schedule)
      (erule requests_frame; simp add: same_books_def)
  show "(\<And>r. same_order r (f r)) \<Longrightarrow> ledger_ok d \<and> requests_ok d \<Longrightarrow>
      ledger_ok (d\<lparr>schedules_t := upd_where R f (schedules_t d)\<rparr>) \<and>
      requests_ok (d\<lparr>schedules_t := upd_where R f (schedules_t d)\<rparr>)" for f d R
    by (elim conjE, rule conjI, erule ledger_schedule_frames(2)) (erule requests_frame; simp add: same_books_def)
  show "keeps (\<lambda>d. ledger_ok d \<and> requests_ok d) (run_schedule_tx i)" for i
    by (rule keeps_both [OF books.run], rule keeps_run_schedule, rule keeps_requests_event)
      (erule requests_frame, simp add: same_books_def, simp,
       (rule keeps_occurrence_writes; erule requests_frame; simp add: same_books_def)+, rule keeps_requests_post)
  show "keeps (\<lambda>d. ledger_ok d \<and> requests_ok d) (dispatch_tx message_of k)" for message_of k
    by (rule keeps_both [OF books.dispatch keeps_dispatch [OF requests_deaf]])
  show "keeps (\<lambda>d. ledger_ok d \<and> requests_ok d) (reverse_work u ref ctx i)" for u ref ctx i
    by (rule keeps_both [OF books.reverse], rule keeps_reverse_work, rule keeps_requests_event)
      (erule requests_frame, simp add: same_books_def, simp, erule requests_mark_reversed, rule keeps_requests_post)
  show "keeps (\<lambda>d. ledger_ok d \<and> requests_ok d) (accept_work u q ctx i)" for u q ctx i
  proof (rule keeps_with_books [OF books.accept])
    fix env s a s'
    assume "accept_work u q ctx i env s = (Inr a, s')" "ledger_ok (data s)" "requests_ok (data s)"
    then show "requests_ok (data s')" by (cases a) (use accept_work_requests in blast)
  qed
  show "keeps (\<lambda>d. ledger_ok d \<and> requests_ok d) (claim_idempotency_key u key ep h)" for u key ep h
    by (rule keeps_both [OF books.claim], rule keeps_claim) (erule requests_frame; simp add: same_books_def)
  show "keeps (\<lambda>d. ledger_ok d \<and> requests_ok d) (complete_idempotency_key i st b)" for i st b
    by (rule keeps_both [OF books.complete], rule keeps_complete) (erule requests_frame; simp add: same_books_def)
  show "ledger_ok initial_db \<and> requests_ok initial_db"
    by (rule conjI [OF ledger_ok_initial]) (simp add: requests_ok_def settled_rows_def once_def initial_db_def)
qed

section \<open>Occurrences of schedules\<close>

lemma occurrences_frame:
  "occurrences_ok d \<Longrightarrow> same_books d d' \<Longrightarrow> schedules_t d' = schedules_t d \<Longrightarrow> occurrences_t d' = occurrences_t d \<Longrightarrow>
   occurrences_ok d'"
  by (erule occurrences_ok_ext) (rule orders_grow_schedules, erule grows_same_books)

lemma occurrences_grow:
  "occurrences_ok d \<Longrightarrow> grows d d' \<Longrightarrow> schedules_t d' = schedules_t d \<Longrightarrow> occurrences_t d' = occurrences_t d \<Longrightarrow>
   occurrences_ok d'"
  by (erule occurrences_ok_ext) (rule orders_grow_schedules)

lemma occurrences_deaf: "deaf occurrences_ok"
  unfolding deaf_def by (intro allI impI) (erule occurrences_frame; simp add: same_books_def)

lemma keeps_occurrences_event: "keeps occurrences_ok (enqueue_event e)"
  by (rule keeps_enqueue_event) (erule occurrences_frame; simp add: same_books_def)

lemma keeps_occurrences_post: "keeps occurrences_ok (post_double_entry c)"
  unfolding keeps_def
proof (rule tripleI)
  fix env s p s'
  assume i: "occurrences_ok (data s)" and run: "post_double_entry c env s = (Inr p, s')"
  from run show "\<not> aborted s' \<and> occurrences_ok (data s')"
    by (rule post_double_entry_Inr)
      (use occurrences_grow [OF i grows_movement] in \<open>simp add: movement_applied_def\<close>)
qed

lemma orders_grow_insert:
  "next_uuid d \<le> n \<Longrightarrow> orders_grow d (d\<lparr>schedules_t := schedules_t d @ [r], next_uuid := n\<rparr>)"
  unfolding orders_grow_def
  by (rule conjI, rule grows_same_books, simp add: same_books_def) (simp, use same_order_refl in blast)

lemma keeps_occurrences_insert: "keeps occurrences_ok (insert_schedule u v x nt kind startAt remaining)"
  unfolding insert_schedule_def
proof (intro keeps_intros)
  show "keeps occurrences_ok (query (\<lambda>env d. let r = \<lparr>s_id = next_uuid d, s_owner_user_id = u, s_payee_user_id = v,
      s_amount_minor = x, s_note = nt, s_interval_kind = kind, s_next_run_at = micros_of_date startAt,
      s_remaining_runs = remaining, s_status = S_ACTIVE, s_last_run_at = None, s_retry_after = None,
      s_created_at = now env\<rparr>
    in case schedule_refused r d of None \<Rightarrow> Inr (r, d\<lparr>schedules_t := schedules_t d @ [r], next_uuid := Suc (next_uuid d)\<rparr>)
       | Some e \<Rightarrow> Inl e))"
    by (rule keeps_query)
      (auto simp: Let_def split: option.splits intro!: occurrences_ok_ext [OF _ orders_grow_insert])
qed

interpretation occs: keyed_program "\<lambda>d. ledger_ok d \<and> occurrences_ok d"
proof
  show "ledger_ok d \<and> occurrences_ok d \<Longrightarrow> next_uuid d \<le> n \<Longrightarrow>
      ledger_ok (d\<lparr>users_t := us, tokens_t := ts, splits_t := ss, audit_t := as, next_uuid := n\<rparr>) \<and>
      occurrences_ok (d\<lparr>users_t := us, tokens_t := ts, splits_t := ss, audit_t := as, next_uuid := n\<rparr>)" for d n us ts ss as
    by (elim conjE, rule conjI, erule ledger_frame, simp add: same_books_def) (erule occurrences_frame; simp add: same_books_def)
  show "keeps (\<lambda>d. ledger_ok d \<and> occurrences_ok d) (post_double_entry c)" for c
    by (rule keeps_both [OF keeps_ledger_post keeps_occurrences_post])
  show "keeps (\<lambda>d. ledger_ok d \<and> occurrences_ok d) (enqueue_event e)" for e
    by (rule keeps_both [OF books.event keeps_occurrences_event])
  show "keeps (\<lambda>d. ledger_ok d \<and> occurrences_ok d) (insert_user_account u)" for u
  proof (rule keeps_with_books [OF keeps_ledger_account])
    fix env s a s'
    assume run: "insert_user_account u env s = (Inr a, s')" and ok: "ledger_ok (data s)" "occurrences_ok (data s)"
    have "keyed a_id (accounts_t (data s))" using ok(1) by (simp add: ledger_ok_def accounts_ok_def)
    from grows_new_account [OF this] run show "occurrences_ok (data s')"
      by (auto simp: insert_user_account_Inr_iff intro: occurrences_grow [OF ok(2)])
  qed
  show "ledger_ok d \<and> occurrences_ok d \<Longrightarrow>
      ledger_ok (d\<lparr>accounts_t := upd_where P (with_status st) (accounts_t d)\<rparr>) \<and>
      occurrences_ok (d\<lparr>accounts_t := upd_where P (with_status st) (accounts_t d)\<rparr>)" for d P st
    by (elim conjE, rule conjI, erule ledger_ok_status, erule occurrences_grow) (rule grows_status, simp, simp)
  show "ledger_ok d \<and> occurrences_ok d \<Longrightarrow>
      ledger_ok (d\<lparr>notifications_t := upd_where Q (read_notification env) (notifications_t d)\<rparr>) \<and>
      occurrences_ok (d\<lparr>notifications_t := upd_where Q (read_notification env) (notifications_t d)\<rparr>)" for d Q env
    by (elim conjE, rule conjI, erule books.read) (erule occurrences_frame; simp add: same_books_def)
  show "keeps (\<lambda>d. ledger_ok d \<and> occurrences_ok d) (insert_request u v x nt ex sp)" for u v x nt ex sp
    by (rule keeps_both [OF books.request_insert], rule keeps_insert_request)
      (erule occurrences_frame; simp add: same_books_def)
  show "to \<noteq> R_ACCEPTED \<Longrightarrow> keeps (\<lambda>d. ledger_ok d \<and> occurrences_ok d) (transition i to u reason)" for i to u reason
    by (rule keeps_both [OF books.request_end], assumption, rule keeps_request_updates)
      (erule occurrences_frame; simp add: same_books_def)
  show "keeps (\<lambda>d. ledger_ok d \<and> occurrences_ok d) (expire_due k)" for k
    by (rule keeps_both [OF books.request_expire], rule keeps_request_updates)
      (erule occurrences_frame; simp add: same_books_def)
  show "keeps (\<lambda>d. ledger_ok d \<and> occurrences_ok d) (insert_schedule u v x nt kind startAt remaining)"
    for u v x nt kind startAt remaining
    by (rule keeps_both [OF books.schedule_insert keeps_occurrences_insert])
  show "(\<And>r. same_order r (f r)) \<Longrightarrow> ledger_ok d \<and> occurrences_ok d \<Longrightarrow>
      ledger_ok (d\<lparr>schedules_t := upd_where R f (schedules_t d)\<rparr>) \<and>
      occurrences_ok (d\<lparr>schedules_t := upd_where R f (schedules_t d)\<rparr>)" for f d R
    by (elim conjE, rule conjI, erule ledger_schedule_frames(2), erule occurrences_ok_ext)
      (rule orders_grow_upd [of f], simp_all add: same_books_def)
  show "keeps (\<lambda>d. ledger_ok d \<and> occurrences_ok d) (run_schedule_tx i)" for i
    by (rule keeps_with_books [OF books.run]) (use run_schedule_safe in blast)
  show "keeps (\<lambda>d. ledger_ok d \<and> occurrences_ok d) (dispatch_tx message_of k)" for message_of k
    by (rule keeps_both [OF books.dispatch keeps_dispatch [OF occurrences_deaf]])
  show "keeps (\<lambda>d. ledger_ok d \<and> occurrences_ok d) (reverse_work u ref ctx i)" for u ref ctx i
    by (rule keeps_both [OF books.reverse], rule keeps_reverse_work, rule keeps_occurrences_event)
      (erule occurrences_frame, simp add: same_books_def, simp, simp, erule occurrences_grow, rule grows_reversed,
       simp, simp, rule keeps_occurrences_post)
  show "keeps (\<lambda>d. ledger_ok d \<and> occurrences_ok d) (accept_work u q ctx i)" for u q ctx i
    by (rule keeps_both [OF books.accept], rule keeps_accept_work, rule keeps_occurrences_event)
      (erule occurrences_frame, simp add: same_books_def, simp, simp, rule keeps_occurrences_post,
       rule keeps_request_updates, erule occurrences_frame, simp add: same_books_def, simp, simp)
  show "keeps (\<lambda>d. ledger_ok d \<and> occurrences_ok d) (claim_idempotency_key u key ep h)" for u key ep h
    by (rule keeps_both [OF books.claim], rule keeps_claim) (erule occurrences_frame; simp add: same_books_def)
  show "keeps (\<lambda>d. ledger_ok d \<and> occurrences_ok d) (complete_idempotency_key i st b)" for i st b
    by (rule keeps_both [OF books.complete], rule keeps_complete) (erule occurrences_frame; simp add: same_books_def)
  show "ledger_ok initial_db \<and> occurrences_ok initial_db"
    by (rule conjI [OF ledger_ok_initial])
      (simp add: occurrences_ok_def occurrences_settled_def settled_rows_def once_def initial_db_def)
qed

section \<open>Notifications\<close>

lemma notes_frame:
  "notes_ok d \<Longrightarrow> outbox_t d' = outbox_t d \<Longrightarrow> notifications_t d' = notifications_t d \<Longrightarrow> next_uuid d \<le> next_uuid d' \<Longrightarrow>
   notes_ok d'"
  by (auto simp: notes_ok_def)

lemma keeps_notes_event: "keeps notes_ok (enqueue_event e)"
  unfolding enqueue_event_def
proof (rule keeps_query)
  fix env d a d'
  assume ok: "notes_ok d" and eq: "(Inr (next_uuid d, d\<lparr>outbox_t := outbox_t d @ [event_row e (next_uuid d) (now env)],
      next_uuid := Suc (next_uuid d)\<rparr>) :: exn + uuid \<times> db) = Inr (a, d')"
  have "x_id (event_row e (next_uuid d) (now env)) = next_uuid d" by (simp add: event_row_def)
  with ok eq show "notes_ok d'" by (fastforce simp: notes_ok_def keyed_append1)
qed

lemma keeps_notes_post: "keeps notes_ok (post_double_entry c)"
  by (rule keeps_post) (erule notes_frame, simp_all)

interpretation inbox: keyed_program notes_ok
proof
  show "keeps notes_ok (transition i to u reason)" for i to u reason
    by (rule keeps_request_updates) (erule notes_frame, simp_all)
  show "keeps notes_ok (expire_due k)" for k
    by (rule keeps_request_updates) (erule notes_frame, simp_all)
  show "keeps notes_ok (insert_request u v x nt ex sp)" for u v x nt ex sp
    by (rule keeps_insert_request) (erule notes_frame, simp_all)
  show "keeps notes_ok (insert_schedule u v x nt kind startAt remaining)" for u v x nt kind startAt remaining
    by (rule keeps_insert_schedule) (erule notes_frame, simp_all)
  show "keeps notes_ok (reverse_work u ref ctx i)" for u ref ctx i
    by (rule keeps_reverse_work, rule keeps_notes_event) (erule notes_frame, simp, simp, simp, erule notes_frame, simp, simp, simp,
      rule keeps_notes_post)
  show "keeps notes_ok (accept_work u q ctx i)" for u q ctx i
    by (rule keeps_accept_work, rule keeps_notes_event) (erule notes_frame, simp, simp, simp, rule keeps_notes_post,
      rule keeps_request_updates, erule notes_frame, simp, simp, simp)
  show "keeps notes_ok (run_schedule_tx i)" for i
    by (rule keeps_run_schedule, rule keeps_notes_event) (erule notes_frame, simp, simp, simp,
      (rule keeps_occurrence_writes; erule notes_frame; simp)+, rule keeps_notes_post)
  show "notes_ok d \<Longrightarrow> next_uuid d \<le> n \<Longrightarrow>
      notes_ok (d\<lparr>users_t := us, tokens_t := ts, splits_t := ss, audit_t := as, next_uuid := n\<rparr>)" for d n us ts ss as
    by (erule notes_frame) simp_all
  show "notes_ok d \<Longrightarrow> notes_ok (d\<lparr>notifications_t := upd_where Q (read_notification env) (notifications_t d)\<rparr>)" for d Q env
    by (auto simp: notes_ok_def keyed_upd_where read_notification_def set_upd_where)
  show "notes_ok d \<Longrightarrow> notes_ok (d\<lparr>accounts_t := upd_where P (with_status st) (accounts_t d)\<rparr>)" for d P st
    by (erule notes_frame) simp_all
  show "notes_ok d \<Longrightarrow> notes_ok (d\<lparr>schedules_t := upd_where R f (schedules_t d)\<rparr>)" for d R f
    by (erule notes_frame) simp_all
  show "keeps notes_ok (insert_user_account u)" for u
    unfolding insert_user_account_def by (rule keeps_query) (auto split: if_splits elim!: notes_frame)
  show "keeps notes_ok (claim_idempotency_key u key ep h)" for u key ep h
    by (rule keeps_claim) (erule notes_frame, simp_all)
  show "keeps notes_ok (complete_idempotency_key i st b)" for i st b
    by (rule keeps_complete) (erule notes_frame, simp_all)
qed (simp_all add: keeps_notes_post keeps_notes_event keeps_notes_dispatch notes_ok_def initial_db_def)

end
