(* ===== verification/Reversal_Safety.thy ===== *)
theory Reversal_Safety
  imports Safety
begin

text \<open>
  Reversals: a transfer is REVERSED exactly when one compensating movement of its amount, from its
  recipient back to its sender, was posted for it, and never two.
\<close>

definition undoes :: "transfer_row \<Rightarrow> transfer_row \<Rightarrow> bool" where
  "undoes r orig \<longleftrightarrow>
     t_type r = REVERSAL \<and> t_reversal_of r = Some (t_id orig) \<and> t_amount_minor r = t_amount_minor orig \<and>
     t_from_account_id r = t_to_account_id orig \<and> t_to_account_id r = t_from_account_id orig \<and>
     t_type orig \<noteq> MINT \<and> t_type orig \<noteq> REVERSAL \<and> t_status orig = T_REVERSED"

definition undone :: "transfer_row list \<Rightarrow> bool" where
  "undone T \<longleftrightarrow>
     (\<forall>r\<in>set T. t_type r = REVERSAL \<longrightarrow> (\<exists>orig\<in>set T. undoes r orig)) \<and>
     (\<forall>r\<in>set T. t_reversal_of r \<noteq> None \<longrightarrow> t_type r = REVERSAL) \<and>
     (\<forall>orig\<in>set T. t_status orig = T_REVERSED \<longrightarrow> (\<exists>r\<in>set T. undoes r orig)) \<and>
     once t_id t_reversal_of T"

definition reversals_ok :: "db \<Rightarrow> bool" where
  "reversals_ok d \<longleftrightarrow> undone (transfers_t d)"

lemma reversals_frame: "reversals_ok d \<Longrightarrow> transfers_t d' = transfers_t d \<Longrightarrow> reversals_ok d'"
  by (simp add: reversals_ok_def)

lemma reversals_deaf: "deaf reversals_ok"
  unfolding deaf_def by (intro allI impI) (erule reversals_frame, simp)

lemma once_append:
  assumes "once id_of key xs" and "key r = None \<or> (\<forall>q\<in>set xs. key q \<noteq> key r)"
  shows "once id_of key (xs @ [r])"
  unfolding once_def
proof (intro ballI impI)
  fix a b assume ab: "a \<in> set (xs @ [r])" "b \<in> set (xs @ [r])" and k: "key a = key b \<and> key a \<noteq> None"
  consider "a \<in> set xs" "b \<in> set xs" | "a \<in> set xs" "b = r" | "a = r" "b \<in> set xs" | "a = r" "b = r"
    using ab by auto
  then show "id_of a = id_of b"
  proof cases
    case 1
    then show ?thesis using assms(1) k unfolding once_def by blast
  next
    case 2
    then show ?thesis using assms(2) k by metis
  next
    case 3
    then show ?thesis using assms(2) k by metis
  qed simp
qed

lemma once_map:
  assumes "once id_of key xs" and "\<And>q. q \<in> set ys \<Longrightarrow> \<exists>q'\<in>set xs. id_of q' = id_of q \<and> key q' = key q"
  shows "once id_of key ys"
  unfolding once_def
proof (intro ballI impI)
  fix a b assume "a \<in> set ys" "b \<in> set ys" and k: "key a = key b \<and> key a \<noteq> None"
  then obtain a' b' where "a' \<in> set xs" "id_of a' = id_of a" "key a' = key a"
    "b' \<in> set xs" "id_of b' = id_of b" "key b' = key b"
    using assms(2) by blast
  with assms(1) k show "id_of a = id_of b" unfolding once_def by metis
qed

lemma reversals_ok_append:
  assumes ok: "reversals_ok d" and t: "transfers_t d' = transfers_t d @ [t]"
    and n: "t_type t \<noteq> REVERSAL" "t_reversal_of t = None" "t_status t = T_COMPLETED"
  shows "reversals_ok d'"
proof -
  have "once t_id t_reversal_of (transfers_t d @ [t])"
    by (rule once_append) (use ok n in \<open>simp_all add: reversals_ok_def undone_def\<close>)
  with ok n show ?thesis unfolding reversals_ok_def undone_def t by auto
qed

lemma keeps_reversals_post:
  "pc_type c \<noteq> REVERSAL \<Longrightarrow> pc_reversal_of c = None \<Longrightarrow> keeps reversals_ok (post_double_entry c)"
  unfolding keeps_def
proof (rule tripleI)
  fix env s p s'
  assume c: "pc_type c \<noteq> REVERSAL" "pc_reversal_of c = None" and i: "reversals_ok (data s)"
    and run: "post_double_entry c env s = (Inr p, s')"
  from run show "\<not> aborted s' \<and> reversals_ok (data s')"
    by (rule post_double_entry_Inr)
      (use c reversals_ok_append [OF i] in \<open>simp add: movement_applied_def movement_row_def\<close>)
qed

lemma undone_reversed:
  assumes T: "undone T" and k: "keyed t_id T" and t: "t \<in> set T" "t_type t \<noteq> REVERSAL" "t_status t = T_COMPLETED"
    and T': "T' = upd_where P reversed T @ [r]" and P: "P t" "\<And>q. q \<in> set T \<Longrightarrow> P q \<Longrightarrow> q = t"
    and r: "undoes r (reversed t)" "t_status r = T_COMPLETED"
  shows "undone T'"
proof -
  have O: "\<And>q. q \<in> set T \<Longrightarrow> t_type q = REVERSAL \<Longrightarrow> \<exists>x\<in>set T. undoes q x"
    "\<And>q. q \<in> set T \<Longrightarrow> t_reversal_of q \<noteq> None \<Longrightarrow> t_type q = REVERSAL"
    "\<And>x. x \<in> set T \<Longrightarrow> t_status x = T_REVERSED \<Longrightarrow> \<exists>q\<in>set T. undoes q x" "once t_id t_reversal_of T"
    using T [unfolded undone_def] by (blast, blast, blast, elim conjE)
  have S: "set T' = insert r (insert (reversed t) (set T - {t}))"
  proof -
    have "{q \<in> set T. P q} = {t}" using P t(1) by blast
    moreover have "{q \<in> set T. \<not> P q} = set T - {t}" using P by blast
    ultimately have "set (upd_where P reversed T) = insert (reversed t) (set T - {t})"
      by (simp add: set_upd_where)
    then show ?thesis unfolding T' by simp
  qed
  have rv: "t_type r = REVERSAL" "t_reversal_of r = Some (t_id t)" using r(1) by (simp_all add: undoes_def)
  have old: "x \<noteq> t" if "undoes q x" for q x using that t(3) by (auto simp: undoes_def)
  have actor: "q \<noteq> t" if "undoes q x" for q x using that t(2) by (auto simp: undoes_def)
  have none: "t_reversal_of q \<noteq> Some (t_id t)" if q: "q \<in> set T" for q
  proof
    assume e: "t_reversal_of q = Some (t_id t)"
    with O(2) [OF q] have "t_type q = REVERSAL" by simp
    with O(1) [OF q] obtain x where x: "x \<in> set T" "undoes q x" by blast
    then have "t_id x = t_id t" using e by (simp add: undoes_def)
    with keyed_inj [OF k x(1) t(1)] old [OF x(2)] show False by simp
  qed
  have same: "\<exists>q'\<in>set T. t_id q' = t_id q \<and> t_reversal_of q' = t_reversal_of q" if "q \<in> set (upd_where P reversed T)" for q
    using that by (auto simp: set_upd_where reversed_def)
  have up: "once t_id t_reversal_of (upd_where P reversed T)"
    by (rule once_map [OF O(4) same])
  have one: "once t_id t_reversal_of T'"
  proof -
    have "t_reversal_of q \<noteq> t_reversal_of r" if q: "q \<in> set (upd_where P reversed T)" for q
      using same [OF q] none unfolding rv(2) by fastforce
    then show ?thesis unfolding T' by (intro once_append up disjI2 ballI)
  qed
  have a1: "\<exists>x\<in>set T'. undoes q x" if q: "q \<in> set T'" "t_type q = REVERSAL" for q
  proof (cases "q = r")
    case False
    then have "q \<in> set T" using q t(2) unfolding S by auto
    with O(1) q(2) obtain x where "x \<in> set T" "undoes q x" by blast
    with old show ?thesis unfolding S by blast
  qed (use r(1) S in blast)
  have a2: "t_type q = REVERSAL" if q: "q \<in> set T'" "t_reversal_of q \<noteq> None" for q
  proof (cases "q = r")
    case False
    then have "q \<in> set T \<or> q = reversed t" using q(1) unfolding S by blast
    then show ?thesis using O(2) [of q] O(2) [OF t(1)] q(2) by (auto simp: reversed_def)
  qed (use rv in simp)
  have a3: "\<exists>q\<in>set T'. undoes q x" if x: "x \<in> set T'" "t_status x = T_REVERSED" for x
  proof (cases "x = reversed t")
    case False
    then have "x \<in> set T" using x r(2) unfolding S by auto
    with O(3) x(2) obtain q where "q \<in> set T" "undoes q x" by blast
    with actor show ?thesis unfolding S by blast
  qed (use r(1) S in blast)
  show ?thesis unfolding undone_def by (intro conjI ballI impI one) (erule a1 a2 a3, assumption)+
qed

lemma count_where_ex: "count_where P xs = Suc n \<Longrightarrow> \<exists>x\<in>set xs. P x"
  unfolding count_where_def by (induction xs) (auto split: if_splits)

lemma reverse_work_reversals:
  assumes run: "reverse_work u ref ctx i env s = (Inr a, s')" and books: "ledger_ok (data s)" and ok: "reversals_ok (data s)"
  shows "reversals_ok (data s')"
proof -
  obtain st b where a: "a = (st, b)" by fastforce
  from run [unfolded a] show ?thesis
  proof (rule reverse_work_Inr)
    fix t :: transfer_row and orig comp and s1 s2 :: txs and created
    let ?P = "\<lambda>q. t_id q = t_id t \<and> Some (t_created_at q) = pg_parse (pg_text (t_created_at t)) \<and> t_status q = T_COMPLETED"
    let ?T = "transfers_t (data s)" and ?c = "reversal_command orig i"
    assume ref: "referenced ref (data s) = Some t" and ty: "t_type t \<noteq> MINT" "t_type t \<noteq> REVERSAL" "t_status t = T_COMPLETED"
      and o: "or_id orig = t_id t" "or_from orig = t_from_account_id t" "or_to orig = t_to_account_id t"
        "or_amount orig = t_amount_minor t"
      and s1: "data s1 = (data s)\<lparr>transfers_t := upd_where ?P reversed ?T\<rparr>"
      and one: "count_where ?P ?T = 1"
      and post: "post_double_entry ?c env s1 = (Inr comp, s2)" and T': "transfers_t (data s') = transfers_t (data s2)"
    have t: "t \<in> set ?T" using ref unfolding referenced_def by (auto dest: select_first_SomeD)
    have k: "keyed t_id ?T" using books by (simp add: ledger_ok_def transfers_ok_def)
    have eq: "q = t" if "q \<in> set ?T" "t_id q = t_id t" for q using keyed_inj [OF k that(1) t that(2)] .
    obtain q where "q \<in> set ?T" "?P q" using count_where_ex [of ?P ?T 0] one by auto
    with eq have Pt: "?P t" by metis
    from post obtain src dst where
      d2: "data s2 = movement_applied (next_entry_ids env (data s1)) ?c (movement_row ?c (p_reference comp) (p_id comp) (now env)) src dst (data s1)"
      by (rule post_double_entry_Inr)
    let ?r = "movement_row ?c (p_reference comp) (p_id comp) (now env)"
    have T2: "transfers_t (data s') = upd_where ?P reversed ?T @ [?r]" unfolding T' d2 s1 by (simp add: movement_applied_def)
    show "reversals_ok (data s')"
      unfolding reversals_ok_def
    proof (rule undone_reversed [OF ok [unfolded reversals_ok_def] k t ty(2,3) T2 Pt])
      show "undoes ?r (reversed t)" "t_status ?r = T_COMPLETED"
        using ty o by (simp_all add: undoes_def movement_row_def reversal_command_def)
    qed (use eq in blast)
  qed
qed

lemma keeps_reversals_event: "keeps reversals_ok (enqueue_event e)"
  by (rule keeps_enqueue_event) (erule reversals_frame, simp)

lemma keeps_reversals_frames:
  "keeps reversals_ok (insert_user_account u)"
  "keeps reversals_ok (claim_idempotency_key u key ep h)" "keeps reversals_ok (complete_idempotency_key i st b)"
  "keeps reversals_ok (transition q to u reason)" "keeps reversals_ok (expire_due k)"
  "keeps reversals_ok (insert_request u v x nt ex sp)"
  "keeps reversals_ok (insert_schedule u v x nt kind startAt remaining)"
  subgoal unfolding insert_user_account_def by (rule keeps_query) (auto split: if_splits elim!: reversals_frame)
  subgoal by (rule keeps_claim) (erule reversals_frame, simp)
  subgoal by (rule keeps_complete) (erule reversals_frame, simp)
  subgoal by (rule keeps_request_updates) (erule reversals_frame, simp)
  subgoal by (rule keeps_request_updates) (erule reversals_frame, simp)
  subgoal by (rule keeps_insert_request) (erule reversals_frame, simp)
  subgoal by (rule keeps_insert_schedule) (erule reversals_frame, simp)
  done

interpretation revs: keyed_program "\<lambda>d. ledger_ok d \<and> reversals_ok d"
proof
  show "ledger_ok d \<and> reversals_ok d \<Longrightarrow> next_uuid d \<le> n \<Longrightarrow>
      ledger_ok (d\<lparr>users_t := us, tokens_t := ts, splits_t := ss, audit_t := as, next_uuid := n\<rparr>) \<and>
      reversals_ok (d\<lparr>users_t := us, tokens_t := ts, splits_t := ss, audit_t := as, next_uuid := n\<rparr>)" for d n us ts ss as
    by (elim conjE, rule conjI, erule ledger_frame, simp add: same_books_def) (erule reversals_frame, simp)
  show "pc_type c \<noteq> REVERSAL \<Longrightarrow> pc_reversal_of c = None \<Longrightarrow>
      keeps (\<lambda>d. ledger_ok d \<and> reversals_ok d) (post_double_entry c)" for c
    by (rule keeps_both [OF keeps_ledger_post keeps_reversals_post])
  show "keeps (\<lambda>d. ledger_ok d \<and> reversals_ok d) (enqueue_event e)" for e
    by (rule keeps_both [OF books.event keeps_reversals_event])
  show "keeps (\<lambda>d. ledger_ok d \<and> reversals_ok d) (insert_user_account u)" for u
    by (rule keeps_both [OF books.account keeps_reversals_frames(1)])
  show "ledger_ok d \<and> reversals_ok d \<Longrightarrow>
      ledger_ok (d\<lparr>accounts_t := upd_where P (with_status st) (accounts_t d)\<rparr>) \<and>
      reversals_ok (d\<lparr>accounts_t := upd_where P (with_status st) (accounts_t d)\<rparr>)" for d P st
    by (elim conjE, rule conjI, erule ledger_ok_status) (erule reversals_frame, simp)
  show "ledger_ok d \<and> reversals_ok d \<Longrightarrow>
      ledger_ok (d\<lparr>notifications_t := upd_where Q (read_notification env) (notifications_t d)\<rparr>) \<and>
      reversals_ok (d\<lparr>notifications_t := upd_where Q (read_notification env) (notifications_t d)\<rparr>)" for d Q env
    by (elim conjE, rule conjI, erule books.read) (erule reversals_frame, simp)
  show "keeps (\<lambda>d. ledger_ok d \<and> reversals_ok d) (insert_request u v x nt ex sp)" for u v x nt ex sp
    by (rule keeps_both [OF books.request_insert keeps_reversals_frames(6)])
  show "to \<noteq> R_ACCEPTED \<Longrightarrow> keeps (\<lambda>d. ledger_ok d \<and> reversals_ok d) (transition i to u reason)" for i to u reason
    by (rule keeps_both [OF books.request_end keeps_reversals_frames(4)])
  show "keeps (\<lambda>d. ledger_ok d \<and> reversals_ok d) (expire_due k)" for k
    by (rule keeps_both [OF books.request_expire keeps_reversals_frames(5)])
  show "keeps (\<lambda>d. ledger_ok d \<and> reversals_ok d) (insert_schedule u v x nt kind startAt remaining)"
    for u v x nt kind startAt remaining
    by (rule keeps_both [OF books.schedule_insert keeps_reversals_frames(7)])
  show "(\<And>r. same_order r (f r)) \<Longrightarrow> ledger_ok d \<and> reversals_ok d \<Longrightarrow>
      ledger_ok (d\<lparr>schedules_t := upd_where R f (schedules_t d)\<rparr>) \<and>
      reversals_ok (d\<lparr>schedules_t := upd_where R f (schedules_t d)\<rparr>)" for f d R
    by (elim conjE, rule conjI, erule ledger_schedule_frames(2)) (erule reversals_frame, simp)
  show "keeps (\<lambda>d. ledger_ok d \<and> reversals_ok d) (run_schedule_tx i)" for i
    by (rule keeps_both [OF books.run], rule keeps_run_schedule, rule keeps_reversals_event)
      (erule reversals_frame, simp, (rule keeps_occurrence_writes; erule reversals_frame; simp)+,
       rule keeps_reversals_post, simp_all add: pay_command_def)
  show "keeps (\<lambda>d. ledger_ok d \<and> reversals_ok d) (dispatch_tx message_of k)" for message_of k
    by (rule keeps_both [OF books.dispatch keeps_dispatch [OF reversals_deaf]])
  show "keeps (\<lambda>d. ledger_ok d \<and> reversals_ok d) (reverse_work u ref ctx i)" for u ref ctx i
    by (rule keeps_with_books [OF books.reverse]) (rule reverse_work_reversals)
  show "keeps (\<lambda>d. ledger_ok d \<and> reversals_ok d) (accept_work u q ctx i)" for u q ctx i
    by (rule keeps_both [OF books.accept], rule keeps_accept_work, rule keeps_reversals_event)
      (erule reversals_frame, simp, rule keeps_reversals_post, simp add: settle_command_def, simp add: settle_command_def,
       rule keeps_request_updates, erule reversals_frame, simp)
  show "keeps (\<lambda>d. ledger_ok d \<and> reversals_ok d) (claim_idempotency_key u key ep h)" for u key ep h
    by (rule keeps_both [OF books.claim keeps_reversals_frames(2)])
  show "keeps (\<lambda>d. ledger_ok d \<and> reversals_ok d) (complete_idempotency_key i st b)" for i st b
    by (rule keeps_both [OF books.complete keeps_reversals_frames(3)])
  show "ledger_ok initial_db \<and> reversals_ok initial_db"
    by (rule conjI [OF ledger_ok_initial]) (simp add: reversals_ok_def undone_def once_def initial_db_def)
qed

end
