(* ===== verification/Calls.thy ===== *)
theory Calls
  imports Reversal_Safety
begin

text \<open>
  The calls of users, operators and workers as sequences of steps: what a call leaves is reached by
  transactions of the program only, whatever it returns.
\<close>

abbreviation steps :: "db \<Rightarrow> db \<Rightarrow> bool" where
  "steps \<equiv> step\<^sup>*\<^sup>*"

lemma steps_refl [simp, intro!]: "steps d d"
  by simp

lemma steps_one: "step d d' \<Longrightarrow> steps d d'"
  by (rule r_into_rtranclp)

lemma reachable_steps: "steps d d' \<Longrightarrow> reachable d \<Longrightarrow> reachable d'"
  by (induction rule: rtranclp_induct) (auto intro: Step)

lemma pool_read: "pool_query (\<lambda>env d. Inr (f env d, d)) env d = (r, d') \<Longrightarrow> d' = d"
  by (erule pool_query_cases) auto

lemma verify_pin_steps: "verify_pin u pin env envs d = (r, d') \<Longrightarrow> steps d d'"
  unfolding verify_pin_def
  by (auto split: prod.splits sum.splits option.splits if_splits simp: Let_def
      dest!: pool_read intro: steps_one Pin_Failed Pin_Cleared)

lemma guarded: "(if c then (Inl e, d) else x) = (r, d') \<Longrightarrow> (x = (r, d') \<Longrightarrow> steps d d') \<Longrightarrow> steps d d'"
  by (auto split: if_splits)

lemma after_pin:
  assumes "(case verify_pin u pin env penvs d of (Inl e, d') \<Rightarrow> (Inl e, d') | (Inr _, d') \<Rightarrow> f d') = (r, d2)"
    and "\<And>d1 r d2. f d1 = (r, d2) \<Longrightarrow> steps d1 d2"
  shows "steps d d2"
proof -
  obtain x d1 where v: "verify_pin u pin env penvs d = (x, d1)" by fastforce
  have "steps d d1" by (rule verify_pin_steps [OF v])
  moreover have "steps d1 d2" using assms v by (cases x) auto
  ultimately show ?thesis by (rule rtranclp_trans)
qed

section \<open>Users\<close>

lemma register_steps: "register_user input ctx env envs d = (r, d') \<Longrightarrow> steps d d'"
  by (auto simp: register_user_def Let_def split: prod.splits sum.splits intro: steps_one Register)

lemma login_steps: "login_user phone pw ctx env1 env2 envs d = (r, d') \<Longrightarrow> steps d d'"
  unfolding login_user_def
  by (auto simp: Let_def split: prod.splits sum.splits option.splits if_splits
      dest!: pool_read intro: steps_one Login)

lemma refresh_steps: "refresh t ctx envs d = (r, d') \<Longrightarrow> steps d d'"
  unfolding refresh_def
  by (auto split: prod.splits sum.splits refresh_outcome.splits intro: steps_one Refresh)

lemma logout_steps: "logout t envs d = (r, d') \<Longrightarrow> steps d d'"
  unfolding logout_def by (rule steps_one) (rule Logout)

section \<open>Money\<close>

lemma send_steps: "send_money u key input raw ctx env penvs envs d = (r, d') \<Longrightarrow> steps d d'"
  unfolding send_money_def Let_def
  by (elim guarded, erule after_pin) (auto intro: steps_one Send)

lemma reverse_steps: "reverse_transfer u ref key pin raw ctx env penvs envs d = (r, d') \<Longrightarrow> steps d d'"
  unfolding reverse_transfer_def by (erule after_pin) (rule steps_one, rule Reverse)

lemma accept_steps: "accept_request u q key pin raw ctx env penvs envs d = (r, d') \<Longrightarrow> steps d d'"
  unfolding accept_request_def by (erule after_pin) (rule steps_one, rule Accept)

lemma terminate_steps:
  "decline_request u q reason ctx envs d = (r, d') \<Longrightarrow> steps d d'"
  "cancel_request u q ctx envs d = (r', d') \<Longrightarrow> steps d d'"
  unfolding decline_request_def cancel_request_def by (rule steps_one, erule Terminate [rotated], simp)+

lemma expire_steps: "expire_requests k envs d = (r, d') \<Longrightarrow> steps d d'"
  unfolding expire_requests_def by (rule steps_one) (rule Expire)

lemma request_steps: "create_request u key input raw ctx env envs d = (r, d') \<Longrightarrow> steps d d'"
  unfolding create_request_def Let_def by (elim guarded) (rule steps_one, rule Request)

lemma split_steps: "create_split u key input raw ctx env envs d = (r, d') \<Longrightarrow> steps d d'"
  unfolding create_split_def by (auto split: sum.splits if_splits intro: steps_one Split)

lemma schedule_steps: "create_schedule u key input raw ctx env penvs envs d = (r, d') \<Longrightarrow> steps d d'"
  unfolding create_schedule_def Let_def
  by (erule after_pin, elim guarded) (rule steps_one, rule Schedule)

lemma transition_steps:
  "pause_schedule u i ctx envs d = (r, d') \<Longrightarrow> steps d d'"
  "resume_schedule u i ctx envs d = (r', d') \<Longrightarrow> steps d d'"
  "cancel_schedule u i ctx envs d = (r'', d') \<Longrightarrow> steps d d'"
  unfolding pause_schedule_def resume_schedule_def cancel_schedule_def schedule_transition_def
  by (rule steps_one, erule Transition)+

section \<open>Accounts\<close>

lemma freeze_steps: "set_own_freeze u frozen pin ctx env penvs envs d = (r, d') \<Longrightarrow> steps d d'"
proof -
  assume run: "set_own_freeze u frozen pin ctx env penvs envs d = (r, d')"
  have one: "steps d1 d2" if "transact (set_own_freeze_tx u frozen ctx) envs d1 = (r, d2)" for d1 d2 r
    using that by (intro steps_one) (rule Own_Freeze)
  show ?thesis
  proof (cases frozen)
    case True
    with run one show ?thesis by (simp add: set_own_freeze_def)
  next
    case False
    from run show ?thesis
      unfolding set_own_freeze_def if_not_P [OF False] by - (elim guarded, erule after_pin, rule one)
  qed
qed

lemma operator_steps: "set_account_status input ctx envs d = (r, d') \<Longrightarrow> steps d d'"
  unfolding set_account_status_def by (rule steps_one) (rule Operator_Status)

lemma read_steps: "mark_read u i env d = (r, d') \<Longrightarrow> steps d d'"
  by (rule steps_one) (rule Mark_Read)

lemma due_steps: "make_due i env d = (r, d') \<Longrightarrow> steps d d'"
  by (rule steps_one) (rule Make_Due)

section \<open>Workers\<close>

lemma run_schedule_steps: "run_schedule i envs d = (r, d') \<Longrightarrow> steps d d'"
  unfolding run_schedule_def by (rule steps_one) (rule Run)

lemma run_all_steps: "run_all k ids res envss d = (r, d') \<Longrightarrow> steps d d'"
proof (induction k ids res envss d rule: run_all.induct)
  case (2 k i ids res envss d)
  obtain x d1 where x: "run_schedule i (envss k) d = (x, d1)" by fastforce
  have "steps d d1" by (rule run_schedule_steps [OF x])
  moreover have "steps d1 d'" using 2 x by (auto split: sum.splits prod.splits)
  ultimately show ?case by (rule rtranclp_trans)
qed simp

lemma read_transact_same:
  assumes "keeps (\<lambda>x. x = d) fn" and "read_transact fn envs d = (r, d')"
  shows "d' = d"
  by (rule read_transact_keeps [OF assms(1) refl assms(2)])

lemma due_steps_tick: "run_due_schedules limit renvs envss d = (r, d') \<Longrightarrow> steps d d'"
proof -
  assume run: "run_due_schedules limit renvs envss d = (r, d')"
  obtain x d1 where x: "read_transact (find_due_schedule_ids limit) renvs d = (x, d1)" by fastforce
  have "d1 = d" by (rule read_transact_same [OF _ x]) (rule keeps_schedule_reads)
  with run x show ?thesis
    by (auto simp: run_due_schedules_def split: sum.splits prod.splits intro: run_all_steps)
qed

lemma drain_schedules_steps: "drain_schedules k n acc renvss envsss d = (r, d') \<Longrightarrow> steps d d'"
proof (induction k n acc renvss envsss d rule: drain_schedules.induct)
  case (2 k n acc renvss envsss d)
  obtain x d1 where x: "run_due_schedules 50 (renvss n) (envsss n) d = (x, d1)" by fastforce
  have "steps d d1" by (rule due_steps_tick [OF x])
  moreover have "steps d1 d'" using 2 x by (auto split: sum.splits if_splits)
  ultimately show ?case by (rule rtranclp_trans)
qed simp

lemma dispatch_steps: "dispatch_batch msg k envs d = (r, d') \<Longrightarrow> steps d d'"
  unfolding dispatch_batch_def by (rule steps_one) (rule Dispatch)

lemma drain_outbox_steps: "drain_outbox msg k n acc envss d = (r, d') \<Longrightarrow> steps d d'"
proof (induction msg k n acc envss d rule: drain_outbox.induct)
  case (2 msg k n acc envss d)
  obtain x d1 where x: "dispatch_batch msg 50 (envss n) d = (x, d1)" by fastforce
  have "steps d d1" by (rule dispatch_steps [OF x])
  moreover have "steps d1 d'" using 2 x by (auto split: sum.splits if_splits prod.splits)
  ultimately show ?case by (rule rtranclp_trans)
qed simp

lemma workers_steps: "run_workers msg renvss envsss eenvs oenvss d = (r, d') \<Longrightarrow> steps d d'"
proof -
  assume run: "run_workers msg renvss envsss eenvs oenvss d = (r, d')"
  obtain x d1 where x: "drain_schedules 50 0 EMPTY_TICK renvss envsss d = (x, d1)" by fastforce
  obtain y d2 where y: "expire_requests 200 eenvs d1 = (y, d2)" by fastforce
  obtain z d3 where z: "drain_outbox msg 100 0 \<lparr>dr_claimed = 0, dr_processed = 0, dr_failed = 0,
      dr_notifications = 0\<rparr> oenvss d2 = (z, d3)" by fastforce
  have "steps d d1" "steps d1 d2" "steps d2 d3"
    by (rule drain_schedules_steps [OF x], rule expire_steps [OF y], rule drain_outbox_steps [OF z])
  with run x y z show ?thesis
    by (auto simp: run_workers_def split: sum.splits prod.splits)
qed

lemmas call_steps = register_steps [OF surjective_pairing] login_steps [OF surjective_pairing]
  refresh_steps [OF surjective_pairing] logout_steps [OF surjective_pairing] send_steps [OF surjective_pairing]
  reverse_steps [OF surjective_pairing] request_steps [OF surjective_pairing] accept_steps [OF surjective_pairing]
  terminate_steps(1) [OF surjective_pairing] terminate_steps(2) [OF surjective_pairing]
  split_steps [OF surjective_pairing] schedule_steps [OF surjective_pairing]
  transition_steps(1) [OF surjective_pairing] transition_steps(2) [OF surjective_pairing]
  transition_steps(3) [OF surjective_pairing] freeze_steps [OF surjective_pairing]
  operator_steps [OF surjective_pairing] read_steps [OF surjective_pairing] due_steps [OF surjective_pairing]
  workers_steps [OF surjective_pairing]

end
