(* ===== verification/World.thy ===== *)
theory World
  imports Calls
begin

text \<open>
  A reachable database to apply the theorems of the program at: from the initial database Alice and
  Bob register, Bob asks Alice for 25 taka, and Alice accepts.
\<close>

definition alice :: register_input where
  "alice = \<lparr>reg_phone = ''01711111111'', reg_name = ''Alice'', reg_password = ''password1'', reg_pin = ''1234''\<rparr>"

definition bob :: register_input where
  "bob = \<lparr>reg_phone = ''01722222222'', reg_name = ''Bob'', reg_password = ''password2'', reg_pin = ''4321''\<rparr>"

definition env1 :: env where
  "env1 = env0\<lparr>random := [6, 7, 8, 9, 10], random32 := [4, 5, 6]\<rparr>"

definition env2 :: env where
  "env2 = env0\<lparr>random := [11, 12, 13, 14, 15], random32 := [7, 8, 9]\<rparr>"

definition ask :: create_request_input where
  "ask = \<lparr>cr_from_phone = ''01711111111'', cr_amount = 2500, cr_note = None, cr_expires_in_days = 7\<rparr>"

lemma stripes: "map treasury_row treasury_account_ids = [treasury_row 1, treasury_row 2, treasury_row 3, treasury_row 4,
   treasury_row 5, treasury_row 6, treasury_row 7, treasury_row 8]"
  by (simp add: treasury_account_ids_def TREASURY_STRIPE_COUNT_def upt_rec eval_nat_numeral)

lemma stripe3: "pick_treasury_stripe 3 = 4"
  by (simp add: pick_treasury_stripe_def treasury_account_ids_def TREASURY_STRIPE_COUNT_def upt_rec)

lemma texts: "btrim ''Alice'' = ''Alice''" "phone_ok ''01711111111''"
    "btrim ''Bob'' = ''Bob''" "phone_ok ''01722222222''"
  by (simp_all add: btrim_def phone_ok_def is_digit_def) 

text \<open>References made on the first of January 2026.\<close>

lemma new_year: "civil (1767225600000 div 86400000) = (2026, 0, 1)"
  by code_simp

lemma new_year_digits: "digit_char 2 = CHR ''2''" "digit_char 6 = CHR ''6''" "digit_char 1 = CHR ''1''" "digit_char (Suc 0) = CHR ''1''"
  by code_simp+

lemma new_year_reference: "generate_reference 1767225600000 bytes = ''TF260101'' @ map (reference_char bytes) [0..<8]"
  using new_year by (simp add: generate_reference_def, simp add: pad_start_def int_text_def nat_text.simps new_year_digits)

lemmas reference_simps = new_year_reference reference_char_def BASE32_def upt_rec Let_def

lemma reference0: "generate_reference 1767225600000 (random env0) = ''TF26010104106105''"
  by (simp add: reference_simps env0_def)

lemma reference1: "generate_reference 1767225600000 (random env1) = ''TF2601010R3GG28A''"
  by (simp add: reference_simps env1_def)

lemma reference2: "generate_reference 1767225600000 (random env2) = ''TF2601011C60T3GF''"
  by (simp add: reference_simps env2_def)

lemma tokens01:
  "generate_refresh_token env0 = (''AQID'', ''AQID'')" "generate_refresh_token env1 = (''BAUG'', ''BAUG'')"
  by code_simp+

lemmas refs = reference0 reference1 reference2 tokens01

lemma env12 [simp]:
  "now env1 = 1767225600000000" "date_now env1 = 1767225600000" "cfg env1 = default_config"
  "policy env1 = initial_policy default_config" "faults env1 = (\<lambda>_. None)" "reliable env1" "random_stripe env1 = 3"
  "now env2 = 1767225600000000" "date_now env2 = 1767225600000" "cfg env2 = default_config"
  "policy env2 = initial_policy default_config" "faults env2 = (\<lambda>_. None)" "reliable env2" 
  "hash_request env1 e b = hash_request env0 e b" "hash_request env2 e b = hash_request env0 e b"
  "held env1 = []" "held env2 = []"
  by (simp_all add: env1_def env2_def reliable_def hash_request_def)

lemmas exec_register = register_tx_def insert_user_def insert_user_account_def issue_session_def insert_refresh_token_def
  issue_access_token_def mint_command_def new_account_row_def

lemmas exec_request = create_request_tx_def create_request_work_def find_user_by_id_def insert_request_def request_refused_def
  new_request_row_def accept_tx_def accept_work_def lock_settleable_request_def settleable_def settle_command_def mark_accepted_def
  accepted_row_def

lemma bump_row [simp]: "bump x \<lparr>a_id = i, a_user_id = u, a_type = ty, a_status = st, a_balance_minor = b, a_version = v\<rparr> =
   \<lparr>a_id = i, a_user_id = u, a_type = ty, a_status = st, a_balance_minor = b + x, a_version = v + 1\<rparr>"
  by (simp add: bump_def)

lemma nothing_spent: "list_all (\<lambda>t. t_type t = MINT) ts \<Longrightarrow>
    sum_where (\<lambda>q. P q \<and> limited_type (t_type q) \<and> Q q) f ts = 0"
  by (rule sum_where_none) (auto simp: list_all_iff limited_type_def)

lemma fresh_reference: "map t_reference ts = rs \<Longrightarrow> r \<notin> set rs \<Longrightarrow> \<not> list_ex (\<lambda>t. t_reference t = r \<and> P t) ts"
  by (auto simp: list_ex_iff)

lemma fresh_token: "map rt_token_hash ts = hs \<Longrightarrow> h \<notin> set hs \<Longrightarrow> \<not> list_ex (\<lambda>t. rt_token_hash t = h) ts"
  by (auto simp: list_ex_iff)

text \<open>The database after Alice's registration, after Bob's, and after his request.\<close>

definition untouched :: "db \<Rightarrow> bool" where
  "untouched d \<longleftrightarrow> idem_t d = [] \<and> requests_t d = [] \<and> splits_t d = [] \<and> schedules_t d = [] \<and>
     occurrences_t d = [] \<and> list_all (\<lambda>t. t_type t = MINT) (transfers_t d)"

definition welcome_event :: "uuid \<Rightarrow> uuid \<Rightarrow> string \<Rightarrow> outbox_event" where
  "welcome_event u a ref = \<lparr>ev_type = ''USER_REGISTERED'', ev_aggregate_type = ''user'', ev_aggregate_id = u,
     ev_payload = JObj [(''userId'', JStr (uuid_text u)), (''phone'', JStr ''01711111111''), (''name'', JStr ''Alice''),
       (''accountId'', JStr (uuid_text a)), (''bonusMinor'', JStr (int_text 10000000)), (''transferReference'', JStr ref)]\<rparr>"

definition alice_in :: "db \<Rightarrow> bool" where
  "alice_in d \<longleftrightarrow> users_t d = [new_user_row 9 ''01711111111'' ''Alice'' ''password1'' ''1234'' 1767225600000000] \<and>
     accounts_t d = [treasury_row 1, treasury_row 2, treasury_row 3, bump (- 10000000) (treasury_row 4), treasury_row 5,
       treasury_row 6, treasury_row 7, treasury_row 8, bump 10000000 (new_account_row 10 9)] \<and>
     map t_reference (transfers_t d) = [''TF26010104106105''] \<and> map t_id (transfers_t d) = [11] \<and> map rt_token_hash (tokens_t d) = [''AQID''] \<and>
     untouched d \<and> next_uuid d = 14 \<and> map e_created_at (entries_t d) = [1767225600000000, 1767225600000000] \<and>
     outbox_t d = [event_row (welcome_event 9 10 ''TF26010104106105'') 12 1767225600000000] \<and> notifications_t d = []"

definition started :: "db \<Rightarrow> bool" where
  "started d \<longleftrightarrow> users_t d = [new_user_row 9 ''01711111111'' ''Alice'' ''password1'' ''1234'' 1767225600000000,
       new_user_row 14 ''01722222222'' ''Bob'' ''password2'' ''4321'' 1767225600000000] \<and>
     accounts_t d = [treasury_row 1, treasury_row 2, treasury_row 3,
       bump (- 10000000) (bump (- 10000000) (treasury_row 4)), treasury_row 5, treasury_row 6, treasury_row 7, treasury_row 8,
       bump 10000000 (new_account_row 10 9), bump 10000000 (new_account_row 15 14)] \<and>
     map t_reference (transfers_t d) = [''TF26010104106105'', ''TF2601010R3GG28A''] \<and> map t_id (transfers_t d) = [11, 16] \<and>
     untouched d \<and> next_uuid d = 19 \<and>
     map e_created_at (entries_t d) = [1767225600000000, 1767225600000000, 1767225600000000, 1767225600000000]"

text \<open>\<open>runs fn env d Q\<close>: run on d without a failure, the transaction commits a database that satisfies Q.\<close>

definition runs :: "'a tx \<Rightarrow> env \<Rightarrow> db \<Rightarrow> (db \<Rightarrow> bool) \<Rightarrow> bool" where
  "runs fn env d Q \<longleftrightarrow> reliable env \<and> (\<exists>a s. fn env (begin_state d) = (Inr a, s) \<and> \<not> aborted s \<and> Q (data s))"

lemma new_user_more [simp]: "u_status (new_user_row i p n w q t) = U_ACTIVE" "u_name (new_user_row i p n w q t) = n"
  by (simp_all add: new_user_row_def)

lemma alice_registers: "runs (register_tx alice ''password1'' ''1234'' ctx0) env0 initial_db alice_in"
  by (simp add: runs_def alice_def initial_db_def eval_simps exec_common exec_ledger exec_register texts
      stripes stripe3 refs alice_in_def untouched_def entries_of_def welcome_event_def)

lemma bob_registers:
  "alice_in d \<Longrightarrow> runs (register_tx bob ''password2'' ''4321'' ctx0) env1 d started"
  by (simp add: runs_def bob_def eval_simps exec_common exec_ledger exec_register texts
      stripe3 refs alice_in_def started_def untouched_def entries_of_def fresh_reference fresh_token)

definition asked :: "db \<Rightarrow> db \<Rightarrow> bool" where
  "asked d0 d \<longleftrightarrow> started d0 \<and> users_t d = users_t d0 \<and> accounts_t d = accounts_t d0 \<and>
     transfers_t d = transfers_t d0 \<and>
     (\<exists>b. idem_t d = [complete_row 201 b (claimed_row 19 14 ''key-00001'' CREATE_REQUEST_ENDPOINT
       (hash_request env0 CREATE_REQUEST_ENDPOINT JNull) 1767225600000000)]) \<and>
     next_uuid d = 22 \<and> requests_t d = [new_request_row 20 14 9 2500 None 1767830400000 None 1767225600000000]"

lemma bob_asks:
  "started d \<Longrightarrow> runs (create_request_tx 14 ''key-00001'' ask JNull ctx0) env0 d (asked d)"
  by (simp add: runs_def asked_def started_def ask_def eval_simps exec_common exec_request new_account_row_def claimed_row_def
      int8_range_def same_key_def complete_row_def untouched_def)

lemma alice_accepts:
  "asked d0 d \<Longrightarrow> runs (accept_tx 9 20 ''key-00002'' JNull ctx0) env2 d (\<lambda>d'. map r_status (requests_t d') = [R_ACCEPTED] \<and>
     map a_balance_minor (accounts_t d') = [0, 0, 0, - 20000000, 0, 0, 0, 0, 9997500, 10002500])"
  unfolding asked_def
  by (elim exE conjE) (simp add: runs_def started_def eval_simps exec_common exec_request new_account_row_def
      int8_range_def exec_ledger refs micros_of_date_def nothing_spent fresh_reference untouched_def
      same_key_def complete_row_def claimed_row_def)

text \<open>A second call under Bob's key.\<close>

lemma bob_asks_again: "asked d0 d \<Longrightarrow> runs (create_request_tx 14 ''key-00001'' ask JNull ctx0) env0 d (\<lambda>_. True)"
  unfolding asked_def
  by (elim exE conjE) (simp add: runs_def create_request_tx_def claim_idempotency_key_def insert_claim_def eval_simps
      same_key_def complete_row_def claimed_row_def)

definition settled_world :: "db \<Rightarrow> bool" where
  "settled_world d \<longleftrightarrow> reachable d \<and> map r_status (requests_t d) = [R_ACCEPTED] \<and>
     map a_balance_minor (accounts_t d) = [0, 0, 0, - 20000000, 0, 0, 0, 0, 9997500, 10002500]"

section \<open>A transfer and its reversal\<close>

definition send1 :: transfer_input where
  "send1 = \<lparr>ti_to_phone = ''01722222222'', ti_amount = 2500, ti_note = None, ti_pin = ''1234''\<rparr>"

definition env3 :: env where
  "env3 = env0\<lparr>random := [16, 17, 18, 19, 20]\<rparr>"

lemma env3 [simp]:
  "now env3 = 1767225600000000" "date_now env3 = 1767225600000" "cfg env3 = default_config"
  "policy env3 = initial_policy default_config" "faults env3 = (\<lambda>_. None)" "reliable env3" "held env3 = []"
  by (simp_all add: env3_def reliable_def)

lemma reference3: "generate_reference 1767225600000 (random env3) = ''TF260101208H44RM''"
  by (simp add: reference_simps env3_def)

lemma reversal_window:
  "reference_date_range ''TF2601011C60T3GF'' = Some (1767225600000, 1767312000000)"
  by code_simp

lemma reversal_texts:
  "as_pg_timestamp (pg_text 1767225600000000) = Inr (pg_text 1767225600000000)"
  "to_date (pg_text 1767225600000000) = Inr 1767225600000"
  "pg_parse (pg_text 1767225600000000) = Some 1767225600000000"
proof -
  have "four_digit_year 1767225600000000"
    by (simp add: four_digit_year_def year_of_day_def day_from_year_def Let_def)
  then show "as_pg_timestamp (pg_text 1767225600000000) = Inr (pg_text 1767225600000000)"
    "to_date (pg_text 1767225600000000) = Inr 1767225600000"
    "pg_parse (pg_text 1767225600000000) = Some 1767225600000000"
    by (simp_all add: as_pg_timestamp_def is_pg_timestamp_text to_date_text pg_parse_text date_of_micros_def)
qed

definition sent_row :: transfer_row where
  "sent_row = \<lparr>t_id = 20, t_reference = ''TF2601011C60T3GF'', t_from_account_id = 10, t_to_account_id = 15, t_amount_minor = 2500,
     t_type = P2P, t_status = T_COMPLETED, t_note = None, t_idempotency_key_id = Some 19, t_reversal_of = None,
     t_created_at = 1767225600000000\<rparr>"

lemma nothing_counted: "list_all (\<lambda>t. t_type t = MINT) ts \<Longrightarrow> filter (counted_transfer e i) ts = []"
  by (auto simp: filter_empty_conv list_all_iff counted_transfer_def)

definition sent :: "db \<Rightarrow> db \<Rightarrow> bool" where
  "sent d0 d \<longleftrightarrow> started d0 \<and> users_t d = users_t d0 \<and> accounts_t d = [treasury_row 1, treasury_row 2, treasury_row 3,
       bump (- 10000000) (bump (- 10000000) (treasury_row 4)), treasury_row 5, treasury_row 6, treasury_row 7, treasury_row 8,
       bump (- 2500) (bump 10000000 (new_account_row 10 9)), bump 2500 (bump 10000000 (new_account_row 15 14))] \<and>
     transfers_t d = transfers_t d0 @ [sent_row] \<and> (\<exists>b. idem_t d = [complete_row 201 b (claimed_row 19 9 ''key-00003'' SEND_ENDPOINT
       (hash_request env0 SEND_ENDPOINT JNull) 1767225600000000)]) \<and> next_uuid d = 22"

lemma alice_sends: "started d \<Longrightarrow> runs (send_money_tx 9 ''key-00003'' send1 JNull ctx0) env2 d (sent d)"
  by (simp add: runs_def sent_def started_def untouched_def eval_simps exec_common exec_ledger send_money_tx_def
      send_money_work_def send_command_def enforce_velocity_def is_anomalous_def send1_def nothing_counted nothing_spent
      fresh_reference refs sent_row_def claimed_row_def complete_row_def new_account_row_def int8_range_def)

lemma no_reference: "map t_reference ts = rs \<Longrightarrow> r \<notin> set rs \<Longrightarrow>
   select_first (\<lambda>t. original_matches r w t \<and> Q t) (ts @ us) = select_first (\<lambda>t. original_matches r w t \<and> Q t) us"
  by (induction ts arbitrary: rs) (auto simp: original_matches_def)

lemma original_sent:
  "original_matches ''TF2601011C60T3GF'' (Some (1767225600000, 1767312000000)) (sent_row\<lparr>t_status := st\<rparr>)"
  by (simp add: original_matches_def sent_row_def micros_of_date_def)

lemma no_other: "map t_id ts = is \<Longrightarrow> i \<notin> set is \<Longrightarrow> count_where (\<lambda>t. t_id t = i \<and> P t) ts = 0"
  "map t_id ts = is \<Longrightarrow> i \<notin> set is \<Longrightarrow> upd_where (\<lambda>t. t_id t = i \<and> P t) f ts = ts"
  by (auto simp: count_where_0_iff intro!: upd_where_id)

lemma alice_reverses:
  "sent d0 d \<Longrightarrow> runs (reverse_tx 9 ''TF2601011C60T3GF'' ''key-00004'' JNull ctx0) env3 d
    (\<lambda>d'. map a_balance_minor (accounts_t d') = [0, 0, 0, - 20000000, 0, 0, 0, 0, 10000000, 10000000] \<and>
      sent_row\<lparr>t_status := T_REVERSED\<rparr> \<in> set (transfers_t d'))"
  unfolding sent_def
  by (elim exE conjE) (simp add: runs_def started_def untouched_def eval_simps exec_common exec_ledger reverse_tx_def
      reverse_work_def reversal_command_def load_original_def no_reference joined_accounts_def account_user_def
      original_sent [of T_COMPLETED, unfolded sent_row_def, simplified] fresh_reference reference3 reversal_window
      reversal_texts sent_row_def claimed_row_def complete_row_def new_account_row_def int8_range_def
      mark_reversed_def same_key_def no_other)

text \<open>A transaction that runs without a failure is a step.\<close>

lemma runs_transact:
  assumes "runs fn env d Q"
  shows "\<exists>r hs d'. transact fn (\<lambda>_. env) d = (Inr (r, hs), d') \<and> Q d'"
proof -
  from assms obtain a s where s: "reliable env" "fn env (begin_state d) = (Inr a, s)" "\<not> aborted s" "Q (data s)"
    unfolding runs_def by blast
  have "transact fn (\<lambda>_. env) d = (Inr (a, hooks s), data s)"
    by (rule transact_reliable [where fn = fn and envs = "\<lambda>_. env", OF s(1-3)])
  with s(4) show ?thesis by blast
qed

lemma runs_step:
  assumes "runs fn env d Q" and "\<And>r d'. transact fn (\<lambda>_. env) d = (r, d') \<Longrightarrow> step d d'"
  shows "\<exists>d'. step d d' \<and> Q d'"
proof -
  obtain r hs d' where t: "transact fn (\<lambda>_. env) d = (Inr (r, hs), d')" "Q d'" using runs_transact [OF assms(1)] by blast
  from assms(2) [OF t(1)] t(2) show ?thesis by blast
qed

lemma run_step:
  assumes "runs fn env d Q" and "\<And>r d'. transact fn (\<lambda>_. env) d = (r, d') \<Longrightarrow> step d d'" and "reachable d"
  shows "\<exists>d'. reachable d' \<and> Q d'"
proof -
  have "\<exists>d'. step d d' \<and> Q d'" by (rule runs_step [OF assms(1)]) (rule assms(2))
  with Step [OF assms(3)] show ?thesis by blast
qed

lemma alice_step: "\<exists>d. step initial_db d \<and> alice_in d"
  by (rule runs_step [OF alice_registers]) (erule Register)

lemma started_world: "\<exists>d. reachable d \<and> started d"
proof -
  have "\<exists>d. reachable d \<and> alice_in d"
    by (rule run_step [OF alice_registers]) (erule Register, rule Start)
  then obtain d1 where 1: "reachable d1" "alice_in d1" by blast
  show ?thesis by (rule run_step [OF bob_registers [OF 1(2)]]) (erule Register, rule 1(1))
qed

lemma settled_world: "\<exists>d. settled_world d"
proof -
  obtain d2 where 2: "reachable d2" "started d2" using started_world by blast
  have "\<exists>d. reachable d \<and> asked d2 d"
    by (rule run_step [OF bob_asks [OF 2(2)]]) (erule Request, rule 2(1))
  then obtain d3 where 3: "reachable d3" "asked d2 d3" by blast
  show ?thesis
    unfolding settled_world_def
    by (rule run_step [OF alice_accepts [OF 3(2)]]) (erule Accept, rule 3(1))
qed

lemma settled_reachable: "settled_world d \<Longrightarrow> reachable d"
  by (simp add: settled_world_def)

lemma settled_request:
  assumes "settled_world d"
  obtains r where "requests_t d = [r]" "r_status r = R_ACCEPTED"
  using assms by (auto simp: settled_world_def)

lemma sent_world: "\<exists>d0 d. reachable d \<and> sent d0 d"
proof -
  obtain d0 where 1: "reachable d0" "started d0" using started_world by blast
  have "\<exists>d. reachable d \<and> sent d0 d"
    by (rule run_step [OF alice_sends [OF 1(2)]]) (erule Send, rule 1(1))
  then show ?thesis by blast
qed

lemma asked_world: "\<exists>d0 d. reachable d \<and> asked d0 d"
proof -
  obtain d0 where 1: "reachable d0" "started d0" using started_world by blast
  have "\<exists>d. reachable d \<and> asked d0 d"
    by (rule run_step [OF bob_asks [OF 1(2)]]) (erule Request, rule 1(1))
  then show ?thesis by blast
qed

end
