(* ===== verification/Episodes.thy ===== *)
theory Episodes
  imports World
begin

text \<open>
  Three more reachable databases, for what the one of \<open>World\<close> has no row of: Alice has undone a
  transfer, a standing order of hers has been paid, and the dispatcher has told her of her registration.
\<close>

definition undone_world :: "db \<Rightarrow> bool" where
  "undone_world d \<longleftrightarrow> reachable d \<and> sent_row\<lparr>t_status := T_REVERSED\<rparr> \<in> set (transfers_t d)"

lemma undone_world: "\<exists>d. undone_world d"
proof -
  obtain d0 d1 where 1: "reachable d1" "sent d0 d1" using sent_world by blast
  have "\<exists>d. reachable d \<and> (map a_balance_minor (accounts_t d) = [0, 0, 0, - 20000000, 0, 0, 0, 0, 10000000, 10000000] \<and>
      sent_row\<lparr>t_status := T_REVERSED\<rparr> \<in> set (transfers_t d))"
    by (rule run_step [OF alice_reverses [OF 1(2)]]) (erule Reverse, rule 1(1))
  then show ?thesis by (auto simp: undone_world_def)
qed

section \<open>A standing order\<close>

definition order1 :: create_schedule_input where
  "order1 = \<lparr>si_to_phone = ''01722222222'', si_amount = 2500, si_note = None, si_interval = DAILY,
     si_start_at = 1767225600000, si_total_runs = None, si_pin = ''1234''\<rparr>"

definition order_row :: schedule_row where
  "order_row = \<lparr>s_id = 20, s_owner_user_id = 9, s_payee_user_id = 14, s_amount_minor = 2500, s_note = None,
     s_interval_kind = DAILY, s_next_run_at = 1767225600000000, s_remaining_runs = None, s_status = S_ACTIVE,
     s_last_run_at = None, s_retry_after = None, s_created_at = 1767225600000000\<rparr>"

definition ordered :: "db \<Rightarrow> db \<Rightarrow> bool" where
  "ordered d0 d \<longleftrightarrow> started d0 \<and> users_t d = users_t d0 \<and> accounts_t d = accounts_t d0 \<and> transfers_t d = transfers_t d0 \<and>
     schedules_t d = [order_row] \<and> occurrences_t d = [] \<and> next_uuid d = 21"

lemma alice_orders:
  "started d \<Longrightarrow> runs (create_schedule_tx 9 ''key-00005'' order1 JNull ctx0) env0 d (ordered d)"
  by (simp add: runs_def ordered_def started_def untouched_def order1_def order_row_def eval_simps exec_common
      create_schedule_tx_def create_schedule_work_def insert_schedule_def schedule_refused_def map_schedule_def
      reversal_texts micros_of_date_def claimed_row_def complete_row_def int8_range_def same_key_def new_account_row_def)

lemma order_runs:
  "ordered d0 d \<Longrightarrow> runs (run_schedule_tx 20) env2 d (\<lambda>d'. \<exists>x. occurrences_t d' = [x] \<and> o_status x = O_PAID)"
  unfolding ordered_def
  by (elim conjE) (simp add: runs_def started_def untouched_def order_row_def run_schedule_tx_def claim_due_schedule_def
      mapped_def map_schedule_def is_due_def reversal_texts date_of_micros_def eval_simps exec_common exec_ledger
      claim_occurrence_def occurrence_key_def pay_def pay_command_def savepoint_try_def command_def run_paid_def
      settle_occurrence_def settled_occurrence_def advance_schedule_def nothing_spent fresh_reference refs new_account_row_def)

definition paid_world :: "db \<Rightarrow> bool" where
  "paid_world d \<longleftrightarrow> reachable d \<and> (\<exists>x. occurrences_t d = [x] \<and> o_status x = O_PAID)"

lemma paid_world: "\<exists>d. paid_world d"
proof -
  obtain d0 where 1: "reachable d0" "started d0" using started_world by blast
  have "\<exists>d. reachable d \<and> ordered d0 d"
    by (rule run_step [OF alice_orders [OF 1(2)]]) (erule Schedule, rule 1(1))
  then obtain d where 2: "reachable d" "ordered d0 d" by blast
  show ?thesis unfolding paid_world_def
    by (rule run_step [OF order_runs [OF 2(2)]]) (erule Run, rule 2(1))
qed

section \<open>A notification\<close>

lemma big_int_text: "js_big_int (int_text n) = Inr n"
  by (simp add: js_big_int_def Let_def)

lemma welcome_shown:
  "\<exists>p. handle_event (event_record (event_row (welcome_event 9 10 ref) 12 t)) = tell (Some (uuid_text 9))
     (event_record (event_row (welcome_event 9 10 ref) 12 t)) ''WELCOME'' (Inr p)"
proof -
  let ?e = "event_record (event_row (welcome_event 9 10 ref) 12 t)"
  have "\<exists>p. welcome_payload (er_payload ?e) = Inr p"
    by (simp add: welcome_payload_def event_record_def event_row_def welcome_event_def str_def big_int_text)
  moreover have "handle_event ?e = tell (Some (uuid_text 9)) ?e ''WELCOME'' (welcome_payload (er_payload ?e))"
    by (simp add: handle_event_def event_record_def event_row_def welcome_event_def str_def Let_def)
  ultimately show ?thesis by auto
qed

lemma welcome_told:
  assumes "alice_in d"
  shows "runs (dispatch_tx (\<lambda>_. []) 50) env1 d (\<lambda>d'. \<exists>n. notifications_t d' = [n] \<and> n_user_id n = 9 \<and> n_event_id n = 12)"
proof -
  let ?x = "event_row (welcome_event 9 10 ''TF26010104106105'') 12 1767225600000000"
  obtain p where p: "handle_event (event_record ?x) = tell (Some (uuid_text 9)) (event_record ?x) ''WELCOME'' (Inr p)"
    using welcome_shown by blast
  have x: "is_ready env1 ?x" "x_id ?x = 12" "er_id (event_record ?x) = 12"
    by (simp_all add: is_ready_def event_row_def event_record_def)
  have t: "uuid_text 9 \<noteq> []" by (simp add: uuid_text_def Let_def)
  show ?thesis
    using assms
    by (simp add: runs_def alice_in_def dispatch_tx_def ready_events_def x p t dispatch_event_def deliver_def tell_def notify_def
        notification_of_def command_def mark_processed_def eval_simps is_uuid_text uuid_value_text user_exists_def)
qed

definition told_world :: "db \<Rightarrow> bool" where
  "told_world d \<longleftrightarrow> reachable d \<and> (\<exists>n. notifications_t d = [n] \<and> n_user_id n = 9 \<and> n_event_id n = 12)"

lemma told_world: "\<exists>d. told_world d"
proof -
  obtain d where 1: "step initial_db d" "alice_in d" using alice_step by blast
  show ?thesis unfolding told_world_def
    by (rule run_step [OF welcome_told [OF 1(2)]]) (erule Dispatch, rule Step [OF Start 1(1)])
qed

end
