(* ===== verification/Bank.thy ===== *)
theory Bank
  imports Reversal_Safety
begin

text \<open>
  The wallet as its users see it: accounts with a status and a balance, and three events that change
  them. Every transaction of the program is a sequence of these events on the account rows, so what
  holds of the abstract bank (a frozen account does not pay, no user account is overdrawn, money is
  only moved) holds of the program.
\<close>

section \<open>The abstract bank\<close>

record bank_account =
  ba_system :: bool
  ba_status :: account_status
  ba_balance :: int

type_synonym bank = "uuid \<Rightarrow> bank_account option"

inductive bank_step :: "bank \<Rightarrow> bank \<Rightarrow> bool" where
  Open_Account: "B i = None \<Longrightarrow>
    bank_step B (B(i \<mapsto> \<lparr>ba_system = False, ba_status = A_ACTIVE, ba_balance = 0\<rparr>))"
| Move: "i \<noteq> j \<Longrightarrow> 0 < x \<Longrightarrow> B i = Some a \<Longrightarrow> B j = Some b \<Longrightarrow> ba_status a = A_ACTIVE \<Longrightarrow>
    ba_status b \<noteq> A_CLOSED \<Longrightarrow> ba_system a \<or> x \<le> ba_balance a \<Longrightarrow>
    bank_step B (B(i \<mapsto> a\<lparr>ba_balance := ba_balance a - x\<rparr>, j \<mapsto> b\<lparr>ba_balance := ba_balance b + x\<rparr>))"
| Set_Status: "bank_step B (\<lambda>i. if i \<in> S then map_option (ba_status_update (\<lambda>_. st)) (B i) else B i)"

abbreviation bank_steps :: "bank \<Rightarrow> bank \<Rightarrow> bool" where
  "bank_steps \<equiv> bank_step\<^sup>*\<^sup>*"

text \<open>No user account of the bank is ever overdrawn.\<close>

definition solvent :: "bank \<Rightarrow> bool" where
  "solvent B \<longleftrightarrow> (\<forall>i a. B i = Some a \<longrightarrow> ba_system a \<or> 0 \<le> ba_balance a)"

lemma bank_step_solvent: "bank_step B B' \<Longrightarrow> solvent B \<Longrightarrow> solvent B'"
proof (induction rule: bank_step.induct)
  case (Move i j x B a b)
  then have "ba_system b \<or> 0 \<le> ba_balance b + x" by (fastforce simp: solvent_def)
  with Move show ?case unfolding solvent_def by auto
next
  case (Set_Status B S st)
  then show ?case unfolding solvent_def by (auto split: if_splits) blast
qed (auto simp: solvent_def)

section \<open>The bank of a database\<close>

definition seen :: "account_row \<Rightarrow> bank_account" where
  "seen a = \<lparr>ba_system = (a_type a = SYSTEM), ba_status = a_status a, ba_balance = a_balance_minor a\<rparr>"

definition bank_of :: "db \<Rightarrow> bank" where
  "bank_of d i = map_option seen (account_by_id i d)"

lemma bank_of_accounts: "accounts_t d' = accounts_t d \<Longrightarrow> bank_of d' = bank_of d"
  by (rule ext) (simp add: bank_of_def account_by_id_def)

lemma bank_of_movement:
  assumes m: "movable c a b d"
  shows "bank_step (bank_of d) (bank_of (movement_applied n c t a b d))"
proof -
  have s: "pc_from c \<noteq> pc_to c" "account_by_id (pc_from c) d = Some a" "account_by_id (pc_to c) d = Some b"
    using m by (simp_all add: movable_def)
  have "bank_of (movement_applied n c t a b d) = (bank_of d)
      (pc_from c \<mapsto> (seen a)\<lparr>ba_balance := ba_balance (seen a) - pc_amount c\<rparr>,
       pc_to c \<mapsto> (seen b)\<lparr>ba_balance := ba_balance (seen b) + pc_amount c\<rparr>)"
    using s by (intro ext) (auto simp: bank_of_def account_by_id_movement [OF s(1)] seen_def bump_def option.map_id)
  moreover have "bank_step (bank_of d) \<dots>"
    using m by (intro Move) (auto simp: movable_def bank_of_def seen_def)
  ultimately show ?thesis by simp
qed

lemma bank_of_new_account:
  assumes "\<forall>a\<in>set (accounts_t d). a_id a < i"
  shows "bank_step (bank_of d) (bank_of (d\<lparr>accounts_t := accounts_t d @ [new_account_row i u], next_uuid := n\<rparr>))"
proof -
  have none: "bank_of d i = None"
    using assms account_by_id_SomeD [of i d] by (cases "account_by_id i d") (auto simp: bank_of_def)
  have *: "bank_of (d\<lparr>accounts_t := accounts_t d @ [new_account_row i u], next_uuid := n\<rparr>) =
      (bank_of d)(i \<mapsto> \<lparr>ba_system = False, ba_status = A_ACTIVE, ba_balance = 0\<rparr>)"
    using none by (intro ext) (auto simp: bank_of_def account_by_id_def new_account_row_def seen_def select_first_append
        split: option.splits)
  show ?thesis unfolding * by (rule Open_Account) (rule none)
qed

lemma bank_of_status:
  assumes "keyed a_id (accounts_t d)"
  shows "bank_step (bank_of d) (bank_of (d\<lparr>accounts_t := upd_where P (with_status st) (accounts_t d)\<rparr>))"
proof -
  have *: "bank_of (d\<lparr>accounts_t := upd_where P (with_status st) (accounts_t d)\<rparr>) = (\<lambda>i.
      if i \<in> a_id ` {a \<in> set (accounts_t d). P a}
      then map_option (ba_status_update (\<lambda>_. st)) (bank_of d i) else bank_of d i)"
  proof
    fix i
    let ?a = "select_first (\<lambda>a. a_id a = i) (accounts_t d)"
    have u: "select_first (\<lambda>a. a_id a = i) (upd_where P (with_status st) (accounts_t d)) =
        map_option (\<lambda>a. if P a then with_status st a else a) ?a"
      by (rule select_first_upd_where) simp
    show "bank_of (d\<lparr>accounts_t := upd_where P (with_status st) (accounts_t d)\<rparr>) i =
      (if i \<in> a_id ` {a \<in> set (accounts_t d). P a}
       then map_option (ba_status_update (\<lambda>_. st)) (bank_of d i) else bank_of d i)"
    proof (cases ?a)
      case None
      with u show ?thesis by (simp add: bank_of_def account_by_id_def)
    next
      case (Some a)
      then have a: "a \<in> set (accounts_t d)" "a_id a = i" by (auto dest: select_first_SomeD)
      have m: "i \<in> a_id ` {a \<in> set (accounts_t d). P a} \<longleftrightarrow> P a"
      proof
        assume "i \<in> a_id ` {a \<in> set (accounts_t d). P a}"
        then obtain q where q: "q \<in> set (accounts_t d)" "P q" "a_id a = a_id q" using a(2) by auto
        from keyed_inj [OF assms a(1) q(1,3)] q(2) show "P a" by simp
      qed (use a in auto)
      have 1: "bank_of d i = Some (seen a)" using Some by (simp add: bank_of_def account_by_id_def)
      have 2: "bank_of (d\<lparr>accounts_t := upd_where P (with_status st) (accounts_t d)\<rparr>) i =
          Some (seen (if P a then with_status st a else a))"
        using u Some by (simp add: bank_of_def account_by_id_def)
      show ?thesis unfolding m 1 2 by (simp add: seen_def with_status_def)
    qed
  qed
  show ?thesis unfolding * by (rule Set_Status)
qed


section \<open>Refinement\<close>

text \<open>What the events of the bank make of the database's bank, from a bank \<open>B\<close> on.\<close>

definition banked :: "bank \<Rightarrow> db \<Rightarrow> bool" where
  "banked B d \<longleftrightarrow> bank_steps B (bank_of d)"

lemma banked_frame: "banked B d \<Longrightarrow> accounts_t d' = accounts_t d \<Longrightarrow> banked B d'"
  unfolding banked_def by (subst bank_of_accounts [of d' d])

lemma banked_step: "banked B d \<Longrightarrow> bank_step (bank_of d) (bank_of d') \<Longrightarrow> banked B d'"
  by (simp add: banked_def)

lemma banked_deaf: "deaf (banked B)"
  unfolding deaf_def by (intro allI impI) (erule banked_frame, simp)

lemma keeps_banked_event: "keeps (banked B) (enqueue_event e)"
  by (rule keeps_enqueue_event) (erule banked_frame, simp)

lemma keeps_banked_post: "keeps (banked B) (post_double_entry c)"
  unfolding keeps_def
proof (rule tripleI)
  fix env s p s'
  assume i: "banked B (data s)" and run: "post_double_entry c env s = (Inr p, s')"
  from run show "\<not> aborted s' \<and> banked B (data s')"
    by (rule post_double_entry_Inr) (use banked_step [OF i bank_of_movement] in simp)
qed

interpretation bank: keyed_transactions "\<lambda>d. ledger_ok d \<and> banked B d" for B
proof
  show "ledger_ok d \<and> banked B d \<Longrightarrow> next_uuid d \<le> n \<Longrightarrow>
      ledger_ok (d\<lparr>users_t := us, tokens_t := ts, splits_t := ss, audit_t := as, next_uuid := n\<rparr>) \<and>
      banked B (d\<lparr>users_t := us, tokens_t := ts, splits_t := ss, audit_t := as, next_uuid := n\<rparr>)" for d n us ts ss as
    by (elim conjE, rule conjI, erule ledger_frame, simp add: same_books_def) (erule banked_frame, simp)
  show "keeps (\<lambda>d. ledger_ok d \<and> banked B d) (post_double_entry c)" for c
    by (rule keeps_both [OF keeps_ledger_post keeps_banked_post])
  show "keeps (\<lambda>d. ledger_ok d \<and> banked B d) (enqueue_event e)" for e
    by (rule keeps_both [OF books.event keeps_banked_event])
  show "keeps (\<lambda>d. ledger_ok d \<and> banked B d) (insert_user_account u)" for u
  proof (rule keeps_with_books [OF keeps_ledger_account])
    fix env s a s'
    assume run: "insert_user_account u env s = (Inr a, s')" and ok: "ledger_ok (data s)" "banked B (data s)"
    have "\<forall>q\<in>set (accounts_t (data s)). a_id q < next_uuid (data s)" using ok(1) by (simp add: ledger_ok_def accounts_ok_def)
    from banked_step [OF ok(2) bank_of_new_account [OF this]] run show "banked B (data s')"
      by (simp add: insert_user_account_Inr_iff)
  qed
  show "ledger_ok d \<and> banked B d \<Longrightarrow>
      ledger_ok (d\<lparr>accounts_t := upd_where P (with_status st) (accounts_t d)\<rparr>) \<and>
      banked B (d\<lparr>accounts_t := upd_where P (with_status st) (accounts_t d)\<rparr>)" for d P st
    by (elim conjE, rule conjI, erule ledger_ok_status, erule banked_step, rule bank_of_status)
      (simp add: ledger_ok_def accounts_ok_def)
  show "ledger_ok d \<and> banked B d \<Longrightarrow>
      ledger_ok (d\<lparr>notifications_t := upd_where Q (read_notification env) (notifications_t d)\<rparr>) \<and>
      banked B (d\<lparr>notifications_t := upd_where Q (read_notification env) (notifications_t d)\<rparr>)" for d Q env
    by (elim conjE, rule conjI, erule books.read) (erule banked_frame, simp)
  show "keeps (\<lambda>d. ledger_ok d \<and> banked B d) (insert_request u v x nt ex sp)" for u v x nt ex sp
    by (rule keeps_both [OF books.request_insert], rule keeps_insert_request) (erule banked_frame, simp)
  show "to \<noteq> R_ACCEPTED \<Longrightarrow> keeps (\<lambda>d. ledger_ok d \<and> banked B d) (transition i to u reason)" for i to u reason
    by (rule keeps_both [OF books.request_end], assumption, rule keeps_request_updates) (erule banked_frame, simp)
  show "keeps (\<lambda>d. ledger_ok d \<and> banked B d) (expire_due k)" for k
    by (rule keeps_both [OF books.request_expire], rule keeps_request_updates) (erule banked_frame, simp)
  show "keeps (\<lambda>d. ledger_ok d \<and> banked B d) (insert_schedule u v x nt kind startAt remaining)"
    for u v x nt kind startAt remaining
    by (rule keeps_both [OF books.schedule_insert], rule keeps_insert_schedule) (erule banked_frame, simp)
  show "(\<And>r. same_order r (f r)) \<Longrightarrow> ledger_ok d \<and> banked B d \<Longrightarrow>
      ledger_ok (d\<lparr>schedules_t := upd_where R f (schedules_t d)\<rparr>) \<and>
      banked B (d\<lparr>schedules_t := upd_where R f (schedules_t d)\<rparr>)" for f d R
    by (elim conjE, rule conjI, erule ledger_schedule_frames(2)) (erule banked_frame, simp)
  show "keeps (\<lambda>d. ledger_ok d \<and> banked B d) (run_schedule_tx i)" for i
    by (rule keeps_both [OF books.run], rule keeps_run_schedule, rule keeps_banked_event)
      (erule banked_frame, simp, (rule keeps_occurrence_writes; erule banked_frame; simp)+, rule keeps_banked_post)
  show "keeps (\<lambda>d. ledger_ok d \<and> banked B d) (dispatch_tx message_of k)" for message_of k
    by (rule keeps_both [OF books.dispatch keeps_dispatch [OF banked_deaf]])
  show "keeps (\<lambda>d. ledger_ok d \<and> banked B d) (reverse_work u ref ctx i)" for u ref ctx i
    by (rule keeps_both [OF books.reverse], rule keeps_reverse_work, rule keeps_banked_event)
      (erule banked_frame, simp, erule banked_frame, simp, rule keeps_banked_post)
  show "keeps (\<lambda>d. ledger_ok d \<and> banked B d) (accept_work u q ctx i)" for u q ctx i
    by (rule keeps_both [OF books.accept], rule keeps_accept_work, rule keeps_banked_event)
      (erule banked_frame, simp, rule keeps_banked_post, rule keeps_request_updates, erule banked_frame, simp)
  show "keeps (\<lambda>d. ledger_ok d \<and> banked B d) (claim_idempotency_key u key ep h)" for u key ep h
    by (rule keeps_both [OF books.claim], rule keeps_claim) (erule banked_frame, simp)
  show "keeps (\<lambda>d. ledger_ok d \<and> banked B d) (complete_idempotency_key i st b)" for i st b
    by (rule keeps_both [OF books.complete], rule keeps_complete) (erule banked_frame, simp)
qed

lemma step_refines: "step d d' \<Longrightarrow> ledger_ok d \<Longrightarrow> bank_steps (bank_of d) (bank_of d')"
  using bank.step_keeps [of d d' "bank_of d"] by (simp add: banked_def)

end
