(* ===== verification/Lasting.thy ===== *)
theory Lasting
  imports Reversal_Safety
begin

text \<open>
  What is recorded stays recorded: the response stored under an idempotency key and the end of a
  money request survive every later transaction.
\<close>

section \<open>Idempotency keys\<close>

text \<open>The endpoints that take an idempotency key.\<close>

inductive endpoint :: "uuid \<Rightarrow> string \<Rightarrow> outcome tx \<Rightarrow> bool" where
  "endpoint u key (send_money_tx u key transfer raw ctx)"
| "endpoint u key (reverse_tx u ref key raw ctx)"
| "endpoint u key (create_request_tx u key request raw ctx)"
| "endpoint u key (accept_tx u q key raw ctx)"
| "endpoint u key (create_split_tx u key bill shares raw ctx)"
| "endpoint u key (create_schedule_tx u key order raw ctx)"

lemma endpoint_names_response: "endpoint u key fn \<Longrightarrow> names_response u key fn"
  by (induction rule: endpoint.induct)
    (rule send.names_response reverse.names_response create_req.names_response accept.names_response
      create_split.names_response create_sched.names_response)+

lemma endpoint_keeps: "endpoint u key fn \<Longrightarrow> keeps (keys_with K) fn"
  by (induction rule: endpoint.induct)
    (rule send.keeps_keys reverse.keeps_keys create_req.keeps_keys accept.keeps_keys create_split.keeps_keys
      create_sched.keeps_keys)+

lemma committed:
  assumes "keeps I fn" and "I d" and "transact fn envs d = (Inr (r, hs), d')"
  obtains i s where "fn (envs i) (begin_state d) = (Inr r, s)" "data s = d'"
proof (rule transact_Inr [OF assms(3)])
  fix i s assume run: "fn (envs i) (begin_state d) = (Inr r, s)" and d': "d' = (if aborted s then d else data s)"
  have "\<not> aborted s"
    using tripleD [OF assms(1) [unfolded keeps_def] run] assms(2) by simp
  with run d' show thesis by (intro that) simp_all
qed

lemma endpoint_committed:
  assumes "endpoint u key fn" and "keys_ok d" and "transact fn envs d = (Inr (r, hs), d')"
  shows "\<exists>k. select_first (same_key u key) (idem_t d') = Some k \<and> response_of k r"
    and "list_ex (same_key u key) (idem_t d) \<Longrightarrow> out_replayed r \<and> d' = d"
proof -
  obtain i s where run: "fn (envs i) (begin_state d) = (Inr r, s)" "data s = d'"
    by (rule committed [OF endpoint_keeps [OF assms(1), where K = "{}"] _ assms(3)]) (use assms(2) in simp_all)
  note n = endpoint_names_response [OF assms(1), unfolded names_response_def, rule_format, of "begin_state d", simplified]
  show "\<exists>k. select_first (same_key u key) (idem_t d') = Some k \<and> response_of k r"
    and "list_ex (same_key u key) (idem_t d) \<Longrightarrow> out_replayed r \<and> d' = d"
    using n [of "envs i" r s] assms(2) run by auto
qed

text \<open>
  Whatever happened since the first response, a second call under the same key returns that response
  and changes nothing.
\<close>

lemma same_response:
  assumes ok: "keys_ok d" and e: "endpoint u key fn" and run: "transact fn envs d = (Inr (r, hs), d1)"
    and later: "step\<^sup>*\<^sup>* d1 d2"
    and e': "endpoint u key fn'" and again: "transact fn' envs' d2 = (Inr (r', hs'), d3)"
  shows "out_status r' = out_status r \<and> out_body r' = out_body r \<and> out_replayed r' \<and> d3 = d2"
proof -
  obtain k where k: "select_first (same_key u key) (idem_t d1) = Some k" "response_of k r"
    using endpoint_committed(1) [OF e ok run] by blast
  have ok1: "keys_ok d1"
    using transact_keeps [OF endpoint_keeps [OF e, where K = "{}"] _ run] ok by simp
  have "k \<in> set (idem_t d1)" "same_key u key k" using k(1) by (auto dest: select_first_SomeD)
  with ok1 have "keys_with {k} d1" by (simp add: keys_with_def)
  with later have w: "keys_with {k} d2" by (rule held.steps_keep)
  then have in2: "k \<in> set (idem_t d2)" and ok2: "keys_ok d2" by (simp_all add: keys_with_def)
  have "list_ex (same_key u key) (idem_t d2)" using in2 \<open>same_key u key k\<close> by (auto simp: list_ex_iff)
  note replay = endpoint_committed(2) [OF e' ok2 again this]
  moreover obtain k' where k': "select_first (same_key u key) (idem_t d3) = Some k'" "response_of k' r'"
    using endpoint_committed(1) [OF e' ok2 again] by blast
  moreover have "k' = k"
    using keys_ok_select [OF ok2 in2, of u key] k'(1) \<open>same_key u key k\<close> replay by (simp add: same_key_def)
  ultimately show ?thesis using k(2) by (auto simp: response_of_def)
qed

section \<open>Ended requests\<close>

text \<open>A request that was accepted, declined, cancelled or expired is never changed again.\<close>

definition lasting :: "request_row \<Rightarrow> db \<Rightarrow> bool" where
  "lasting r d \<longleftrightarrow> r_status r \<noteq> R_PENDING \<and> r \<in> set (requests_t d) \<and> keyed r_id (requests_t d) \<and>
     (\<forall>q\<in>set (requests_t d). r_id q < next_uuid d)"

lemma lasting_frame:
  "lasting r d \<Longrightarrow> requests_t d' = requests_t d \<Longrightarrow> next_uuid d \<le> next_uuid d' \<Longrightarrow> lasting r d'"
  by (fastforce simp: lasting_def)

lemma lasting_ended: "lasting r d \<Longrightarrow> r_status r \<noteq> R_PENDING"
  by (simp add: lasting_def)

lemma lasting_updated:
  assumes "lasting r d" and "\<not> P r" and "\<And>q. r_id (f q) = r_id q"
  shows "lasting r (d\<lparr>requests_t := upd_where P f (requests_t d)\<rparr>)"
  using assms by (auto simp: lasting_def set_upd_where keyed_upd_where)

lemma lasting_not_due: "lasting r d \<Longrightarrow> r_id r \<notin> set (due_requests env k d)"
proof
  assume l: "lasting r d" and "r_id r \<in> set (due_requests env k d)"
  then obtain q where "q \<in> set (requests_t d)" "r_id q = r_id r" "r_status q = R_PENDING"
    by (auto simp: due_requests_def dest!: in_set_takeD)
  with l keyed_inj [of r_id "requests_t d" q r] show False by (simp add: lasting_def)
qed

lemma lasting_deaf: "deaf (lasting r)"
  unfolding deaf_def by (intro allI impI) (erule lasting_frame, simp, simp)

lemma keeps_lasting:
  "keeps (lasting r) (enqueue_event e)" "keeps (lasting r) (post_double_entry c)"
  "keeps (lasting r) (transition i to u reason)" "keeps (lasting r) (mark_accepted i t)" "keeps (lasting r) (expire_due k)"
  "keeps (lasting r) (insert_request u v x nt ex sp)"
proof -
  show "keeps (lasting r) (enqueue_event e)" by (rule keeps_enqueue_event) (erule lasting_frame, simp, simp)
  show "keeps (lasting r) (post_double_entry c)" by (rule keeps_post) (erule lasting_frame, simp, simp)
  show "keeps (lasting r) (transition i to u reason)"
    unfolding transition_def by (rule keeps_query) (auto simp: Let_def ended_row_def accepted_row_def dest: lasting_ended intro!: lasting_updated)
  show "keeps (lasting r) (mark_accepted i t)"
    unfolding mark_accepted_def by (rule keeps_query) (auto simp: Let_def ended_row_def accepted_row_def dest: lasting_ended intro!: lasting_updated)
  show "keeps (lasting r) (expire_due k)"
    unfolding expire_due_def by (rule keeps_query) (auto simp: Let_def expired_row_def lasting_not_due intro!: lasting_updated)
  show "keeps (lasting r) (insert_request u v x nt ex sp)"
    unfolding insert_request_def by (rule keeps_query) (auto simp: Let_def lasting_def keyed_append1 new_request_row_def split: option.splits)
qed

interpretation ended: keyed_transactions "lasting r" for r
proof
  show "keeps (lasting r) (insert_user_account u)" for u
    unfolding insert_user_account_def by (rule keeps_query) (auto split: if_splits elim!: lasting_frame)
  show "keeps (lasting r) (insert_schedule u v x nt kind startAt remaining)" for u v x nt kind startAt remaining
    by (rule keeps_insert_schedule) (erule lasting_frame, simp, simp)
  show "keeps (lasting r) (run_schedule_tx i)" for i
    by (rule keeps_run_schedule, rule keeps_lasting)
      (erule lasting_frame, simp, simp, (rule keeps_occurrence_writes; erule lasting_frame; simp)+, rule keeps_lasting)
  show "keeps (lasting r) (reverse_work u ref ctx i)" for u ref ctx i
    by (rule keeps_reverse_work, rule keeps_lasting)
      (erule lasting_frame, simp, simp, erule lasting_frame, simp, simp, rule keeps_lasting)
  show "keeps (lasting r) (accept_work u q ctx i)" for u q ctx i
    by (rule keeps_accept_work, rule keeps_lasting) (erule lasting_frame, simp, simp, (rule keeps_lasting)+)
  show "keeps (lasting r) (claim_idempotency_key u key ep h)" for u key ep h
    by (rule keeps_claim) (erule lasting_frame, simp, simp)
  show "keeps (lasting r) (complete_idempotency_key i st b)" for i st b
    by (rule keeps_complete) (erule lasting_frame, simp, simp)
qed (simp_all add: keeps_lasting keeps_dispatch [OF lasting_deaf], (erule lasting_frame, simp, simp)+)

end
