(* ===== verification/Money_Safety.thy ===== *)
theory Money_Safety
  imports Lasting World
begin

text \<open>
  What the transactions that move money do, from the loop that attempts them to the exact change of
  the balances: posting a movement, sending, reversing and settling a request.
\<close>

section \<open>Attempts\<close>

text \<open>What an attempt that got a connection, or failed to, answers.\<close>

definition tried :: "'a tx \<Rightarrow> env \<Rightarrow> db \<Rightarrow> (exn + 'a \<times> hook list) \<times> db" where
  "tried fn env d = (case connect_fault env of Some e \<Rightarrow> (Inl e, d) | None \<Rightarrow> attempt fn env d)"

definition given_up :: "'a tx \<Rightarrow> env \<Rightarrow> db \<Rightarrow> bool" where
  "given_up fn env d \<longleftrightarrow> (\<exists>e. tried fn env d = (Inl e, d) \<and> is_retryable e)"

lemma retried_unchanged:
  assumes "attempt fn env d = (Inl e, d')" and "is_retryable e"
  shows "d' = d"
  using assms by (auto simp: attempt_def is_retryable_def split: option.splits prod.splits sum.splits
      commit_outcome.splits if_splits)

lemma with_transaction_tried:
  "0 < k \<Longrightarrow> \<exists>i. n \<le> i \<and> i < n + k \<and> with_transaction k n fn envs d = tried fn (envs i) d \<and>
     (\<forall>j. n \<le> j \<and> j < i \<longrightarrow> given_up fn (envs j) d)"
proof (induction k n fn envs d rule: with_transaction.induct)
  case (2 k n fn envs d)
  obtain x d1 where a: "attempt fn (envs n) d = (x, d1)" by fastforce
  have stop: ?case if "with_transaction (Suc k) n fn envs d = tried fn (envs n) d"
    by (rule exI [of _ n]) (use that in auto)
  show ?case
  proof (cases "connect_fault (envs n)")
    case (Some e)
    show ?thesis by (rule stop) (simp add: Some tried_def)
  next
    case None
    show ?thesis
    proof (cases "\<exists>e. x = Inl e \<and> is_retryable e \<and> 0 < k")
      case False
      show ?thesis by (rule stop) (use False None a in \<open>auto simp: tried_def split: sum.splits\<close>)
    next
      case True
      then obtain e where e: "x = Inl e" "is_retryable e" "0 < k" by blast
      have d1: "d1 = d" by (rule retried_unchanged [OF a [unfolded e(1)] e(2)])
      have goes_on: "with_transaction (Suc k) n fn envs d = with_transaction k (Suc n) fn envs d"
        using None a e d1 by simp
      have g: "given_up fn (envs n) d" using None a e d1 by (auto simp: given_up_def tried_def)
      obtain i where i: "Suc n \<le> i" "i < Suc n + k" "with_transaction k (Suc n) fn envs d = tried fn (envs i) d"
          "\<And>j. Suc n \<le> j \<Longrightarrow> j < i \<Longrightarrow> given_up fn (envs j) d"
        using "2.IH" [OF None a [symmetric] e(1)] e(2,3) d1 by auto
      have "given_up fn (envs j) d" if "n \<le> j" "j < i" for j
        using g i(4) [of j] that by (cases "j = n") auto
      with i(1-3) goes_on show ?thesis by (intro exI [of _ i]) auto
    qed
  qed
qed simp

text \<open>
  C17. A transaction is attempted at most three times: its answer and the database it leaves are those
  of one attempt on the unchanged database, every attempt before that one failed with a serialization
  failure or a deadlock and left nothing, and the database it leaves is either the old one or the one
  its whole body computed.
\<close>

theorem transaction_is_one_attempt:
  "\<exists>i\<in>{1..3::nat}. transact fn envs d = tried fn (envs i) d \<and> (\<forall>j. 1 \<le> j \<and> j < i \<longrightarrow> given_up fn (envs j) d) \<and>
     (snd (transact fn envs d) = d \<or>
      (\<exists>a s. fn (envs i) (begin_state d) = (Inr a, s) \<and> \<not> aborted s \<and> snd (transact fn envs d) = data s))"
proof -
  obtain i :: nat where i: "1 \<le> i" "i < 1 + 3" "transact fn envs d = tried fn (envs i) d"
      "\<forall>j. 1 \<le> j \<and> j < i \<longrightarrow> given_up fn (envs j) d"
    using with_transaction_tried [of 3 1 fn envs d] unfolding transact_def by auto
  have "snd (tried fn (envs i) d) = d \<or>
      (\<exists>a s. fn (envs i) (begin_state d) = (Inr a, s) \<and> \<not> aborted s \<and> snd (tried fn (envs i) d) = data s)"
    by (auto simp: tried_def attempt_def split: option.splits prod.splits sum.splits commit_outcome.splits)
  with i show ?thesis by (intro bexI [of _ i]) auto
qed

lemma transaction_is_one_attempt_witness:
  "\<exists>i\<in>{1..3::nat}. transact (post_double_entry (send_command send0 31 32 99)) (\<lambda>_. env0) db0 =
     tried (post_double_entry (send_command send0 31 32 99)) env0 db0"
  using transaction_is_one_attempt [of "post_double_entry (send_command send0 31 32 99)" "\<lambda>_. env0" db0] by blast

section \<open>One movement\<close>

definition moved :: "uuid \<Rightarrow> uuid \<Rightarrow> int \<Rightarrow> db \<Rightarrow> db \<Rightarrow> bool" where
  "moved i j x d d' \<longleftrightarrow> (\<forall>k. balance_of k d' =
     map_option (\<lambda>b. b + (if k = i then - x else if k = j then x else 0)) (balance_of k d))"

lemma moved_accounts:
  assumes "moved i j x d d1" and "accounts_t d' = accounts_t d1"
  shows "moved i j x d d'"
  using assms(1) unfolding moved_def balance_of_eq [OF assms(2)] .

lemma post_moves:
  assumes run: "post_double_entry c env s = (Inr p, s')"
  shows "moved (pc_from c) (pc_to c) (pc_amount c) (data s) (data s')"
    and "0 < pc_amount c" "pc_from c \<noteq> pc_to c"
    and "balance_of (pc_from c) (data s') = Some (p_sender_after p)"
    and "balance_of (pc_to c) (data s') = Some (p_receiver_after p)"
    and "\<exists>t n. transfers_t (data s') = transfers_t (data s) @ [t] \<and> t = movement_row c (p_reference p) (p_id p) (now env) \<and>
      entries_t (data s') = entries_t (data s) @ entries_of t (p_sender_after p) (p_receiver_after p) n"
    and "locks s' = locks s @ [min (pc_from c) (pc_to c), max (pc_from c) (pc_to c)]"
    and "\<exists>a. account_by_id (pc_from c) (data s) = Some a \<and> a_status a = A_ACTIVE \<and>
      (a_type a = SYSTEM \<or> pc_amount c \<le> a_balance_minor a)"
proof -
  obtain a b where m: "movable c a b (data s)" and
    d': "data s' = movement_applied (next_entry_ids env (data s)) c (movement_row c (p_reference p) (p_id p) (now env)) a b (data s)" and
    p: "p_sender_after p = a_balance_minor a - pc_amount c" "p_receiver_after p = a_balance_minor b + pc_amount c" and
    l: "locks s' = locks s @ [min (pc_from c) (pc_to c), max (pc_from c) (pc_to c)]"
    using run by (rule post_double_entry_Inr) (rule that, assumption+, simp_all)
  show ne: "pc_from c \<noteq> pc_to c" and "0 < pc_amount c" using m by (simp_all add: movable_def)
  show "locks s' = locks s @ [min (pc_from c) (pc_to c), max (pc_from c) (pc_to c)]" by (rule l)
  note b' = balance_of_movement [OF ne]
  show "moved (pc_from c) (pc_to c) (pc_amount c) (data s) (data s')" unfolding moved_def d' b' by simp
  show "balance_of (pc_from c) (data s') = Some (p_sender_after p)"
    "balance_of (pc_to c) (data s') = Some (p_receiver_after p)"
    unfolding d' b' using m ne by (simp_all add: movable_def balance_of_def p)
  show "\<exists>t n. transfers_t (data s') = transfers_t (data s) @ [t] \<and> t = movement_row c (p_reference p) (p_id p) (now env) \<and>
      entries_t (data s') = entries_t (data s) @ entries_of t (p_sender_after p) (p_receiver_after p) n"
    unfolding d' p by (intro exI conjI) (simp_all add: movement_applied_def)
  show "\<exists>a. account_by_id (pc_from c) (data s) = Some a \<and> a_status a = A_ACTIVE \<and>
      (a_type a = SYSTEM \<or> pc_amount c \<le> a_balance_minor a)"
    using m by (auto simp: movable_def)
qed

lemma post_requests:
  "post_double_entry c env s = (Inr p, s') \<Longrightarrow> requests_t (data s') = requests_t (data s)"
  by (erule post_double_entry_Inr) (simp add: movement_applied_def)

text \<open>Among rows with distinct keys, a condition that includes the key of one and holds once picks that one.\<close>

lemma upd_where_one:
  assumes "keyed k rs" and "count_where P rs = 1" and "\<And>r. P r \<Longrightarrow> k r = i"
  shows "upd_where P f rs = upd_where (\<lambda>r. k r = i) f rs"
  using assms(1,2)
proof (induction rs)
  case (Cons r rs)
  have k: "keyed k rs" "\<forall>q\<in>set rs. k q \<noteq> k r" using Cons.prems(1) by (auto simp: keyed_def image_iff)
  show ?case
  proof (cases "P r")
    case True
    then have i: "k r = i" by (rule assms(3))
    have "upd_where P f rs = rs" using k(2) assms(3) i by (intro upd_where_id) auto
    moreover have "upd_where (\<lambda>r. k r = i) f rs = rs" using k(2) i by (intro upd_where_id) auto
    ultimately show ?thesis using True i by simp
  next
    case False
    then have c: "count_where P rs = 1" using Cons.prems(2) by simp
    then have "count_where P rs \<noteq> 0" by simp
    then obtain q where "q \<in> set rs" "P q" by (auto simp: count_where_0_iff)
    then have "k r \<noteq> i" using assms(3) k(2) by metis
    with False Cons.IH [OF k(1) c] show ?thesis by simp
  qed
qed simp

text \<open>
  C15. A posting that returns has moved exactly its amount from one account to the other and touched no
  other balance; it appended one transfer with its debit and credit entries, which carry the new
  balances, and locked the two accounts in ascending order.
\<close>

theorem posting_moves_exactly:
  assumes "post_double_entry c env s = (Inr p, s')"
  shows "moved (pc_from c) (pc_to c) (pc_amount c) (data s) (data s') \<and>
    balance_of (pc_from c) (data s') = Some (p_sender_after p) \<and> balance_of (pc_to c) (data s') = Some (p_receiver_after p) \<and>
    (\<exists>t n. transfers_t (data s') = transfers_t (data s) @ [t] \<and> t_id t = p_id p \<and> t_amount_minor t = pc_amount c \<and>
      entries_t (data s') = entries_t (data s) @ entries_of t (p_sender_after p) (p_receiver_after p) n) \<and>
    locks s' = locks s @ [min (pc_from c) (pc_to c), max (pc_from c) (pc_to c)]"
  using post_moves(1,4,5,6,7) [OF assms] by auto

lemma posting_moves_exactly_witness:
  "\<exists>p s'. post_double_entry (send_command send0 31 32 99) env0 (begin_state db0) = (Inr p, s') \<and>
     balance_of 31 (data s') = Some (p_sender_after p) \<and> locks s' = [31, 32]"
proof -
  obtain p s' where r: "post_double_entry (send_command send0 31 32 99) env0 (begin_state db0) = (Inr p, s')"
    by (simp add: send_command_def send0_def eval_simps exec_ledger exec_common)
  from posting_moves_exactly [OF r] r show ?thesis by (auto simp: send_command_def begin_state_def)
qed

text \<open>
  C16. What a posting refuses, when no statement fails: an amount that is not positive, an account paid
  to itself, an unknown account, a frozen or closed sender, a closed recipient, and a user whose balance is
  smaller than the amount; each with the code's error, and nothing is written.
\<close>

theorem posting_refuses:
  assumes "faults env = (\<lambda>_. None)" and "\<not> aborted s"
  shows "(pc_amount c \<le> 0 \<longrightarrow> fst (post_double_entry c env s) = Inl (validation ''Transfer amount must be greater than zero'' [])) \<and>
    (0 < pc_amount c \<and> pc_from c = pc_to c \<longrightarrow> fst (post_double_entry c env s) = Inl self_transfer) \<and>
    (0 < pc_amount c \<and> pc_from c \<noteq> pc_to c \<and>
       (account_by_id (pc_from c) (data s) = None \<or> account_by_id (pc_to c) (data s) = None) \<longrightarrow>
       fst (post_double_entry c env s) = Inl (not_found ''Account'')) \<and>
    (\<forall>a b. 0 < pc_amount c \<and> pc_from c \<noteq> pc_to c \<and>
       account_by_id (pc_from c) (data s) = Some a \<and> account_by_id (pc_to c) (data s) = Some b \<longrightarrow>
       (a_status a = A_FROZEN \<longrightarrow> fst (post_double_entry c env s) = Inl (account_frozen ''Sender account is frozen'')) \<and>
       (a_status a = A_CLOSED \<longrightarrow> fst (post_double_entry c env s) = Inl (account_frozen ''Sender account is closed'')) \<and>
       (a_status a = A_ACTIVE \<and> a_status b = A_CLOSED \<longrightarrow>
         fst (post_double_entry c env s) = Inl (account_frozen ''Recipient account is closed'')) \<and>
       (a_status a = A_ACTIVE \<and> a_status b \<noteq> A_CLOSED \<and> a_type a \<noteq> SYSTEM \<and> a_balance_minor a < pc_amount c \<longrightarrow>
         fst (post_double_entry c env s) = Inl (insufficient_funds (a_balance_minor a) (pc_amount c))))"
proof -
  note eval = post_double_entry_def lock_account_pair_def lock_account_def eval_simps Let_def
  show ?thesis
  proof (cases "account_by_id (pc_from c) (data s)")
    case None
    with assms show ?thesis
      by (cases "account_by_id (pc_to c) (data s)"; cases "pc_from c < pc_to c"; simp add: eval)
  next
    case (Some a)
    with assms show ?thesis
      by (cases "account_by_id (pc_to c) (data s)"; cases "pc_from c < pc_to c"; simp add: eval)
  qed
qed

lemma posting_refuses_witness:
  "fst (post_double_entry (send_command (send0\<lparr>ti_amount := 99999999\<rparr>) 31 32 99) env0 (begin_state db0)) =
     Inl (insufficient_funds 10000000 99999999)"
  using posting_refuses [of env0 "begin_state db0" "send_command (send0\<lparr>ti_amount := 99999999\<rparr>) 31 32 99"]
  by (simp add: send_command_def account_by_id_def begin_state_def)

section \<open>The endpoints that move money\<close>

text \<open>What the account of a paying user was when a movement from it was posted.\<close>

lemma paying_account:
  assumes ok: "ledger_ok d" and a: "find_account_by_user_id u d = Some a" and d: "accounts_t e = accounts_t d"
    and p: "\<exists>q. account_by_id (a_id a) e = Some q \<and> a_status q = A_ACTIVE \<and> (a_type q = SYSTEM \<or> x \<le> a_balance_minor q)"
  shows "a_status a = A_ACTIVE \<and> x \<le> a_balance_minor a"
proof -
  have "account_by_id (a_id a) e = Some a" and t: "a_type a = USER"
    using account_of_user [OF ok a] d by (simp_all add: account_by_id_def)
  with p show ?thesis by auto
qed

text \<open>The first run of an endpoint: its work ran on the database with the claimed key.\<close>

definition claimed_on :: "db \<Rightarrow> db \<Rightarrow> bool" where
  "claimed_on d e \<longleftrightarrow> (\<exists>xs n. e = d\<lparr>idem_t := xs, next_uuid := n\<rparr>)"

lemma claimed_on_reads:
  assumes "claimed_on d e"
  shows "accounts_t e = accounts_t d" "transfers_t e = transfers_t d" "users_t e = users_t d" "requests_t e = requests_t d"
    "find_account_by_user_id u e = find_account_by_user_id u d" "payee_rows ph e = payee_rows ph d"
    "spent_since t i e = spent_since t i d" "referenced ref e = referenced ref d" "account_user i e = account_user i d"
    "balance_of i e = balance_of i d"
  using assms
  by (auto simp: claimed_on_def find_account_by_user_id_def payee_rows_def spent_since_def referenced_def joined_accounts_def account_user_def
      account_by_id_def balance_of_def)

text \<open>
  C11. A send that returns either replays an earlier response and changes nothing, or has moved exactly
  the amount from the sender's active account, which covered it, to the account registered under the
  payee's phone, an active user other than the sender, within the daily limit and the velocity limit,
  and appended one completed transfer of that amount.
\<close>

theorem send_moves_money:
  assumes "reachable d" and "transact (send_money_tx u key input raw ctx) envs d = (Inr (r, hs), d')"
  shows "if out_replayed r then d' = d else
    (\<exists>i sa pa t. find_account_by_user_id u d = Some sa \<and> a_status sa = A_ACTIVE \<and> ti_amount input \<le> a_balance_minor sa \<and>
       first_row (payee_rows (ti_to_phone input) d) = Some pa \<and> pa_user_status pa = U_ACTIVE \<and> pa_user_id pa \<noteq> u \<and>
       spent_since (now (envs i) - 24 * 3600 * 1000000) (a_id sa) d + ti_amount input \<le> DAILY_TRANSFER_LIMIT_MINOR (cfg (envs i)) \<and>
       int (length (filter (counted_transfer (envs i) (a_id sa)) (transfers_t d))) < maxTransfers (policy (envs i)) \<and>
       moved (a_id sa) (pa_account_id pa) (ti_amount input) d d' \<and>
       transfers_t d' = transfers_t d @ [t] \<and> t_type t = P2P \<and> t_amount_minor t = ti_amount input \<and>
       t_from_account_id t = a_id sa \<and> t_to_account_id t = pa_account_id pa \<and> t_status t = T_COMPLETED)"
proof -
  have e: "endpoint u key (send_money_tx u key input raw ctx)" by (rule endpoint.intros)
  have keys: "keys_ok d" and books: "ledger_ok d" using keys.always books.always assms(1) by blast+
  obtain i s where run: "send_money_tx u key input raw ctx (envs i) (begin_state d) = (Inr r, s)" "data s = d'"
    by (rule committed [OF endpoint_keeps [OF e, where K = "{}"] _ assms(2)]) (use keys in simp_all)
  from run(1) show ?thesis
  proof (cases rule: send.cases)
    case (replayed k)
    with run(2) show ?thesis by simp
  next
    case (executed j s1 s2)
    have c: "claimed_on d (data s1)" unfolding executed(3) claimed_on_def by auto
    note R = claimed_on_reads [OF c]
    from executed(8) show ?thesis
    proof (rule send_money_work_Inr)
      fix sa payee s3 posted s4
      assume a: "find_account_by_user_id u (data s1) = Some sa"
        "int (length (filter (counted_transfer (envs i) (a_id sa)) (transfers_t (data s1)))) < maxTransfers (policy (envs i))"
        "first_row (payee_rows (ti_to_phone input) (data s1)) = Some payee"
        "pa_user_status payee = U_ACTIVE" "pa_user_id payee \<noteq> u"
        "spent_since (now (envs i) - 24 * 3600 * 1000000) (a_id sa) (data s1) + ti_amount input
           \<le> DAILY_TRANSFER_LIMIT_MINOR (cfg (envs i))"
        and p: "post_double_entry (send_command input (a_id sa) (pa_account_id payee) j) (envs i) s3 = (Inr posted, s4)"
        and d3: "data s3 = data s1" and A: "accounts_t (data s2) = accounts_t (data s4)"
        and T: "transfers_t (data s2) = transfers_t (data s4)"
      note P = post_moves [OF p, unfolded d3]
      have d': "accounts_t d' = accounts_t (data s4)" "transfers_t d' = transfers_t (data s4)"
        using A T executed(11) run(2) by simp_all
      have pay: "a_status sa = A_ACTIVE \<and> ti_amount input \<le> a_balance_minor sa"
        by (rule paying_account [OF books a(1) [unfolded R] R(1)]) (use P(8) in \<open>simp add: send_command_def\<close>)
      have m: "moved (a_id sa) (pa_account_id payee) (ti_amount input) d d'"
        using P(1) unfolding moved_def R balance_of_eq [OF d'(1)] by (simp add: send_command_def)
      obtain t where t: "transfers_t d' = transfers_t d @ [t]"
          "t = movement_row (send_command input (a_id sa) (pa_account_id payee) j) (p_reference posted) (p_id posted) (now (envs i))"
        using P(6) d'(2) R(2) by auto
      show ?thesis
        using a [unfolded R] pay m t executed(9)
        by (auto intro!: exI [of _ i] exI [of _ t] simp: send_command_def)
    qed
  qed
qed

lemma send_moves_money_witness:
  "\<exists>d r hs d'. reachable d \<and> transact (send_money_tx 9 ''key-00003'' send1 JNull ctx0) (\<lambda>_. env2) d = (Inr (r, hs), d') \<and>
     moved 10 15 2500 d d'"
proof -
  obtain d where d: "reachable d" "started d" using started_world by blast
  obtain r hs d' where t: "transact (send_money_tx 9 ''key-00003'' send1 JNull ctx0) (\<lambda>_. env2) d = (Inr (r, hs), d')" "sent d d'"
    using runs_transact [OF alice_sends [OF d(2)]] by blast
  then have "transfers_t d' \<noteq> transfers_t d" by (simp add: sent_def)
  then have "\<exists>x. transfers_t d' = transfers_t d @ [x] \<and> moved (t_from_account_id x) (t_to_account_id x) 2500 d d'"
    using send_moves_money [OF d(1) t(1)] by (auto split: if_splits simp: send1_def)
  with t d(1) show ?thesis by (auto simp: sent_def sent_row_def)
qed

text \<open>
  C13. A reversal that returns either replays an earlier response and changes nothing, or has undone a
  completed transfer of the caller, neither a mint nor a reversal, within the window: exactly its
  amount moved back from the recipient's account, the original is marked REVERSED and nothing else
  about the old transfers changed, and the reversal names it.
\<close>

theorem reverse_undoes:
  assumes "reachable d" and "transact (reverse_tx u ref key raw ctx) envs d = (Inr (r, hs), d')"
  shows "if out_replayed r then d' = d else
    (\<exists>i t q created. referenced ref d = Some t \<and> account_user (t_from_account_id t) d = Some u \<and>
       t_type t \<noteq> MINT \<and> t_type t \<noteq> REVERSAL \<and> t_status t = T_COMPLETED \<and>
       to_date (pg_text (t_created_at t)) = Inr created \<and>
       date_now (envs i) - created \<le> REVERSAL_WINDOW_SECONDS (cfg (envs i)) * 1000 \<and>
       moved (t_to_account_id t) (t_from_account_id t) (t_amount_minor t) d d' \<and>
       transfers_t d' = upd_where (\<lambda>x. t_id x = t_id t) reversed (transfers_t d) @ [q] \<and>
       t_type q = REVERSAL \<and> t_amount_minor q = t_amount_minor t \<and> t_reversal_of q = Some (t_id t) \<and>
       t_from_account_id q = t_to_account_id t \<and> t_to_account_id q = t_from_account_id t)"
proof -
  have e: "endpoint u key (reverse_tx u ref key raw ctx)" by (rule endpoint.intros)
  have keys: "keys_ok d" and books: "ledger_ok d" using keys.always books.always assms(1) by blast+
  obtain i s where run: "reverse_tx u ref key raw ctx (envs i) (begin_state d) = (Inr r, s)" "data s = d'"
    by (rule committed [OF endpoint_keeps [OF e, where K = "{}"] _ assms(2)]) (use keys in simp_all)
  from run(1) show ?thesis
  proof (cases rule: reverse.cases)
    case (replayed k)
    with run(2) show ?thesis by simp
  next
    case (executed j s1 s2)
    have c: "claimed_on d (data s1)" unfolding executed(3) claimed_on_def by auto
    note R = claimed_on_reads [OF c]
    from executed(8) show ?thesis
    proof (rule reverse_work_Inr)
      fix t :: transfer_row and orig comp s3 s4 created
      let ?P = "\<lambda>q. t_id q = t_id t \<and> Some (t_created_at q) = pg_parse (pg_text (t_created_at t)) \<and> t_status q = T_COMPLETED"
      assume a: "referenced ref (data s1) = Some t" "account_user (t_from_account_id t) (data s1) = Some u"
        "t_type t \<noteq> MINT" "t_type t \<noteq> REVERSAL" "t_status t = T_COMPLETED" "to_date (pg_text (t_created_at t)) = Inr created"
        "date_now (envs i) - created \<le> REVERSAL_WINDOW_SECONDS (cfg (envs i)) * 1000"
        and o: "or_id orig = t_id t" "or_from orig = t_from_account_id t" "or_to orig = t_to_account_id t"
          "or_amount orig = t_amount_minor t"
        and d3: "data s3 = (data s1)\<lparr>transfers_t := upd_where ?P reversed (transfers_t (data s1))\<rparr>"
        and one: "count_where ?P (transfers_t (data s1)) = 1"
        and p: "post_double_entry (reversal_command orig j) (envs i) s3 = (Inr comp, s4)"
        and A: "accounts_t (data s2) = accounts_t (data s4)" and T: "transfers_t (data s2) = transfers_t (data s4)"
      note P = post_moves [OF p]
      have d': "accounts_t d' = accounts_t (data s4)" "transfers_t d' = transfers_t (data s4)"
        using A T executed(11) run(2) by simp_all
      have b: "balance_of k (data s3) = balance_of k d" for k
        unfolding R(10) [symmetric] by (rule balance_of_eq) (simp add: d3)
      have m: "moved (t_to_account_id t) (t_from_account_id t) (t_amount_minor t) d d'"
        using P(1) unfolding moved_def b balance_of_eq [OF d'(1)] by (simp add: reversal_command_def o)
      have k: "keyed t_id (transfers_t d)" using books by (simp add: ledger_ok_def transfers_ok_def)
      have "upd_where ?P reversed (transfers_t d) = upd_where (\<lambda>x. t_id x = t_id t) reversed (transfers_t d)"
        by (rule upd_where_one [OF k]) (use one R(2) in simp_all)
      then obtain q where q: "transfers_t d' = upd_where (\<lambda>x. t_id x = t_id t) reversed (transfers_t d) @ [q]"
          "q = movement_row (reversal_command orig j) (p_reference comp) (p_id comp) (now (envs i))"
        using P(6) d'(2) d3 R(2) by auto
      show ?thesis
        using a [unfolded R] m q executed(9) o
        by (auto intro!: exI [of _ i] exI [of _ t] exI [of _ q] simp: reversal_command_def)
    qed
  qed
qed

lemma reverse_undoes_witness:
  "\<exists>d r hs d'. reachable d \<and>
     transact (reverse_tx 9 ''TF2601011C60T3GF'' ''key-00004'' JNull ctx0) (\<lambda>_. env3) d = (Inr (r, hs), d') \<and>
     (\<exists>q. q \<in> set (transfers_t d') \<and> t_type q = REVERSAL)"
proof -
  obtain d0 d where d: "reachable d" "sent d0 d" using sent_world by blast
  let ?fn = "reverse_tx 9 ''TF2601011C60T3GF'' ''key-00004'' JNull ctx0"
  obtain r hs d' where t: "transact ?fn (\<lambda>_. env3) d = (Inr (r, hs), d')"
      "map a_balance_minor (accounts_t d') = [0, 0, 0, - 20000000, 0, 0, 0, 0, 10000000, 10000000]"
    using runs_transact [OF alice_reverses [OF d(2)]] by (elim exE conjE) (rule that)
  have "map a_balance_minor (accounts_t d) \<noteq> map a_balance_minor (accounts_t d')"
    using d(2) unfolding t(2) by (simp add: sent_def new_account_row_def bump_def treasury_row_def)
  then have "\<exists>q\<in>set (transfers_t d'). t_type q = REVERSAL"
    using reverse_undoes [OF d(1) t(1)] by (auto split: if_splits)
  with d(1) t(1) show ?thesis by blast
qed

text \<open>
  C12. An accepted request moves exactly its amount: a call to accept that returns either replays an
  earlier response and changes nothing, or the request was pending, unexpired and the caller's to pay,
  its amount went from the payer's active account, which covered it within the daily limit, to the
  requester's, and the request is accepted with the transfer that was appended.
\<close>

theorem accept_settles:
  assumes "reachable d" and "transact (accept_tx u req key raw ctx) envs d = (Inr (r, hs), d')"
  shows "if out_replayed r then d' = d else
    (\<exists>i q pa ra t. q \<in> set (requests_t d) \<and> r_id q = req \<and> r_payer_user_id q = u \<and> r_status q = R_PENDING \<and>
       now (envs i) < r_expires_at q \<and> find_account_by_user_id u d = Some pa \<and>
       find_account_by_user_id (r_requester_user_id q) d = Some ra \<and>
       a_status pa = A_ACTIVE \<and> r_amount_minor q \<le> a_balance_minor pa \<and>
       spent_since (now (envs i) - 24 * 3600 * 1000000) (a_id pa) d + r_amount_minor q \<le> DAILY_TRANSFER_LIMIT_MINOR (cfg (envs i)) \<and>
       moved (a_id pa) (a_id ra) (r_amount_minor q) d d' \<and>
       transfers_t d' = transfers_t d @ [t] \<and> t_type t = REQUEST_SETTLEMENT \<and> t_amount_minor t = r_amount_minor q \<and>
       accepted_row (t_id t) q \<in> set (requests_t d'))"
proof -
  have e: "endpoint u key (accept_tx u req key raw ctx)" by (rule endpoint.intros)
  have keys: "keys_ok d" and books: "ledger_ok d" using keys.always books.always assms(1) by blast+
  obtain i s where run: "accept_tx u req key raw ctx (envs i) (begin_state d) = (Inr r, s)" "data s = d'"
    by (rule committed [OF endpoint_keeps [OF e, where K = "{}"] _ assms(2)]) (use keys in simp_all)
  from run(1) show ?thesis
  proof (cases rule: accept.cases)
    case (replayed k)
    with run(2) show ?thesis by simp
  next
    case (executed j s1 s2)
    have c: "claimed_on d (data s1)" unfolding executed(3) claimed_on_def by auto
    note R = claimed_on_reads [OF c]
    from executed(8) show ?thesis
    proof (rule accept_work_Inr)
      fix q :: request_row and pa ra posted s3 s4
      assume a: "q \<in> set (requests_t (data s1))" "r_id q = req" "r_payer_user_id q = u" "r_status q = R_PENDING"
        "now (envs i) < r_expires_at q" "find_account_by_user_id u (data s1) = Some pa"
        "find_account_by_user_id (r_requester_user_id q) (data s1) = Some ra"
        "spent_since (now (envs i) - 24 * 3600 * 1000000) (a_id pa) (data s1) + r_amount_minor q
           \<le> DAILY_TRANSFER_LIMIT_MINOR (cfg (envs i))"
        and p: "post_double_entry (settle_command q (a_id pa) (a_id ra) j) (envs i) s3 = (Inr posted, s4)"
        and d3: "data s3 = data s1"
        and l: "logged ((data s4)\<lparr>requests_t := upd_where (\<lambda>x. r_id x = r_id q \<and> r_status x = R_PENDING)
           (accepted_row (p_id posted)) (requests_t (data s4))\<rparr>) (data s2)"
      note P = post_moves [OF p, unfolded d3]
      have d': "accounts_t d' = accounts_t (data s4)" "transfers_t d' = transfers_t (data s4)"
        "requests_t d' = upd_where (\<lambda>x. r_id x = r_id q \<and> r_status x = R_PENDING) (accepted_row (p_id posted)) (requests_t (data s4))"
        using l executed(11) run(2) by (simp_all add: logged_def)
      have rq: "requests_t (data s4) = requests_t d" using post_requests [OF p] d3 R(4) by simp
      have pay: "a_status pa = A_ACTIVE \<and> r_amount_minor q \<le> a_balance_minor pa"
        by (rule paying_account [OF books a(6) [unfolded R] R(1)]) (use P(8) in \<open>simp add: settle_command_def\<close>)
      have m: "moved (a_id pa) (a_id ra) (r_amount_minor q) d d'"
        using P(1) unfolding moved_def R balance_of_eq [OF d'(1)] by (simp add: settle_command_def)
      obtain t where t: "transfers_t d' = transfers_t d @ [t]"
          "t = movement_row (settle_command q (a_id pa) (a_id ra) j) (p_reference posted) (p_id posted) (now (envs i))"
        using P(6) d'(2) R(2) by auto
      have "accepted_row (t_id t) q \<in> set (requests_t d')"
        using a(1,4) t(2) unfolding d'(3) rq R by (auto simp: set_upd_where)
      with a [unfolded R] pay m t executed(9) show ?thesis
        by (auto intro!: exI [of _ i] exI [of _ q] exI [of _ t] simp: settle_command_def)
    qed
  qed
qed

lemma accept_settles_witness:
  "\<exists>d r hs d'. reachable d \<and> transact (accept_tx 9 20 ''key-00002'' JNull ctx0) (\<lambda>_. env2) d = (Inr (r, hs), d') \<and>
     (\<exists>t. transfers_t d' = transfers_t d @ [t] \<and> t_type t = REQUEST_SETTLEMENT)"
proof -
  obtain d0 d where d: "reachable d" "asked d0 d" using asked_world by blast
  let ?fn = "accept_tx 9 20 ''key-00002'' JNull ctx0"
  obtain r hs d' where t: "transact ?fn (\<lambda>_. env2) d = (Inr (r, hs), d')" "map r_status (requests_t d') = [R_ACCEPTED]"
    using runs_transact [OF alice_accepts [OF d(2)]] by (elim exE conjE) (rule that)
  have "map r_status (requests_t d) \<noteq> map r_status (requests_t d')"
    using d(2) unfolding t(2) by (simp add: asked_def new_request_row_def)
  then have "\<exists>q. transfers_t d' = transfers_t d @ [q] \<and> t_type q = REQUEST_SETTLEMENT"
    using accept_settles [OF d(1) t(1)] by (auto split: if_splits)
  with d(1) t(1) show ?thesis by blast
qed

end
