(* ===== verification/Progress.thy ===== *)
theory Progress
  imports Money_Safety
begin

text \<open>
  Standing orders move on: the next run of a repeating schedule lies later on the calendar, and a
  worker that ran a due schedule leaves it not due for the same run.
\<close>

section \<open>The next run\<close>

lemma next_month_days:
  assumes c: "civil n = (y, m, k)" and y': "y' = y + (m + 1) div 12" and m': "m' = (m + 1) mod 12"
    and k': "k' = min k (month_len (leap y') m')"
  shows "n + 1 \<le> make_day y' m' k'" and "make_day y' m' k' \<le> n + 31" and "civil (make_day y' m' k') = (y', m', k')"
proof -
  note r = civil_range [OF c] and n = make_day_civil [OF c]
  have m12: "0 \<le> m'" "m' < 12" using m' by simp_all
  have len: "28 \<le> month_len (leap y) m" "month_len (leap y) m \<le> 31" "28 \<le> month_len (leap y') m'"
    using r m12 month_len_bounds by auto
  have k1: "1 \<le> k'" "k' \<le> month_len (leap y') m'" "k' \<le> k" using k' r len by auto
  have first: "make_day y' m' 1 = make_day y m 1 + month_len (leap y) m"
  proof (cases "m = 11")
    case True
    have "days_before_month (leap y) 12 = 365 + (if leap y then 1 else 0)" by (simp add: days_before_month_def)
    moreover have "day_from_year (y + 1) = day_from_year y + 365 + (if leap y then 1 else 0)"
      by (simp add: day_from_year_Suc year_len_def)
    ultimately show ?thesis
      using True y' m' by (simp add: make_day_def month_len_def Let_def days_before_month_def [of _ 0])
  next
    case False
    then have "y' = y" "m' = m + 1" using r y' m' by (simp_all add: div_pos_pos_trivial mod_pos_pos_trivial)
    then show ?thesis using r False by (simp add: make_day_def month_len_def Let_def div_pos_pos_trivial mod_pos_pos_trivial)
  qed
  have day: "make_day Y M K = make_day Y M 1 + (K - 1)" for Y M K by (simp add: make_day_def Let_def)
  have diff: "make_day y' m' k' = n + month_len (leap y) m + k' - k"
    using n day [of y m k] day [of y' m' k'] first by simp
  show "make_day y' m' k' \<le> n + 31" using diff k1(3) len(2) by simp
  show "n + 1 \<le> make_day y' m' k'"
  proof (cases "k \<le> month_len (leap y') m'")
    case True
    then show ?thesis using diff k' len(1) by simp
  next
    case False
    then have "k' = month_len (leap y') m'" using k' by simp
    then show ?thesis using diff r len(3) by simp
  qed
  show "civil (make_day y' m' k') = (y', m', k')" by (rule civil_make_day [OF m12 k1(1,2)])
qed

lemma step_bounds:
  assumes "kind \<noteq> ONCE"
  shows "t + micros_per_day \<le> add_step kind t \<and> add_step kind t \<le> t + 31 * micros_per_day \<and>
    add_step kind t mod micros_per_day = t mod micros_per_day \<and>
    (kind = MONTHLY \<longrightarrow> (case (civil (t div micros_per_day), civil (add_step kind t div micros_per_day)) of ((y, m, k), (y', m', k')) \<Rightarrow>
       y' = y + (m + 1) div 12 \<and> m' = (m + 1) mod 12 \<and> k' = min k (month_len (leap y') m')))"
proof (cases "kind = MONTHLY")
  case False
  have "0 < micros_per_day" by (simp add: micros_per_day_def)
  with False assms show ?thesis by (cases kind) simp_all
next
  case True
  obtain y m k where c: "civil (t div micros_per_day) = (y, m, k)" by (cases "civil (t div micros_per_day)") auto
  define y' where "y' = y + (m + 1) div 12"
  define m' where "m' = (m + 1) mod 12"
  define k' where "k' = min k (month_len (leap y') m')"
  note d = next_month_days [OF c y'_def m'_def k'_def]
  have a: "add_step kind t = make_day y' m' k' * micros_per_day + t mod micros_per_day"
    by (simp add: True add_month_def c Let_def y'_def m'_def k'_def)
  define D where "D = make_day y' m' k'"
  define Q where "Q = t div micros_per_day"
  define R where "R = t mod micros_per_day"
  have p: "0 < micros_per_day" by (simp add: micros_per_day_def)
  have t: "t = Q * micros_per_day + R" unfolding Q_def R_def by simp
  have r: "0 \<le> R" "R < micros_per_day" unfolding R_def using p by simp_all
  have lo: "Q * micros_per_day + micros_per_day \<le> D * micros_per_day"
    using mult_right_mono [of "Q + 1" D micros_per_day] d(1) p unfolding D_def Q_def by (simp add: distrib_right)
  have hi: "D * micros_per_day \<le> Q * micros_per_day + 31 * micros_per_day"
    using mult_right_mono [of D "Q + 31" micros_per_day] d(2) p unfolding D_def Q_def by (simp add: distrib_right)
  have s: "add_step kind t = D * micros_per_day + R" unfolding a D_def R_def ..
  have day: "add_step kind t div micros_per_day = D" unfolding s using r p by simp
  have time: "add_step kind t mod micros_per_day = R" unfolding s using r p by simp
  have "t + micros_per_day \<le> add_step kind t" "add_step kind t \<le> t + 31 * micros_per_day"
    unfolding s using t lo hi by linarith+
  moreover have civ: "civil (add_step kind t div micros_per_day) = (y', m', k')" using d(3) unfolding day D_def .
  ultimately show ?thesis using time unfolding c civ by (simp add: R_def y'_def m'_def k'_def)
qed

text \<open>One interval after an instant, on the calendar.\<close>

definition follows :: "schedule_interval \<Rightarrow> micros \<Rightarrow> micros \<Rightarrow> bool" where
  "follows kind t t' \<longleftrightarrow>
     (case kind of
        DAILY \<Rightarrow> t' = t + 24 * 3600 * 1000000
      | WEEKLY \<Rightarrow> t' = t + 7 * 24 * 3600 * 1000000
      | MONTHLY \<Rightarrow> t' mod micros_per_day = t mod micros_per_day \<and>
          (case (civil (t div micros_per_day), civil (t' div micros_per_day)) of ((y, m, k), (y', m', k')) \<Rightarrow>
             y' = y + (m + 1) div 12 \<and> m' = (m + 1) mod 12 \<and> k' = min k (month_len (leap y') m'))
      | ONCE \<Rightarrow> False)"

lemma step_follows: "kind \<noteq> ONCE \<Longrightarrow> follows kind t (add_step kind t)"
  using step_bounds [of kind t] by (cases kind) (auto simp: follows_def micros_per_day_def)

section \<open>A run\<close>

text \<open>The row is past the run it had: no longer active, at a later instant, or waiting for a retry.\<close>

definition past_run :: "env \<Rightarrow> schedule_row \<Rightarrow> schedule_row \<Rightarrow> bool" where
  "past_run env q q' \<longleftrightarrow> s_status q' \<noteq> S_ACTIVE \<or> s_next_run_at q + micros_per_day \<le> s_next_run_at q' \<or>
     (\<exists>t. s_retry_after q' = Some t \<and> now env < t)"

lemma past_advanced: "past_run env q (advanced env kind b q)"
  using step_bounds [of kind "s_next_run_at q"] by (auto simp: past_run_def advanced_def)

definition postponed :: "env \<Rightarrow> nat \<Rightarrow> schedule_row \<Rightarrow> schedule_row" where
  "postponed env n q = q\<lparr>s_retry_after := Some (now env + SCHEDULE_RETRY_BASE_SECONDS (cfg env) * 2 ^ n * 1000000)\<rparr>"

lemma past_postponed: "0 < SCHEDULE_RETRY_BASE_SECONDS (cfg env) \<Longrightarrow> past_run env q (postponed env n q)"
  by (simp add: past_run_def postponed_def)

text \<open>What a run that claimed its schedule does to the schedules.\<close>

lemma run_updates:
  assumes run: "run_schedule_tx i env s = (Inr y, s')" and "y \<noteq> Not_Claimed"
  obtains (over) r where "y \<noteq> Deferred" "r \<in> set (schedules_t (data s))" "s_id r = i" "is_due env r"
      "schedules_t (data s') = upd_where (\<lambda>q. s_id q = i) (advanced env (s_interval_kind r) (y = Paid)) (schedules_t (data s))"
    | (later) r n where "y = Deferred" "r \<in> set (schedules_t (data s))" "s_id r = i" "is_due env r"
      "schedules_t (data s') = upd_where (\<lambda>q. s_id q = i) (postponed env n) (schedules_t (data s))"
  using run
proof (cases rule: run_schedule_Inr)
  case idle
  with assms(2) show ?thesis by simp
next
  case (duplicate r x)
  then show ?thesis by (intro over) auto
next
  case (worked r raw oc d1 s1)
  have d1: "schedules_t (data s1) = schedules_t (data s)" using worked(4,5) by (auto simp: claimed_as_def)
  from worked(7) show ?thesis
  proof (cases rule: run_worked_Inr)
    case (ended st m)
    with worked d1 show ?thesis by (intro over) (auto simp: logged_def ended_def)
  next
    case (deferred n)
    with worked d1 show ?thesis by (intro later) (auto simp: deferred_def postponed_def [abs_def])
  next
    case (paid fa ta p sa s2)
    have "schedules_t (data s2) = schedules_t (data s)"
      using paid(8) paid(6) d1 by (auto elim!: post_double_entry_Inr simp: movement_applied_def)
    with paid(1,9) worked show ?thesis by (intro over) (auto simp: logged_def ended_def)
  qed
qed

lemma run_past:
  assumes "run_schedule_tx i env s = (Inr y, s')" and "y \<noteq> Not_Claimed" and "0 < SCHEDULE_RETRY_BASE_SECONDS (cfg env)"
  shows "\<exists>f. schedules_t (data s') = upd_where (\<lambda>q. s_id q = i) f (schedules_t (data s)) \<and> (\<forall>q. past_run env q (f q))"
  using past_advanced past_postponed [OF assms(3)] by (rule_tac run_updates [OF assms(1,2)]) blast+

lemma run_committed:
  assumes "transact (run_schedule_tx i) envs d = (Inr (y, hs), d')"
  obtains n s where "run_schedule_tx i (envs n) (begin_state d) = (Inr y, s)" "data s = d'"
proof -
  have k: "keeps (\<lambda>_. True) (run_schedule_tx i)"
    by (rule keeps_run_schedule) (simp_all add: keeps_post keeps_enqueue_event keeps_occurrence_writes)
  show thesis by (rule committed [OF k TrueI assms]) (rule that)
qed

text \<open>
  C18. A run of a due schedule makes progress: unless it claimed nothing, the run it was due for is over,
  for every outcome: the schedule is no longer active, its next run is at least a day later, or it waits
  for a retry in the future. So the worker's loop does not meet it again at the same instant.
\<close>

theorem run_makes_progress:
  assumes "transact (run_schedule_tx i) envs d = (Inr (y, hs), d')" and "y \<noteq> Not_Claimed"
    and "\<forall>n. 0 < SCHEDULE_RETRY_BASE_SECONDS (cfg (envs n))"
  shows "\<exists>n f. schedules_t d' = upd_where (\<lambda>q. s_id q = i) f (schedules_t d) \<and>
    (\<forall>q. past_run (envs n) q (f q) \<and> (s_next_run_at q \<le> now (envs n) \<and> s_next_run_at (f q) = s_next_run_at q \<longrightarrow> \<not> is_due (envs n) (f q)))"
proof -
  obtain n s where run: "run_schedule_tx i (envs n) (begin_state d) = (Inr y, s)" "data s = d'"
    by (rule run_committed [OF assms(1)])
  from run_past [OF run(1) assms(2)] assms(3) obtain f where
    f: "schedules_t d' = upd_where (\<lambda>q. s_id q = i) f (schedules_t d)" "\<forall>q. past_run (envs n) q (f q)"
    unfolding run(2) by auto
  have "\<not> is_due (envs n) (f q)" if "s_next_run_at (f q) = s_next_run_at q" for q
    using f(2) [rule_format, of q] that by (auto simp: past_run_def is_due_def micros_per_day_def)
  with f show ?thesis by blast
qed

section \<open>The next date\<close>

text \<open>What is left of an order that had \<open>n\<close> runs left, and whether it is still active.\<close>

definition runs_left :: "bool \<Rightarrow> int option \<Rightarrow> int option \<times> schedule_status" where
  "runs_left paid left =
     (case left of
        None \<Rightarrow> (None, S_ACTIVE)
      | Some n \<Rightarrow> (let m = (if paid then n - 1 else n) in (Some (if paid then max m 0 else m), if m \<le> 0 then S_COMPLETED else S_ACTIVE)))"

definition redated :: "run_outcome \<Rightarrow> schedule_row \<Rightarrow> schedule_row \<Rightarrow> bool" where
  "redated y r r' \<longleftrightarrow>
     (if y = Deferred then r' = r\<lparr>s_retry_after := s_retry_after r'\<rparr>
      else if s_interval_kind r = ONCE then s_status r' = S_COMPLETED \<and> s_next_run_at r' = s_next_run_at r \<and> s_remaining_runs r' = Some 0
      else follows (s_interval_kind r) (s_next_run_at r) (s_next_run_at r') \<and> s_retry_after r' = None \<and>
        (s_remaining_runs r', s_status r') = runs_left (y = Paid) (s_remaining_runs r))"

text \<open>
  C19. A run that ends what a schedule was due for sets its next date: exactly a day or a week after the
  date it was due, or at the same time of day in the next calendar month, on the same day of the month or
  on the last day of a shorter month. A payment uses up one of the runs left and completes the order at
  the last; a run that paid nothing uses up none; a one-off order is over. A deferred run keeps the date.
  No other schedule changes.
\<close>

theorem run_sets_next_date:
  assumes "transact (run_schedule_tx i) envs d = (Inr (y, hs), d')" and "y \<noteq> Not_Claimed"
  shows "\<exists>n r f. r \<in> set (schedules_t d) \<and> s_id r = i \<and> is_due (envs n) r \<and>
    schedules_t d' = upd_where (\<lambda>q. s_id q = i) f (schedules_t d) \<and> redated y r (f r)"
proof -
  obtain n s where run: "run_schedule_tx i (envs n) (begin_state d) = (Inr y, s)" "data s = d'"
    by (rule run_committed [OF assms(1)])
  from run(1) assms(2) show ?thesis
  proof (cases rule: run_updates)
    case (over r)
    moreover have "redated y r (advanced (envs n) (s_interval_kind r) (y = Paid) r)"
      using over(1,4) step_follows
      by (auto simp: redated_def advanced_def is_due_def runs_left_def Let_def split: option.split)
    ultimately show ?thesis using run(2) by auto
  next
    case (later r k)
    moreover have "redated y r (postponed (envs n) k r)" using later(1) by (simp add: redated_def postponed_def)
    ultimately show ?thesis using run(2) by auto
  qed
qed

section \<open>A payment\<close>

text \<open>
  C14. A run moves money exactly when its outcome is Paid. Then the schedule was due, its owner's account
  was active, covered the amount and stayed within the daily limit, one transfer of the amount from the
  owner's account to the payee's was appended, and the occurrence that was claimed is PAID by it.
  Otherwise no balance and no transfer changed.
\<close>

theorem run_pays_as_ordered:
  assumes "ledger_ok d" and "occurrences_ok d" and "transact (run_schedule_tx i) envs d = (Inr (y, hs), d')"
  shows "if y = Paid then \<exists>n. moved_as_ordered (envs n) i d d'
    else transfers_t d' = transfers_t d \<and> accounts_t d' = accounts_t d"
proof -
  obtain n s where run: "run_schedule_tx i (envs n) (begin_state d) = (Inr y, s)" "data s = d'"
    by (rule run_committed [OF assms(3)])
  from run_schedule_safe [OF run(1)] assms(1,2) show ?thesis unfolding run(2) by (auto split: if_splits)
qed

text \<open>A daily order of Alice's to Bob, due now.\<close>

definition order0 :: schedule_row where
  "order0 = \<lparr>s_id = 51, s_owner_user_id = 21, s_payee_user_id = 22, s_amount_minor = 2500, s_note = None,
     s_interval_kind = DAILY, s_next_run_at = 1767225600000000, s_remaining_runs = None, s_status = S_ACTIVE,
     s_last_run_at = None, s_retry_after = None, s_created_at = 1767225600000000\<rparr>"

abbreviation due0 :: db where
  "due0 \<equiv> db0\<lparr>schedules_t := [order0]\<rparr>"

lemma order0_paid: "\<exists>hs d'. transact (run_schedule_tx 51) (\<lambda>_. env0) due0 = (Inr (Paid, hs), d')"
proof -
  have "\<exists>s. run_schedule_tx 51 env0 (begin_state due0) = (Inr Paid, s) \<and> \<not> aborted s"
    by (simp add: run_schedule_tx_def claim_due_schedule_def mapped_def map_schedule_def is_due_def order0_def
        reversal_texts date_of_micros_def eval_simps exec_common exec_ledger claim_occurrence_def occurrence_key_def
        pay_def pay_command_def savepoint_try_def command_def run_paid_def settle_occurrence_def advance_schedule_def)
  then obtain s where s: "run_schedule_tx 51 env0 (begin_state due0) = (Inr Paid, s)" "\<not> aborted s" by blast
  have "transact (run_schedule_tx 51) (\<lambda>_. env0) due0 = (Inr (Paid, hooks s), data s)"
    by (rule transact_reliable [where fn = "run_schedule_tx 51" and envs = "\<lambda>_. env0", OF _ s]) simp
  then show ?thesis by blast
qed

lemma due0_ok: "ledger_ok due0" "occurrences_ok due0"
proof -
  show "ledger_ok due0" by (rule ledger_frame [OF ledger_ok_db0]) (simp add: same_books_def)
  show "occurrences_ok due0"
    by (simp add: occurrences_ok_def occurrences_settled_def settled_rows_def once_def)
qed

lemma run_pays_as_ordered_witness:
  "\<exists>hs d'. transact (run_schedule_tx 51) (\<lambda>_. env0) due0 = (Inr (Paid, hs), d') \<and> moved_as_ordered env0 51 due0 d'"
proof -
  obtain hs d' where t: "transact (run_schedule_tx 51) (\<lambda>_. env0) due0 = (Inr (Paid, hs), d')"
    using order0_paid by blast
  from run_pays_as_ordered [OF due0_ok t] t show ?thesis by auto
qed

lemma run_makes_progress_witness:
  "\<exists>hs d' f. transact (run_schedule_tx 51) (\<lambda>_. env0) due0 = (Inr (Paid, hs), d') \<and>
     schedules_t d' = [f order0] \<and> past_run env0 order0 (f order0)"
proof -
  obtain hs d' where t: "transact (run_schedule_tx 51) (\<lambda>_. env0) due0 = (Inr (Paid, hs), d')"
    using order0_paid by blast
  have "\<forall>n. 0 < SCHEDULE_RETRY_BASE_SECONDS (cfg ((\<lambda>_. env0) n))" for n :: nat by simp
  from run_makes_progress [OF t] this t show ?thesis by (auto simp: order0_def)
qed

lemma run_sets_next_date_witness:
  "\<exists>hs d' f. transact (run_schedule_tx 51) (\<lambda>_. env0) due0 = (Inr (Paid, hs), d') \<and>
     schedules_t d' = [f order0] \<and> s_next_run_at (f order0) = 1767312000000000 \<and> s_status (f order0) = S_ACTIVE"
proof -
  obtain hs d' where t: "transact (run_schedule_tx 51) (\<lambda>_. env0) due0 = (Inr (Paid, hs), d')"
    using order0_paid by blast
  from run_sets_next_date [OF t] t show ?thesis by (auto simp: order0_def redated_def follows_def runs_left_def)
qed

text \<open>
  A schedule due on the 31st of January is next due on the 28th of February, and then stays on the 28th:
  each step starts from the day before it.
\<close>

lemma monthly_day_drifts:
  "add_step MONTHLY 1769817600000000 = 1772236800000000"
  "add_step MONTHLY 1772236800000000 = 1774656000000000"
  by code_simp+

end
