(* ===== verification/Auth_Safety.thy ===== *)
theory Auth_Safety
  imports Progress
begin

text \<open>
  Sessions and PINs: a refresh token buys one session, ever; wrong PINs are counted and lock the PIN;
  a registration creates one funded account.
\<close>

section \<open>Refresh tokens\<close>

text \<open>The token with hash \<open>h\<close> was revoked.\<close>

definition spent :: "string \<Rightarrow> db \<Rightarrow> bool" where
  "spent h d \<longleftrightarrow> (\<exists>row. token_by_hash h d = Some row \<and> rt_revoked_at row \<noteq> None)"

lemma spent_frame: "spent h d \<Longrightarrow> tokens_t d' = tokens_t d \<Longrightarrow> spent h d'"
  by (simp add: spent_def)

lemma spent_kept: "spent h d \<Longrightarrow> tokens_kept (tokens_t d) (tokens_t d') \<Longrightarrow> spent h d'"
  unfolding spent_def tokens_kept_def by blast

lemma spent_deaf: "deaf (spent h)"
  unfolding deaf_def by (intro allI impI) (erule spent_frame, simp)

lemma keeps_spent:
  "keeps (spent h) (enqueue_event e)" "keeps (spent h) (post_double_entry c)"
  "keeps (spent h) (transition i to u reason)" "keeps (spent h) (mark_accepted i t)" "keeps (spent h) (expire_due k)"
  by (rule keeps_enqueue_event, erule spent_frame, simp) (rule keeps_post, erule spent_frame, simp,
    (rule keeps_request_updates, erule spent_frame, simp)+)

interpretation sessions: keyed_transactions "spent h" for h
proof
  show "spent h d \<Longrightarrow> next_uuid d \<le> n \<Longrightarrow> tokens_kept (tokens_t d) ts \<Longrightarrow>
      spent h (d\<lparr>users_t := us, tokens_t := ts, splits_t := ss, audit_t := as, next_uuid := n\<rparr>)" for d n us ts ss as
    by (erule spent_kept) simp
  show "keeps (spent h) (insert_user_account u)" for u
    unfolding insert_user_account_def by (rule keeps_query) (auto split: if_splits elim!: spent_frame)
  show "keeps (spent h) (insert_request u v x nt ex sp)" for u v x nt ex sp
    by (rule keeps_insert_request) (erule spent_frame, simp)
  show "keeps (spent h) (insert_schedule u v x nt kind startAt remaining)" for u v x nt kind startAt remaining
    by (rule keeps_insert_schedule) (erule spent_frame, simp)
  show "keeps (spent h) (run_schedule_tx i)" for i
    by (rule keeps_run_schedule, rule keeps_spent)
      (erule spent_frame, simp, (rule keeps_occurrence_writes; erule spent_frame; simp)+, rule keeps_spent)
  show "keeps (spent h) (reverse_work u ref ctx i)" for u ref ctx i
    by (rule keeps_reverse_work, rule keeps_spent) (erule spent_frame, simp, erule spent_frame, simp, rule keeps_spent)
  show "keeps (spent h) (accept_work u q ctx i)" for u q ctx i
    by (rule keeps_accept_work, rule keeps_spent) (erule spent_frame, simp, (rule keeps_spent)+)
  show "keeps (spent h) (claim_idempotency_key u key ep hh)" for u key ep hh
    by (rule keeps_claim) (erule spent_frame, simp)
  show "keeps (spent h) (complete_idempotency_key i st b)" for i st b
    by (rule keeps_complete) (erule spent_frame, simp)
qed (simp_all add: keeps_spent keeps_dispatch [OF spent_deaf], (erule spent_frame, simp)+)

text \<open>
  C22. A refresh token buys one session, ever: once a call of refresh with a token returned, whatever
  transactions run in between, no later call with a token of the same hash returns.
\<close>

theorem refresh_single_use:
  assumes "refresh tok ctx envs d = (Inr r, d1)" and "steps d1 d2"
    and "\<forall>i j. hash_token (envs' j) tok' = hash_token (envs i) tok"
  shows "\<exists>e. fst (refresh tok' ctx' envs' d2) = Inl e"
proof -
  obtain a hs where r: "r = (a, hs)" by (cases r)
  obtain i s where run: "refresh_tx tok ctx (envs i) (begin_state d) = (Inr (Rotated a), s)" "d1 = data s"
    using assms(1) unfolding r by (rule refresh_Inr_rotated)
  let ?h = "hash_token (envs i) tok"
  have "spent ?h d1" using rotated_spent [OF run(1)] unfolding spent_def run(2) by metis
  then have sp: "spent ?h d2" by (rule sessions.steps_keep [OF assms(2)])
  show ?thesis
  proof (cases "refresh tok' ctx' envs' d2")
    case (Pair x d3)
    show ?thesis
    proof (cases x)
      case (Inl e)
      with Pair show ?thesis by simp
    next
      case (Inr q)
      obtain b hs' where q: "q = (b, hs')" by (cases q)
      obtain j s' where again: "refresh_tx tok' ctx' (envs' j) (begin_state d2) = (Inr (Rotated b), s')"
        using Pair unfolding Inr q by (rule refresh_Inr_rotated)
      have "hash_token (envs' j) tok' = ?h" using assms(3) by blast
      with sp obtain row where "token_by_hash (hash_token (envs' j) tok') (data (begin_state d2)) = Some row"
          "rt_revoked_at row \<noteq> None"
        by (auto simp: spent_def)
      from spent_token_refused [OF this] again show ?thesis by blast
    qed
  qed
qed

text \<open>Alice's session in the small world.\<close>

definition session0 :: token_row where
  "session0 = \<lparr>rt_id = 61, rt_user_id = 21, rt_family_id = 62, rt_token_hash = ''AAAA'', rt_expires_at = 1867225600000000,
     rt_revoked_at = None, rt_replaced_by = None, rt_created_at = 0\<rparr>"

lemma env1_hash: "sha256 env1 s = s"
  by (simp add: env1_def)

lemma session0_refreshes: "\<exists>r d'. refresh ''AAAA'' ctx0 (\<lambda>_. env1) (db0\<lparr>tokens_t := [session0]\<rparr>) = (Inr r, d')"
proof -
  have "\<exists>a s. refresh_tx ''AAAA'' ctx0 env1 (begin_state (db0\<lparr>tokens_t := [session0]\<rparr>)) = (Inr (Rotated a), s) \<and> \<not> aborted s"
    by (simp add: refresh_tx_def find_refresh_token_by_hash_def hash_token_def session0_def env1_hash eval_simps
        date_of_micros_def find_user_by_id_def issue_session_def insert_refresh_token_def mark_refresh_token_replaced_def
        exec_common issue_access_token_def tokens01)
  then obtain a s where s: "refresh_tx ''AAAA'' ctx0 env1 (begin_state (db0\<lparr>tokens_t := [session0]\<rparr>)) = (Inr (Rotated a), s)"
      "\<not> aborted s" by blast
  have "transact (refresh_tx ''AAAA'' ctx0) (\<lambda>_. env1) (db0\<lparr>tokens_t := [session0]\<rparr>) = (Inr (Rotated a, hooks s), data s)"
    by (rule transact_reliable [where fn = "refresh_tx ''AAAA'' ctx0" and envs = "\<lambda>_. env1", OF _ s]) simp
  then show ?thesis by (simp add: refresh_def)
qed

lemma refresh_single_use_witness:
  "\<exists>r d'. refresh ''AAAA'' ctx0 (\<lambda>_. env1) (db0\<lparr>tokens_t := [session0]\<rparr>) = (Inr r, d') \<and>
     (\<exists>e. fst (refresh ''AAAA'' ctx0 (\<lambda>_. env1) d') = Inl e)"
proof -
  obtain r d' where r: "refresh ''AAAA'' ctx0 (\<lambda>_. env1) (db0\<lparr>tokens_t := [session0]\<rparr>) = (Inr r, d')"
    using session0_refreshes by blast
  from refresh_single_use [OF r steps_refl, of "\<lambda>_. env1" "''AAAA''" ctx0] r show ?thesis by blast
qed

section \<open>PINs\<close>

text \<open>The user tries these PINs one after the other.\<close>

fun try_pins :: "uuid \<Rightarrow> env \<Rightarrow> string list \<Rightarrow> db \<Rightarrow> db" where
  "try_pins i env [] d = d"
| "try_pins i env (p # ps) d = try_pins i env ps (snd (verify_pin i p env (\<lambda>_. env) d))"

definition pin_state :: "uuid \<Rightarrow> string \<Rightarrow> int \<Rightarrow> db \<Rightarrow> bool" where
  "pin_state i h n d \<longleftrightarrow> (\<exists>u. find_user_by_id i d = Some u \<and> u_status u = U_ACTIVE \<and> u_pin_hash u = h \<and>
     u_failed_pin_attempts u = n \<and> u_pin_locked_until u = None)"

lemma wrong_pin:
  assumes env: "reliable env" and s: "pin_state i h n d" and w: "\<not> verify_secret env h p"
  shows "n + 1 < MAX_PIN_ATTEMPTS (cfg env) \<Longrightarrow> pin_state i h (n + 1) (snd (verify_pin i p env (\<lambda>_. env) d))"
    and "n + 1 = MAX_PIN_ATTEMPTS (cfg env) \<Longrightarrow> \<exists>u. find_user_by_id i (snd (verify_pin i p env (\<lambda>_. env) d)) = Some u \<and>
      u_status u = U_ACTIVE \<and> u_pin_locked_until u = Some (now env + PIN_LOCKOUT_MINUTES (cfg env) * 60 * 1000000)"
proof -
  obtain u where u: "find_user_by_id i d = Some u" "u_status u = U_ACTIVE" "u_pin_hash u = h" "u_failed_pin_attempts u = n"
    "u_pin_locked_until u = None" using s by (auto simp: pin_state_def)
  have l: "\<not> pin_is_locked env u" using u(5) by (simp add: pin_is_locked_def)
  note v = verify_pin_wrong(1) [where envs = "\<lambda>_. env", OF env env u(1,2) l w [folded u(3)]]
  have f: "find_user_by_id i (snd (verify_pin i p env (\<lambda>_. env) d)) = Some (pin_failed env u)"
    unfolding v find_user_pin_failed u(1) by simp
  show "n + 1 < MAX_PIN_ATTEMPTS (cfg env) \<Longrightarrow> pin_state i h (n + 1) (snd (verify_pin i p env (\<lambda>_. env) d))"
    using f u by (simp add: pin_state_def pin_failed_def)
  show "n + 1 = MAX_PIN_ATTEMPTS (cfg env) \<Longrightarrow> \<exists>u. find_user_by_id i (snd (verify_pin i p env (\<lambda>_. env) d)) = Some u \<and>
      u_status u = U_ACTIVE \<and> u_pin_locked_until u = Some (now env + PIN_LOCKOUT_MINUTES (cfg env) * 60 * 1000000)"
    using f u by (simp add: pin_failed_def)
qed

lemma wrong_pins:
  assumes "reliable env" and "pin_state i h n d" and "\<forall>p\<in>set ps. \<not> verify_secret env h p" and "ps \<noteq> []"
    and "n + int (length ps) = MAX_PIN_ATTEMPTS (cfg env)"
  shows "\<exists>u. find_user_by_id i (try_pins i env ps d) = Some u \<and>
      u_status u = U_ACTIVE \<and> u_pin_locked_until u = Some (now env + PIN_LOCKOUT_MINUTES (cfg env) * 60 * 1000000)"
  using assms(2-)
proof (induction ps arbitrary: n d)
  case (Cons p ps)
  have w: "\<not> verify_secret env h p" using Cons.prems(2) by simp
  show ?case
  proof (cases "ps = []")
    case True
    then show ?thesis using wrong_pin(2) [OF assms(1) Cons.prems(1) w] Cons.prems(4) by simp
  next
    case False
    then have "n + 1 < MAX_PIN_ATTEMPTS (cfg env)" using Cons.prems(4) by (cases ps) auto
    from wrong_pin(1) [OF assms(1) Cons.prems(1) w this]
    have "pin_state i h (n + 1) (snd (verify_pin i p env (\<lambda>_. env) d))" .
    from Cons.IH [OF this] Cons.prems(2,4) False show ?thesis by simp
  qed
qed simp

text \<open>
  C23. Wrong PINs lock: when the clock of the database and of the process agree and no statement fails,
  as many wrong PINs as the limit lock the PIN of an active user for the lockout time, and until then
  every PIN, the right one too, is refused with the time the lock ends, and nothing is written.
\<close>

theorem wrong_pins_lock:
  assumes "reliable env" and "pin_state i h 0 d" and "\<forall>p\<in>set ps. \<not> verify_secret env h p"
    and "0 < MAX_PIN_ATTEMPTS (cfg env)" and "int (length ps) = MAX_PIN_ATTEMPTS (cfg env)"
    and "reliable later" and "date_now later < date_of_micros (now env + PIN_LOCKOUT_MINUTES (cfg env) * 60 * 1000000)"
  shows "verify_pin i any later envs (try_pins i env ps d) =
    (Inl (pin_locked (date_of_micros (now env + PIN_LOCKOUT_MINUTES (cfg env) * 60 * 1000000))), try_pins i env ps d)"
proof -
  have "ps \<noteq> []" using assms(4,5) by auto
  then obtain u where u: "find_user_by_id i (try_pins i env ps d) = Some u" "u_status u = U_ACTIVE"
      "u_pin_locked_until u = Some (now env + PIN_LOCKOUT_MINUTES (cfg env) * 60 * 1000000)"
    using wrong_pins [OF assms(1-3)] assms(5) by auto
  have l: "pin_is_locked later u" using u(3) assms(7) by (simp add: pin_is_locked_def)
  have q: "pool_query (\<lambda>_ d. Inr (find_user_by_id i d, d)) later (try_pins i env ps d) = (Inr (Some u), try_pins i env ps d)"
    by (rule pool_query_reliable [OF assms(6)]) (simp add: u(1))
  show ?thesis unfolding verify_pin_def q using u l by simp
qed

lemma wrong_pins_lock_witness:
  "\<exists>e. verify_pin 21 ''1234'' env0 (\<lambda>_. env0) (try_pins 21 env0 (replicate 5 ''9999'') db0) = (Inl e, try_pins 21 env0 (replicate 5 ''9999'') db0)"
proof -
  have "pin_state 21 ''1234'' 0 db0" by (simp add: pin_state_def find_user_by_id_def)
  from wrong_pins_lock [OF env0_simps(13) this, of "replicate 5 ''9999''" env0 "''1234''" "\<lambda>_. env0"]
  show ?thesis by (simp add: verify_secret_def date_of_micros_def)
qed

section \<open>Registration\<close>

text \<open>
  C20. A registration that returns has created one user with the phone and exactly the hashes of the
  password and the PIN, and one active account for that user which holds the signup bonus, minted from a treasury
  stripe by the one transfer it appended.
\<close>

theorem register_funds_account:
  assumes "reachable d" and "register_user input ctx env envs d = (Inr (r, hs), d')"
  shows "\<exists>n u i t. users_t d' = users_t d @ [u] \<and> u_phone u = reg_phone input \<and> u_id u = ar_user_id r \<and>
    u_password_hash u = argon_hash env (reg_password input) \<and> u_pin_hash u = argon_hash env (reg_pin input) \<and>
    find_account_by_user_id (u_id u) d' = Some (bump (SIGNUP_BONUS_MINOR (cfg (envs n))) (new_account_row i (u_id u))) \<and>
    transfers_t d' = transfers_t d @ [t] \<and> t_type t = MINT \<and> t_to_account_id t = i \<and>
    t_amount_minor t = SIGNUP_BONUS_MINOR (cfg (envs n)) \<and> t_from_account_id t = pick_treasury_stripe (random_stripe (envs n))"
proof -
  have ok: "ledger_ok d" by (rule books.always [OF assms(1)])
  obtain x dx where t: "transact (register_tx input (argon_hash env (reg_password input)) (argon_hash env (reg_pin input)) ctx) envs d = (x, dx)"
    by fastforce
  then have "transact (register_tx input (argon_hash env (reg_password input)) (argon_hash env (reg_pin input)) ctx) envs d = (Inr (r, hs), d')"
    using assms(2) by (auto simp: register_user_def Let_def split: sum.splits prod.splits)
  then obtain n s where run: "register_tx input (argon_hash env (reg_password input)) (argon_hash env (reg_pin input)) ctx (envs n) (begin_state d) = (Inr r, s)"
      "data s = d'"
    by (rule committed [OF books.register ok])
  have ok': "ledger_ok (data (begin_state d))" using ok by simp
  from run(1) ok' show ?thesis
  proof (rule register_tx_Inr)
    fix u i e
    assume "users_t (data s) = users_t (data (begin_state d)) @ [u]" "u_phone u = reg_phone input" "u_id u = ar_user_id r"
      "u_password_hash u = argon_hash env (reg_password input)" "u_pin_hash u = argon_hash env (reg_pin input)"
      "find_account_by_user_id (u_id u) (data s) =
         Some (bump (SIGNUP_BONUS_MINOR (cfg (envs n))) (new_account_row i (u_id u)))"
      "\<exists>t. transfers_t (data s) = transfers_t (data (begin_state d)) @ [t] \<and> t_type t = MINT \<and> t_to_account_id t = i \<and>
         t_amount_minor t = SIGNUP_BONUS_MINOR (cfg (envs n)) \<and>
         t_from_account_id t = pick_treasury_stripe (random_stripe (envs n))"
    then show ?thesis unfolding run(2) begin_state_simps by blast
  qed
qed

lemma register_funds_account_witness:
  "\<exists>r hs d'. register_user alice ctx0 env0 (\<lambda>_. env0) initial_db = (Inr (r, hs), d') \<and>
     (\<exists>t. transfers_t d' = [t] \<and> t_type t = MINT \<and> t_amount_minor t = 10000000)"
proof -
  obtain r hs d' where t: "transact (register_tx alice ''password1'' ''1234'' ctx0) (\<lambda>_. env0) initial_db = (Inr (r, hs), d')"
    using runs_transact [OF alice_registers] by blast
  then have u: "register_user alice ctx0 env0 (\<lambda>_. env0) initial_db = (Inr (r, hs), d')"
    by (simp add: register_user_def alice_def)
  from register_funds_account [OF Start u] have "\<exists>t. transfers_t d' = [t] \<and> t_type t = MINT \<and> t_amount_minor t = 10000000"
    by (auto simp: initial_db_def)
  with u show ?thesis by blast
qed

end
