(* ===== verification/Paging.thy ===== *)
theory Paging
  imports World
begin

text \<open>
  Following the cursors of a listing (\<open>nextCursor\<close> of \<open>toPage\<close>) visits every row once, newest first: the
  interface under which this holds, and the money requests and the ledger history as its instances.
\<close>

section \<open>A client of a listing\<close>

definition page_items :: "json \<Rightarrow> json list" where
  "page_items page = (case jget ''items'' page of JArr xs \<Rightarrow> xs | _ \<Rightarrow> [])"

definition page_cursor :: "json \<Rightarrow> string option" where
  "page_cursor page = jstr (jget ''nextCursor'' page)"

text \<open>
  A client asks for a page, then for the page at the cursor it was given, until none is given.
  \<open>None\<close> when a call fails or the calls do not end within the fuel.
\<close>

fun walk :: "nat \<Rightarrow> (string option \<Rightarrow> exn + json) \<Rightarrow> string option \<Rightarrow> json list option" where
  "walk 0 fetch c = None"
| "walk (Suc n) fetch c =
     (case fetch c of
        Inl _ \<Rightarrow> None
      | Inr page \<Rightarrow>
          (case page_cursor page of
             None \<Rightarrow> Some (page_items page)
           | Some k \<Rightarrow> map_option ((@) (page_items page)) (walk n fetch (Some k))))"

definition cursor_at :: "(nat \<Rightarrow> string) \<Rightarrow> row_key \<Rightarrow> string" where
  "cursor_at id_text k = encode_cursor \<lparr>cur_created_at = pg_text (fst k), cur_id = id_text (snd k)\<rparr>"

text \<open>The position a cursor stands for: the beginning, or a row.\<close>

definition position :: "(nat \<Rightarrow> string) \<Rightarrow> row_key set \<Rightarrow> string option \<Rightarrow> row_key option \<Rightarrow> bool" where
  "position id_text ks c k \<longleftrightarrow> c = map_option (cursor_at id_text) k \<and> set_option k \<subseteq> ks"

definition page_shows :: "(nat \<Rightarrow> string) \<Rightarrow> ('r \<Rightarrow> row_key) \<Rightarrow> ('r \<Rightarrow> json) \<Rightarrow> nat \<Rightarrow> 'r list \<Rightarrow> json \<Rightarrow> bool" where
  "page_shows id_text key dto limit q page \<longleftrightarrow> page_items page = map dto (take limit q) \<and>
     page_cursor page = (if length q \<le> limit then None else Some (cursor_at id_text (key (last (take limit q)))))"

lemma to_page_shows:
  assumes "to_page createdAtRaw rid (map f rows) limit = (items, c)"
    and "\<And>x. x \<in> set rows \<Longrightarrow> createdAtRaw (f x) = pg_text (fst (key x)) \<and> rid (f x) = id_text (snd (key x)) \<and> view (f x) = dto x"
    and "jget ''items'' page = JArr (map view items)" and "jget ''nextCursor'' page = jopt c" and "0 < limit"
  shows "page_shows id_text key dto limit rows page"
proof -
  have v: "map view (map f (take n rows)) = map dto (take n rows)" for n
    using assms(2) by (auto dest: in_set_takeD)
  show ?thesis
  proof (cases "length rows \<le> limit")
    case True
    with assms(1,3,4) v [of "length rows"] show ?thesis
      by (auto simp: to_page_def page_shows_def page_items_def page_cursor_def jopt_def)
  next
    case False
    let ?l = "last (take limit rows)"
    have ne: "take limit rows \<noteq> []" using assms(5) False by (cases rows) auto
    then have "?l \<in> set rows" using last_in_set [OF ne] by (meson in_set_takeD)
    with False assms(1) ne have "c = Some (cursor_at id_text (key ?l))" "items = map f (take limit rows)"
      using assms(2) [of ?l] by (auto simp: to_page_def Let_def cursor_at_def take_map last_map)
    with False assms(3,4) v [of limit] show ?thesis
      by (simp add: page_shows_def page_items_def page_cursor_def jopt_def)
  qed
qed

section \<open>The interface\<close>

text \<open>
  A listing has rows with distinct keys, and answers at a position with the first rows below it. Its
  client is anyone who follows cursors.
\<close>

locale listing =
  fixes key :: "'r \<Rightarrow> row_key" and rows :: "db \<Rightarrow> 'r list" and ok :: "db \<Rightarrow> bool"
  assumes distinct_keys: "ok d \<Longrightarrow> distinct (map key (rows d))"
begin

lemma rest_after:
  assumes "ok d" and "descending key (rows d) = xs @ r # ys"
  shows "descending key (filter (below key (Some (key r))) (rows d)) = ys"
proof -
  have "mset (map key (descending key (rows d))) = mset (map key (rows d))" by (simp add: descending_def)
  then have "distinct (map key (descending key (rows d)))"
    using distinct_keys [OF assms(1)] mset_eq_imp_distinct_iff by blast
  then show ?thesis
    using below_after [of key xs r ys] descending_sorted [of key "rows d"] assms(2) by (simp flip: filter_descending)
qed

text \<open>The rows left at a position are the rows below it.\<close>

lemma rest_at:
  assumes "ok d" and "descending key (rows d) = xs @ ys" and "k = (if xs = [] then None else Some (key (last xs)))"
  shows "descending key (filter (below key k) (rows d)) = ys"
proof (cases "xs = []")
  case True
  then show ?thesis using assms by (simp add: below_def)
next
  case False
  then have "descending key (rows d) = butlast xs @ last xs # ys" using assms(2) by simp
  from rest_after [OF assms(1) this] show ?thesis using assms(3) False by simp
qed

end

locale cursor_listing = listing +
  fixes id_text :: "nat \<Rightarrow> string" and dto :: "db \<Rightarrow> 'a \<Rightarrow> json"
    and fetch :: "nat \<Rightarrow> string option \<Rightarrow> db \<Rightarrow> (exn + json) \<times> db"
  assumes answer: "ok d \<Longrightarrow> 0 < limit \<Longrightarrow> position id_text (key ` set (rows d)) c k \<Longrightarrow>
    \<exists>page. fetch limit c d = (Inr page, d) \<and> page_shows id_text key (dto d) limit (keyset_query key k (limit + 1) (rows d)) page"
begin

lemma walk_rest:
  assumes "ok d" and "0 < limit" and "descending key (rows d) = xs @ ys" and "length ys < fuel"
    and "k = (if xs = [] then None else Some (key (last xs)))"
  shows "walk fuel (\<lambda>c. fst (fetch limit c d)) (map_option (cursor_at id_text) k) = Some (map (dto d) ys)"
  using assms(3-5)
proof (induction fuel arbitrary: xs ys k)
  case (Suc fuel)
  have "set (descending key (rows d)) = set (rows d)" by simp
  then have sub: "set xs \<subseteq> set (rows d)" "set ys \<subseteq> set (rows d)" using Suc.prems(1) by auto
  then have "position id_text (key ` set (rows d)) (map_option (cursor_at id_text) k) k"
    using Suc.prems(3) by (auto simp: position_def intro!: imageI subsetD [OF sub(1) last_in_set])
  from answer [OF assms(1,2) this] obtain page where
    p: "fetch limit (map_option (cursor_at id_text) k) d = (Inr page, d)"
      "page_shows id_text key (dto d) limit (keyset_query key k (limit + 1) (rows d)) page" by blast
  have q: "keyset_query key k (limit + 1) (rows d) = take (limit + 1) ys"
    using rest_at [OF assms(1) Suc.prems(1,3)] by (simp add: keyset_query_def)
  show ?case
  proof (cases "length ys \<le> limit")
    case True
    with p show ?thesis unfolding q by (simp add: page_shows_def)
  next
    case False
    have ne: "take limit ys \<noteq> []" using assms(2) False by (cases ys) auto
    have t: "take limit (take (limit + 1) ys) = take limit ys" by (simp add: min_def)
    let ?k = "Some (key (last (take limit ys)))"
    have "?k = (if xs @ take limit ys = [] then None else Some (key (last (xs @ take limit ys))))" using ne by simp
    moreover have "descending key (rows d) = (xs @ take limit ys) @ drop limit ys" using Suc.prems(1) by simp
    moreover have "length (drop limit ys) < fuel" using Suc.prems(2) assms(2) False by simp
    ultimately have "walk fuel (\<lambda>c. fst (fetch limit c d)) (map_option (cursor_at id_text) ?k) = Some (map (dto d) (drop limit ys))"
      by (intro Suc.IH)
    with p False show ?thesis
      unfolding q page_shows_def t by (simp flip: map_append)
  qed
qed simp

lemma walk_all:
  assumes "ok d" and "0 < limit" and "length (rows d) < fuel"
  shows "walk fuel (\<lambda>c. fst (fetch limit c d)) None = Some (map (dto d) (descending key (rows d)))"
  using walk_rest [OF assms(1,2), of "[]" "descending key (rows d)" fuel None] assms(3) by simp

end

section \<open>Money requests\<close>

definition request_rows :: "uuid \<Rightarrow> request_query \<Rightarrow> db \<Rightarrow> request_row list" where
  "request_rows u q d = filter (listed_request u (rq_role q) (rq_status q) d) (requests_t d)"

text \<open>Nothing fails, and the years and identifiers are those Postgres prints.\<close>

definition requests_readable :: "env \<Rightarrow> db \<Rightarrow> bool" where
  "requests_readable env d \<longleftrightarrow> reliable env \<and> keyed r_id (requests_t d) \<and>
     (\<forall>r\<in>set (requests_t d). four_digit_year (r_created_at r) \<and> r_id r < 16 ^ 32)"

definition request_item :: "uuid \<Rightarrow> request_query \<Rightarrow> db \<Rightarrow> request_row \<Rightarrow> json" where
  "request_item u q d r = request_dto r u (user_names (find_user_by_id (other_party (rq_role q) r) d)) (settled_reference d r)"

definition ask_requests :: "uuid \<Rightarrow> request_query \<Rightarrow> env \<Rightarrow> nat \<Rightarrow> string option \<Rightarrow> db \<Rightarrow> (exn + json) \<times> db" where
  "ask_requests u q env limit c d = list_requests u (q\<lparr>rq_limit := limit, rq_cursor := c\<rparr>) (\<lambda>_. env) d"

lemma decode_position:
  assumes "position uuid_text ks c k" and "\<forall>(t, i)\<in>ks. four_digit_year t \<and> i < 16 ^ 32"
  shows "\<exists>x. decode_cursor c = Inr x \<and> uuid_cursor x = Inr k"
proof (cases k)
  case None
  with assms(1) show ?thesis by (simp add: position_def decode_cursor_def uuid_cursor_def)
next
  case (Some p)
  with assms have p: "four_digit_year (fst p)" "snd p < 16 ^ 32" "c = Some (cursor_at uuid_text p)"
    by (auto simp: position_def split_beta)
  show ?thesis
    unfolding p(3) cursor_at_def decode_encode_uuid [OF p(1)]
    using Some p(1,2) by (simp add: uuid_cursor_def cast_timestamp_def cast_uuid_def is_uuid_text uuid_value_text pg_parse_text)
qed

interpretation requests: cursor_listing request_key "request_rows u q" "requests_readable env" uuid_text "request_item u q" "ask_requests u q env"
  for u q env
proof
  show "distinct (map request_key (request_rows u q d))" if "requests_readable env d" for d
  proof -
    have "distinct (map r_id (request_rows u q d))"
      using that by (simp add: requests_readable_def keyed_def request_rows_def distinct_map_filter)
    then have "distinct (map (snd \<circ> request_key) (request_rows u q d))" by (simp add: request_key_def comp_def)
    then show ?thesis by (simp add: distinct_map comp_inj_on_iff inj_on_imageI2 flip: map_map)
  qed
  show "\<exists>page. ask_requests u q env limit c d = (Inr page, d) \<and>
      page_shows uuid_text request_key (request_item u q d) limit (keyset_query request_key k (limit + 1) (request_rows u q d)) page"
    if ok: "requests_readable env d" and l: "0 < limit" and p: "position uuid_text (request_key ` set (request_rows u q d)) c k" for d limit c k
  proof -
    have "\<forall>(t, i)\<in>request_key ` set (request_rows u q d). four_digit_year t \<and> i < 16 ^ 32"
      using ok by (auto simp: requests_readable_def request_rows_def request_key_def)
    from decode_position [OF p this] obtain x where x: "decode_cursor c = Inr x" "uuid_cursor x = Inr k" by blast
    let ?rs = "map (\<lambda>r. (r, user_names (find_user_by_id (other_party (rq_role q) r) d), settled_reference d r))
         (keyset_query request_key k (limit + 1) (request_rows u q d))"
    have "\<exists>s. list_request_rows u (rq_role q) (rq_status q) (limit + 1) x env (begin_state d) = (Inr ?rs, s) \<and> \<not> aborted s \<and> data s = d"
      using ok x(2) by (simp add: list_request_rows_def eval_simps requests_readable_def reliable_def request_rows_def)
    then obtain s where s: "list_request_rows u (rq_role q) (rq_status q) (limit + 1) x env (begin_state d) = (Inr ?rs, s)"
        "\<not> aborted s" "data s = d" by blast
    have "read_transact (list_request_rows u (rq_role q) (rq_status q) (limit + 1) x) (\<lambda>_. env) d = (Inr (?rs, hooks s), d)"
      by (rule read_transact_reliable [where fn = "list_request_rows u (rq_role q) (rq_status q) (limit + 1) x" and envs = "\<lambda>_. env",
            OF _ s(1,2), unfolded s(3)]) (use ok in \<open>simp add: requests_readable_def\<close>)
    then have a: "ask_requests u q env limit c d = (Inr (request_page u ?rs limit), d)"
      using x(1) by (simp add: ask_requests_def list_requests_def)
    obtain items c' where t: "to_page (\<lambda>(r, _). pg_text (r_created_at r)) (\<lambda>(r, _). uuid_text (r_id r)) ?rs limit = (items, c')" by fastforce
    have page: "request_page u ?rs limit = JObj [(''items'', JArr (map (\<lambda>(r, who, ref). request_dto r u who ref) items)), (''nextCursor'', jopt c')]"
      unfolding request_page_def t by simp
    have "page_shows uuid_text request_key (request_item u q d) limit
        (keyset_query request_key k (limit + 1) (request_rows u q d)) (request_page u ?rs limit)"
      unfolding page by (rule to_page_shows [OF t _ _ _ l, where view = "\<lambda>(r, who, ref). request_dto r u who ref"])
        (auto simp: request_key_def request_item_def)
    with a show ?thesis by blast
  qed
qed

text \<open>
  Following the cursors of the request listing shows every request it lists once, newest first, and
  ends: whatever the page size, the pages together are exactly the caller's requests of the role and
  the status asked for, in descending order of creation.
\<close>

theorem requests_listed_once:
  assumes "requests_readable env d" and "0 < rq_limit q"
  shows "walk (Suc (length (requests_t d))) (\<lambda>c. fst (list_requests u (q\<lparr>rq_cursor := c\<rparr>) (\<lambda>_. env) d)) None =
    Some (map (request_item u q d) (descending request_key (filter (listed_request u (rq_role q) (rq_status q) d) (requests_t d))))"
proof -
  have "length (request_rows u q d) < Suc (length (requests_t d))" by (simp add: request_rows_def less_Suc_eq_le)
  from requests.walk_all [OF assms this] show ?thesis by (simp add: ask_requests_def request_rows_def)
qed

lemma requests_listed_once_witness:
  "\<exists>d. reachable d \<and> walk 2 (\<lambda>c. fst (list_requests 14 \<lparr>rq_role = Outgoing, rq_status = None, rq_limit = 1, rq_cursor = c\<rparr> (\<lambda>_. env0) d)) None =
     Some (map (request_item 14 \<lparr>rq_role = Outgoing, rq_status = None, rq_limit = 1, rq_cursor = None\<rparr> d) (requests_t d)) \<and> requests_t d \<noteq> []"
proof -
  obtain d0 d where d: "reachable d" "asked d0 d" using asked_world by blast
  let ?q = "\<lparr>rq_role = Outgoing, rq_status = None, rq_limit = 1, rq_cursor = None\<rparr>"
  have r: "requests_t d = [new_request_row 20 14 9 2500 None 1767830400000 None 1767225600000000]" using d(2) by (simp add: asked_def)
  have "requests_readable env0 d"
    by (simp add: requests_readable_def r new_request_row_def four_digit_year_def year_of_day_def day_from_year_def Let_def keyed_def)
  from requests_listed_once [OF this, of ?q 14] have
    "walk (Suc (length (requests_t d))) (\<lambda>c. fst (list_requests 14 (?q\<lparr>rq_cursor := c\<rparr>) (\<lambda>_. env0) d)) None =
     Some (map (request_item 14 ?q d) (descending request_key (filter (listed_request 14 Outgoing None d) (requests_t d))))" by simp
  moreover have "user_exists 9 d" using d(2) by (auto simp: asked_def started_def user_exists_def)
  ultimately show ?thesis using d(1) r
    by (intro exI [of _ d]) (simp add: listed_request_def self_party_def other_party_def new_request_row_def descending_def numeral_2_eq_2)
qed

section \<open>The ledger's serial numbers\<close>

text \<open>
  Every entry has its own positive serial number, whatever values the identity column's sequence hands
  out and however many of them went to postings that were rolled back. The sequence ends at \<open>2 ^ 63\<close>; a
  number beyond it is never drawn for a ledger of fewer rows than that.
\<close>

definition serials :: "db \<Rightarrow> bool" where
  "serials d \<longleftrightarrow> keyed e_id (entries_t d) \<and>
     (\<forall>e\<in>set (entries_t d). 0 < e_id e \<and> (e_id e < 2 ^ 63 \<or> e_id e \<le> length (entries_t d)))"

lemma serials_frame: "serials d \<Longrightarrow> entries_t d' = entries_t d \<Longrightarrow> serials d'"
  by (simp add: serials_def)

lemma serials_deaf: "deaf serials"
  unfolding deaf_def by (intro allI impI) (erule serials_frame, simp)

lemma serials_grow:
  assumes "serials d" and "entries_t d' = entries_t d @ entries_of t x y (next_entry_ids env d)"
  shows "serials d'"
proof -
  obtain n m where nm: "next_entry_ids env d = (n, m)" by fastforce
  let ?used = "map e_id (entries_t d)"
  have n: "n = draw_serial (fst (drawn_entries env)) ?used" and m: "m = draw_serial (snd (drawn_entries env)) (n # ?used)"
    using nm by (auto simp: next_entry_ids_def Let_def)
  note fresh = draw_serial [of "fst (drawn_entries env)" ?used, folded n] draw_serial [of "snd (drawn_entries env)" "n # ?used", folded m]
  have "0 < e_id e \<and> (e_id e < 2 ^ 63 \<or> e_id e \<le> length (entries_t d'))" if "e \<in> set (entries_t d')" for e
  proof -
    from that consider "e \<in> set (entries_t d)" | "e_id e = n" | "e_id e = m" by (auto simp: assms(2) nm entries_of_def)
    then show ?thesis
    proof cases
      case 1
      with assms(1) have "0 < e_id e" "e_id e < 2 ^ 63 \<or> e_id e \<le> length (entries_t d)" by (simp_all add: serials_def)
      then show ?thesis by (auto simp: assms(2))
    qed (use fresh in \<open>auto simp: assms(2) nm entries_of_def\<close>)
  qed
  moreover have "keyed e_id (entries_t d')"
    using assms(1) fresh by (auto simp: serials_def keyed_def assms(2) nm entries_of_def)
  ultimately show ?thesis by (simp add: serials_def)
qed

lemma keeps_serials:
  "keeps serials (enqueue_event e)" "keeps serials (post_double_entry c)"
  "keeps serials (transition i to u reason)" "keeps serials (mark_accepted i t)" "keeps serials (expire_due k)"
proof -
  show "keeps serials (post_double_entry c)"
    unfolding keeps_def
  proof (rule tripleI)
    fix env s p s'
    assume ok: "serials (data s)" and run: "post_double_entry c env s = (Inr p, s')"
    from run show "\<not> aborted s' \<and> serials (data s')"
      by (rule post_double_entry_Inr) (auto simp: movement_applied_def intro: serials_grow [OF ok])
  qed
qed (rule keeps_enqueue_event, erule serials_frame, simp, (rule keeps_request_updates, erule serials_frame, simp)+)

interpretation numbered: keyed_program serials
proof
  show "serials d \<Longrightarrow> next_uuid d \<le> n \<Longrightarrow> tokens_kept (tokens_t d) ts \<Longrightarrow>
      serials (d\<lparr>users_t := us, tokens_t := ts, splits_t := ss, audit_t := as, next_uuid := n\<rparr>)" for d n us ts ss as
    by (erule serials_frame) simp
  show "keeps serials (insert_user_account u)" for u
    unfolding insert_user_account_def by (rule keeps_query) (auto split: if_splits elim!: serials_frame)
  show "keeps serials (insert_request u v x nt ex sp)" for u v x nt ex sp
    by (rule keeps_insert_request) (erule serials_frame, simp)
  show "keeps serials (insert_schedule u v x nt kind startAt remaining)" for u v x nt kind startAt remaining
    by (rule keeps_insert_schedule) (erule serials_frame, simp)
  show "keeps serials (run_schedule_tx i)" for i
    by (rule keeps_run_schedule, rule keeps_serials)
      (erule serials_frame, simp, (rule keeps_occurrence_writes; erule serials_frame; simp)+, rule keeps_serials)
  show "keeps serials (reverse_work u ref ctx i)" for u ref ctx i
    by (rule keeps_reverse_work, rule keeps_serials) (erule serials_frame, simp, erule serials_frame, simp, rule keeps_serials)
  show "keeps serials (accept_work u q ctx i)" for u q ctx i
    by (rule keeps_accept_work, rule keeps_serials) (erule serials_frame, simp, (rule keeps_serials)+)
  show "keeps serials (claim_idempotency_key u key ep hh)" for u key ep hh
    by (rule keeps_claim) (erule serials_frame, simp)
  show "keeps serials (complete_idempotency_key i st b)" for i st b
    by (rule keeps_complete) (erule serials_frame, simp)
  show "serials initial_db" by (simp add: serials_def keyed_def initial_db_def)
qed (simp_all add: keeps_serials keeps_dispatch [OF serials_deaf], (erule serials_frame, simp)+)

lemma serials_keyed: "serials d \<Longrightarrow> keyed e_id (entries_t d)"
  by (simp add: serials_def)

lemma serial_bound: "serials d \<Longrightarrow> e \<in> set (entries_t d) \<Longrightarrow> length (entries_t d) < 2 ^ 63 \<Longrightarrow> e_id e < 2 ^ 63"
  by (fastforce simp: serials_def)

end
