(* ===== verification/History_Pages.thy ===== *)
theory History_Pages
  imports Paging Read_Safety
begin

text \<open>
  The history of an account shows every one of its ledger entries once: the join of entries, movements
  and counterparties neither drops nor repeats an entry, and the pages follow its serial keys.
\<close>

section \<open>The join\<close>

lemma filter_keyed:
  assumes "keyed k rs" and "r \<in> set rs" and "P r" and "\<And>x. P x \<Longrightarrow> k x = k r"
  shows "filter P rs = [r]"
  using assms(1,2)
proof (induction rs)
  case (Cons q rs)
  show ?case
  proof (cases "q = r")
    case True
    then have "\<forall>x\<in>set rs. \<not> P x" using Cons.prems(1) assms(4) by (auto simp: keyed_def image_iff)
    with True assms(3) show ?thesis by (simp add: filter_empty_conv)
  next
    case False
    then have "\<not> P q" using Cons.prems assms(4) by (fastforce simp: keyed_def)
    with False Cons show ?thesis by (simp add: keyed_def)
  qed
qed simp

lemma concat_singletons: "(\<And>x. x \<in> set xs \<Longrightarrow> f x = [g x]) \<Longrightarrow> concat (map f xs) = map g xs"
  by (induction xs) auto

text \<open>Books that satisfy the ledger's invariant: every entry has one row.\<close>

lemma history_rows_entries:
  assumes "ledger_ok d"
  shows "\<exists>g. history_rows d = map (\<lambda>e. (e, g e)) (entries_t d)"
proof -
  define J where "J e = concat (map (\<lambda>t. map (\<lambda>a. (e, t, account_owner a d)) (filter (\<lambda>a. a_id a = other_account e t) (accounts_t d)))
       (filter (\<lambda>t. t_id t = e_transfer_id e \<and> t_created_at t = e_created_at e) (transfers_t d)))" for e
  have k: "keyed t_id (transfers_t d)" "keyed a_id (accounts_t d)"
    using assms by (simp_all add: ledger_ok_def transfers_ok_def accounts_ok_def)
  have "\<exists>y. J e = [(e, y)]" if e: "e \<in> set (entries_t d)" for e
  proof -
    from assms e obtain t where t: "t \<in> set (transfers_t d)" "t_id t = e_transfer_id e" "t_created_at t = e_created_at e"
      unfolding ledger_ok_def entries_ok_def by blast
    have ft: "filter (\<lambda>t. t_id t = e_transfer_id e \<and> t_created_at t = e_created_at e) (transfers_t d) = [t]"
      by (rule filter_keyed [OF k(1) t(1)]) (use t(2,3) in simp_all)
    have "t_from_account_id t \<in> account_ids d" "t_to_account_id t \<in> account_ids d"
      using assms t(1) by (simp_all add: ledger_ok_def transfers_ok_def)
    then have "other_account e t \<in> account_ids d" by (simp add: other_account_def)
    then obtain a where a: "a \<in> set (accounts_t d)" "a_id a = other_account e t" by (auto simp: account_ids_def)
    have fa: "filter (\<lambda>a. a_id a = other_account e t) (accounts_t d) = [a]"
      by (rule filter_keyed [OF k(2) a(1)]) (use a(2) in simp_all)
    show ?thesis unfolding J_def ft by (simp add: fa)
  qed
  then have "\<forall>e\<in>set (entries_t d). \<exists>y. J e = [(e, y)]" by (rule ballI)
  then obtain g where "\<forall>e\<in>set (entries_t d). J e = [(e, g e)]" using bchoice [of "set (entries_t d)" "\<lambda>e y. J e = [(e, y)]"] by auto
  then have "concat (map J (entries_t d)) = map (\<lambda>e. (e, g e)) (entries_t d)" by (intro concat_singletons) simp
  then show ?thesis unfolding history_rows_def J_def [abs_def] by (rule exI [of _ g])
qed

section \<open>The instance\<close>

definition shown_rows :: "uuid \<Rightarrow> history_request \<Rightarrow> db \<Rightarrow> history_row list" where
  "shown_rows u q d =
     (case find_account_by_user_id u d of
        None \<Rightarrow> []
      | Some a \<Rightarrow> filter (in_history (history_filters_of (a_id a) q None)) (history_rows d))"

definition serial_text :: "nat \<Rightarrow> string" where
  "serial_text n = int_text (int n)"

text \<open>Nothing fails, the caller has an account, and the query is one the route lets through.\<close>

definition history_readable :: "uuid \<Rightarrow> history_request \<Rightarrow> env \<Rightarrow> db \<Rightarrow> bool" where
  "history_readable u q env d \<longleftrightarrow> reliable env \<and> ledger_ok d \<and> serials d \<and> find_account_by_user_id u d \<noteq> None \<and>
     \<not> window_reversed q \<and> opt_all int8_range (map_option big_int (hq_min q)) \<and> opt_all int8_range (map_option big_int (hq_max q)) \<and>
     (\<forall>e\<in>set (entries_t d). four_digit_year (e_created_at e)) \<and> length (entries_t d) < 2 ^ 63"

definition history_item :: "db \<Rightarrow> history_row \<Rightarrow> json" where
  "history_item d r = (case map_entry r of Inl _ \<Rightarrow> JNull | Inr e \<Rightarrow> history_dto e)"

text \<open>A history read on the primary, every query of it in the environment.\<close>

definition ask_history :: "uuid \<Rightarrow> history_request \<Rightarrow> env \<Rightarrow> nat \<Rightarrow> string option \<Rightarrow> db \<Rightarrow> (exn + json) \<times> db" where
  "ask_history u q env limit c d =
     list_history u (q\<lparr>hq_limit := limit, hq_cursor := c\<rparr>) (\<lambda>_. None) None env (\<lambda>_. env) (\<lambda>_. env) d"

lemma in_history_filters [simp]:
  "in_history (history_filters_of i (q\<lparr>hq_limit := l, hq_cursor := r\<rparr>) c) = in_history (history_filters_of i q None)"
  by (simp add: in_history_def history_filters_of_def fun_eq_iff)

lemma history_filter_fields:
  "hf_min (history_filters_of i q c) = map_option big_int (hq_min q)" "hf_max (history_filters_of i q c) = map_option big_int (hq_max q)"
  "hf_limit (history_filters_of i q c) = hq_limit q + 1" "hf_cursor (history_filters_of i q c) = c"
  by (simp_all add: history_filters_of_def)

lemma shown_entry:
  assumes "ledger_ok d" and "serials d" and "x \<in> set (history_rows d)"
    and "length (entries_t d) < 2 ^ 63"
  shows "fst x \<in> set (entries_t d)" "e_id (fst x) < 2 ^ 63"
proof -
  obtain g where "history_rows d = map (\<lambda>e. (e, g e)) (entries_t d)" using history_rows_entries [OF assms(1)] by blast
  with assms(3) show e: "fst x \<in> set (entries_t d)" by auto
  from serial_bound [OF assms(2) this assms(4)] show "e_id (fst x) < 2 ^ 63" .
qed

lemma map_entry_readable:
  assumes "four_digit_year (e_created_at (fst x))"
  shows "\<exists>y. map_entry x = Inr y \<and> he_created_at_raw y = pg_text (fst (history_key x)) \<and> he_id y = serial_text (snd (history_key x))"
  using assms
  by (cases x) (auto simp: map_entry_def as_pg_timestamp_def is_pg_timestamp_text to_date_text history_key_def serial_text_def)

lemma tx_map_entries:
  assumes "\<And>x. x \<in> set xs \<Longrightarrow> map_entry x = Inr (g x)"
  shows "tx_map (\<lambda>r. from_sum (map_entry r)) xs env s = (Inr (map g xs), s)"
  using assms by (induction xs arbitrary: s) (simp_all add: eval_simps)

lemma decode_serial_position:
  assumes "position serial_text ks c k" and "\<forall>(t, i)\<in>ks. four_digit_year t \<and> i < 2 ^ 63"
  shows "\<exists>x. decode_cursor c = Inr x \<and> serial_cursor x = Inr k"
proof (cases k)
  case None
  with assms(1) show ?thesis by (simp add: position_def decode_cursor_def serial_cursor_def)
next
  case (Some p)
  with assms have p: "four_digit_year (fst p)" "snd p < 2 ^ 63" "c = Some (cursor_at serial_text p)"
    by (auto simp: position_def split_beta)
  have n: "serial_text (snd p) = nat_text (snd p)" by (simp add: serial_text_def int_text_def)
  have "snd p < 10 ^ 19" using p(2) by simp
  note d = decode_encode_serial [OF p(1) this]
  have "int8_range (int (snd p))" using p(2) by (simp add: int8_range_def)
  then have "cast_bigint (serial_text (snd p)) = Inr (int (snd p))" by (simp add: cast_bigint_def serial_text_def)
  then have "serial_cursor (Some \<lparr>cur_created_at = pg_text (fst p), cur_id = nat_text (snd p)\<rparr>) = Inr k"
    using Some p(1) by (simp add: serial_cursor_def cast_timestamp_def pg_parse_text n)
  then show ?thesis unfolding p(3) cursor_at_def n d by simp
qed

interpretation history: cursor_listing history_key "shown_rows u q" "history_readable u q env" serial_text history_item "ask_history u q env"
  for u q env
proof
  show "distinct (map history_key (shown_rows u q d))" if ok: "history_readable u q env d" for d
  proof -
    obtain g where g: "history_rows d = map (\<lambda>e. (e, g e)) (entries_t d)"
      using history_rows_entries ok unfolding history_readable_def by blast
    have "distinct (map (\<lambda>x. e_id (fst x)) (history_rows d))"
      using serials_keyed [of d] ok unfolding g by (simp add: history_readable_def keyed_def comp_def)
    then have "distinct (map (\<lambda>x. e_id (fst x)) (shown_rows u q d))"
      by (auto simp: shown_rows_def distinct_map_filter split: option.split)
    moreover have "(\<lambda>x. e_id (fst x)) = snd \<circ> history_key" by (auto simp: history_key_def)
    ultimately show ?thesis by (simp add: distinct_map comp_inj_on_iff inj_on_imageI2 flip: map_map)
  qed
  show "\<exists>page. ask_history u q env limit c d = (Inr page, d) \<and>
      page_shows serial_text history_key (history_item d) limit (keyset_query history_key k (limit + 1) (shown_rows u q d)) page"
    if ok: "history_readable u q env d" and l: "0 < limit" and p: "position serial_text (history_key ` set (shown_rows u q d)) c k" for d limit c k
  proof -
    obtain a where a: "find_account_by_user_id u d = Some a" using ok by (auto simp: history_readable_def)
    let ?q = "q\<lparr>hq_limit := limit, hq_cursor := c\<rparr>"
    have sub: "set (shown_rows u q d) \<subseteq> set (history_rows d)" by (auto simp: shown_rows_def split: option.splits)
    have row: "four_digit_year (e_created_at (fst x)) \<and> e_id (fst x) < 2 ^ 63" if "x \<in> set (history_rows d)" for x
      using shown_entry [OF _ _ that] ok by (auto simp: history_readable_def)
    have "\<forall>(t, i)\<in>history_key ` set (shown_rows u q d). four_digit_year t \<and> i < 2 ^ 63"
      using row sub by (fastforce simp: history_key_def)
    from decode_serial_position [OF p this] obtain x where x: "decode_cursor c = Inr x" "serial_cursor x = Inr k" by blast
    let ?ks = "keyset_query history_key k (limit + 1) (shown_rows u q d)"
    let ?fn = "list_history_rows (history_filters_of (a_id a) ?q x)"
    have mem: "r \<in> set (history_rows d)" if "r \<in> set ?ks" for r
      using subsetD [OF sub] in_set_takeD [OF that [unfolded keyset_query_def]] by simp
    have "\<forall>r\<in>set ?ks. \<exists>y. map_entry r = Inr y \<and> he_created_at_raw y = pg_text (fst (history_key r)) \<and> he_id y = serial_text (snd (history_key r))"
      using map_entry_readable row mem by blast
    then obtain g where g: "\<And>r. r \<in> set ?ks \<Longrightarrow> map_entry r = Inr (g r)"
        "\<And>r. r \<in> set ?ks \<Longrightarrow> he_created_at_raw (g r) = pg_text (fst (history_key r)) \<and> he_id (g r) = serial_text (snd (history_key r))"
      by metis
    have m: "tx_map (\<lambda>r. from_sum (map_entry r)) ?ks env s = (Inr (map g ?ks), s)" for s
      by (rule tx_map_entries) (rule g(1))
    have shown: "filter (in_history (history_filters_of (a_id a) q None)) (history_rows d) = shown_rows u q d"
      by (simp add: shown_rows_def a)
    have fits: "bounds_fit (history_filters_of (a_id a) ?q x)"
      using ok by (simp add: bounds_fit_def history_filter_fields history_readable_def)
    have "\<exists>s. ?fn env (begin_state d) = (Inr (map g ?ks), s) \<and> \<not> aborted s \<and> data s = d"
      using ok m x(2) fits by (simp add: list_history_rows_def eval_simps history_readable_def reliable_def shown history_filter_fields)
    then obtain s where s: "?fn env (begin_state d) = (Inr (map g ?ks), s)" "\<not> aborted s" "data s = d" by blast
    have "read_transact ?fn (\<lambda>_. env) d = (Inr (map g ?ks, hooks s), d)"
      by (rule read_transact_reliable [where fn = ?fn and envs = "\<lambda>_. env", OF _ s(1,2), unfolded s(3)])
        (use ok in \<open>simp add: history_readable_def\<close>)
    then have "with_routed_read ?fn (Some u) (\<lambda>_. None) None (\<lambda>_. env) (\<lambda>_. env) d = (Inr (map g ?ks, Primary), d)"
      by (simp add: with_routed_read_def on_primary_def)
    moreover have "pool_query (\<lambda>_ d. Inr (find_account_by_user_id u d, d)) env d = (Inr (Some a), d)"
      by (rule pool_query_reliable) (use ok a in \<open>simp_all add: history_readable_def\<close>)
    moreover have "\<not> window_reversed ?q" using ok by (simp add: history_readable_def window_reversed_def)
    ultimately have r: "ask_history u q env limit c d = (Inr (history_page (map g ?ks) limit Primary), d)"
      using x(1) by (simp add: ask_history_def list_history_def)
    obtain items c' where t: "to_page he_created_at_raw he_id (map g ?ks) limit = (items, c')" by fastforce
    have page: "history_page (map g ?ks) limit Primary = JObj [(''items'', JArr (map history_dto items)), (''nextCursor'', jopt c'),
        (''servedBy'', JStr ''primary'')]"
      unfolding history_page_def t by (simp add: served_by_text_def)
    have "page_shows serial_text history_key (history_item d) limit ?ks (history_page (map g ?ks) limit Primary)"
      unfolding page by (rule to_page_shows [OF t _ _ _ l, where view = history_dto])
        (use g in \<open>simp_all add: history_item_def\<close>)
    with r show ?thesis by blast
  qed
qed

section \<open>Every entry once\<close>

lemma insort_key_map: "insort_key f (g x) (map g xs) = map g (insort_key (\<lambda>x. f (g x)) x xs)"
  by (induction xs) simp_all

lemma descending_map: "descending key (map g xs) = map g (descending (\<lambda>x. key (g x)) xs)"
proof -
  have "sort_key key (map g xs) = map g (sort_key (\<lambda>x. key (g x)) xs)"
    by (induction xs) (simp_all add: insort_key_map)
  then show ?thesis by (simp add: descending_def rev_map)
qed

definition entry_key :: "entry_row \<Rightarrow> row_key" where
  "entry_key e = (e_created_at e, e_id e)"

definition unfiltered :: "history_request \<Rightarrow> bool" where
  "unfiltered q \<longleftrightarrow> hq_direction q = None \<and> hq_type q = None \<and> hq_from q = None \<and> hq_to q = None \<and>
     hq_min q = None \<and> hq_max q = None \<and> hq_phone q = None"

lemma history_item_id:
  assumes "four_digit_year (e_created_at (fst x))"
  shows "jget ''id'' (history_item d x) = JStr (serial_text (e_id (fst x)))"
proof -
  obtain y where "map_entry x = Inr y" "he_id y = serial_text (snd (history_key x))"
    using map_entry_readable [OF assms] by blast
  then show ?thesis by (cases x) (simp add: history_item_def history_dto_def history_key_def)
qed

text \<open>
  C30. The history shows every movement of an account exactly once: a user who follows the cursors of
  the unfiltered history gets, whatever the page size, one item for each ledger entry of the account, in
  descending order of time and serial number, and no other item; and the pages end.
\<close>

theorem history_shows_every_entry:
  assumes "reachable d" and "reliable env" and "find_account_by_user_id u d = Some a" and "unfiltered q" and "0 < hq_limit q"
    and "\<forall>e\<in>set (entries_t d). four_digit_year (e_created_at e)" and "length (entries_t d) < 2 ^ 63"
  shows "\<exists>items. walk (Suc (length (entries_t d)))
      (\<lambda>c. fst (list_history u (q\<lparr>hq_cursor := c\<rparr>) (\<lambda>_. None) None env (\<lambda>_. env) (\<lambda>_. env) d)) None = Some items \<and>
    map (jget ''id'') items =
      map (\<lambda>e. JStr (serial_text (e_id e))) (descending entry_key (filter (\<lambda>e. e_account_id e = a_id a) (entries_t d)))"
proof -
  have ok: "ledger_ok d" "serials d" using books.always numbered.always assms(1) by blast+
  then have r: "history_readable u q env d"
    using assms by (simp add: history_readable_def unfiltered_def window_reversed_def opt_all_def)
  obtain g where g: "history_rows d = map (\<lambda>e. (e, g e)) (entries_t d)" using history_rows_entries [OF ok(1)] by blast
  have "in_history (history_filters_of (a_id a) q None) (e, g e) \<longleftrightarrow> e_account_id e = a_id a" for e
    using assms(4) by (cases "g e") (simp add: in_history_def history_filters_of_def unfiltered_def opt_all_def)
  then have rows: "shown_rows u q d = map (\<lambda>e. (e, g e)) (filter (\<lambda>e. e_account_id e = a_id a) (entries_t d))"
    by (simp add: shown_rows_def assms(3) g filter_map comp_def)
  have "(\<lambda>e. history_key (e, g e)) = entry_key" by (auto simp: history_key_def entry_key_def split: prod.split)
  then have desc: "descending history_key (shown_rows u q d) =
      map (\<lambda>e. (e, g e)) (descending entry_key (filter (\<lambda>e. e_account_id e = a_id a) (entries_t d)))"
    unfolding rows descending_map by simp
  have l: "length (shown_rows u q d) < Suc (length (entries_t d))" by (simp add: rows less_Suc_eq_le)
  have "map (jget ''id'') (map (history_item d) (descending history_key (shown_rows u q d))) =
      map (\<lambda>e. JStr (serial_text (e_id e))) (descending entry_key (filter (\<lambda>e. e_account_id e = a_id a) (entries_t d)))"
    unfolding desc using assms(6) history_item_id [of "(e, g e)" d for e] by simp
  with history.walk_all [OF r assms(5) l] show ?thesis by (simp add: ask_history_def)
qed

lemma history_shows_every_entry_witness:
  "\<exists>d items. reachable d \<and> walk (Suc (length (entries_t d)))
      (\<lambda>c. fst (list_history 9 \<lparr>hq_direction = None, hq_type = None, hq_from = None, hq_to = None, hq_min = None, hq_max = None,
         hq_phone = None, hq_limit = 1, hq_cursor = c\<rparr> (\<lambda>_. None) None env0 (\<lambda>_. env0) (\<lambda>_. env0) d)) None = Some items"
proof -
  obtain d where d: "reachable d" "started d" using started_world by blast
  let ?q = "\<lparr>hq_direction = None, hq_type = None, hq_from = None, hq_to = None, hq_min = None, hq_max = None,
         hq_phone = None, hq_limit = 1, hq_cursor = None\<rparr>"
  have a: "find_account_by_user_id 9 d = Some (bump 10000000 (new_account_row 10 9))"
    using d(2) by (simp add: started_def find_account_by_user_id_def new_account_row_def treasury_row_def)
  have "\<forall>e\<in>set (entries_t d). four_digit_year (e_created_at e)" "length (entries_t d) < 2 ^ 63"
  proof -
    have t: "map e_created_at (entries_t d) = [1767225600000000, 1767225600000000, 1767225600000000, 1767225600000000]"
      using d(2) by (simp add: started_def)
    then have "e_created_at e = 1767225600000000" if "e \<in> set (entries_t d)" for e
      using that arg_cong [OF t, of set] by auto
    then show "\<forall>e\<in>set (entries_t d). four_digit_year (e_created_at e)"
      by (simp add: four_digit_year_def year_of_day_def day_from_year_def Let_def)
    show "length (entries_t d) < 2 ^ 63" using arg_cong [OF t, of length] by simp
  qed
  from history_shows_every_entry [OF d(1) env0_simps(13) a _ _ this, of ?q] d(1)
  show ?thesis by (auto simp: unfiltered_def)
qed

end
