(* ===== verification/References.thy ===== *)
theory References
  imports Paging
begin

text \<open>
  Transfer references: their form, their uniqueness, and the day a reference names. The form is a type
  invariant of the table, together with the other constraints on the rows of the ledger.
\<close>

section \<open>The form\<close>

text \<open>\<open>/^TF\<backslash>d{6}[0-9A-Z]{8}$/\<close>.\<close>

definition reference_form :: "string \<Rightarrow> bool" where
  "reference_form s \<longleftrightarrow> length s = 16 \<and> take 2 s = ''TF'' \<and> list_all is_digit (take 6 (drop 2 s)) \<and>
     list_all is_ref_char (drop 8 s)"


lemma base32_ref_char: "list_all is_ref_char BASE32"
  by (simp add: BASE32_def is_ref_char_def is_digit_def)

lemma reference_char_form: "is_ref_char (reference_char bytes i)"
proof -
  have "length BASE32 = 32" by (simp add: BASE32_def)
  then show ?thesis using base32_ref_char by (simp add: reference_char_def Let_def list_all_length)
qed

lemma two_digits:
  assumes "0 \<le> n" and "n < 100"
  shows "length (pad_start 2 (int_text n)) = 2" "list_all is_digit (pad_start 2 (int_text n))"
    "digits_val (pad_start 2 (int_text n)) = nat n"
proof -
  have t: "int_text n = nat_text (nat n)" using assms(1) by (simp add: int_text_def)
  have l: "length (nat_text (nat n)) \<le> 2" by (rule length_nat_text_le) (use assms(2) in simp_all)
  show "length (pad_start 2 (int_text n)) = 2" unfolding t by (rule length_pad_start [OF l])
  show "list_all is_digit (pad_start 2 (int_text n))" unfolding t by (rule pad_start_digits) (rule nat_text_digits)
  show "digits_val (pad_start 2 (int_text n)) = nat n" unfolding t by (simp add: pad_start_def digits_val_append)
qed

lemma generated_parts:
  obtains y m k A B C W where "civil (t div 86400000) = (y, m, k)"
    "generate_reference t bytes = ''TF'' @ A @ B @ C @ W" "length W = 8" "list_all is_ref_char W"
    "length A = 2" "length B = 2" "length C = 2" "list_all is_digit A" "list_all is_digit B" "list_all is_digit C"
    "digits_val A = nat (y mod 100)" "digits_val B = nat (m + 1)" "digits_val C = nat k" "0 \<le> m" "m < 12" "1 \<le> k"
proof -
  obtain y m k where c: "civil (t div 86400000) = (y, m, k)" using prod_cases3 by blast
  from civil_range [OF c] have r: "0 \<le> m" "m < 12" "1 \<le> k" "k \<le> 31"
    using month_len_bounds [of m "leap y"] by auto
  show thesis
    by (rule that [OF c, of "pad_start 2 (int_text (y mod 100))" "pad_start 2 (int_text (m + 1))" "pad_start 2 (int_text k)"
          "map (reference_char bytes) [0..<8]"])
      (use r c two_digits [of "y mod 100"] two_digits [of "m + 1"] two_digits [of k] in \<open>auto simp: generate_reference_def list_all_iff reference_char_form simp del: upt_Suc\<close>)
qed

lemma generated_form: "reference_form (generate_reference t bytes)"
proof -
  obtain y m k A B C W where g: "generate_reference t bytes = ''TF'' @ A @ B @ C @ W" "length W = 8" "list_all is_ref_char W"
    "length A = 2" "length B = 2" "length C = 2" "list_all is_digit A" "list_all is_digit B" "list_all is_digit C"
    by (rule generated_parts [of t bytes])
  show ?thesis unfolding reference_form_def g(1) using g(2-) by simp
qed

lemma century:
  assumes "10957 \<le> d" and "d < 47482"
  shows "2000 + year_of_day d mod 100 = year_of_day d"
proof -
  let ?y = "year_of_day d"
  note b = year_of_day_bounds [of d]
  have "2000 \<le> ?y"
  proof (rule ccontr)
    assume "\<not> 2000 \<le> ?y"
    then have "day_from_year (?y + 1) \<le> day_from_year 2000" by (intro day_from_year_mono) linarith
    then show False using b assms by (simp add: day_from_year_def [of 2000])
  qed
  moreover have "?y < 2100"
  proof (rule ccontr)
    assume "\<not> ?y < 2100"
    then have "day_from_year 2100 \<le> day_from_year ?y" by (intro day_from_year_mono) linarith
    then show False using b assms by (simp add: day_from_year_def [of 2100])
  qed
  ultimately have "?y mod 100 = ?y - 2000"
    by (intro int_mod_pos_eq [where q = 20]) linarith+
  then show ?thesis by simp
qed

lemma range_of_parts:
  assumes "reference_form s" and "s = ''TF'' @ A @ B @ C @ W" and "length A = 2" "length B = 2" "length C = 2"
    and "make_day (2000 + int (digits_val A)) (int (digits_val B) - 1) (int (digits_val C)) = n"
  shows "reference_date_range s = Some (n * 86400000, n * 86400000 + 86400000)"
proof -
  have "take 2 (drop 2 s) = A" "take 2 (drop 4 s) = B" "take 2 (drop 6 s) = C" using assms(2-5) by simp_all
  then show ?thesis using assms(1,6) by (simp add: reference_date_range_def reference_form_def Let_def)
qed

text \<open>
  C29. A reference names its day: from 2000 to 2099, the range of creation times that the lookup by a generated
  reference searches is exactly the UTC day the reference was generated on.
\<close>

theorem reference_names_its_day:
  assumes "946684800000 \<le> t" and "t < 4102444800000"
  shows "reference_date_range (generate_reference t bytes) =
    Some (t div 86400000 * 86400000, t div 86400000 * 86400000 + 86400000)"
proof -
  obtain y m k A B C W where c: "civil (t div 86400000) = (y, m, k)"
    and g: "generate_reference t bytes = ''TF'' @ A @ B @ C @ W" "length A = 2" "length B = 2" "length C = 2"
    and v: "digits_val A = nat (y mod 100)" "digits_val B = nat (m + 1)" "digits_val C = nat k" "0 \<le> m" "m < 12" "1 \<le> k"
    by (rule generated_parts [of t bytes])
  have y: "y = year_of_day (t div 86400000)" using c by (simp add: civil_def Let_def)
  have "2000 + y mod 100 = y" unfolding y by (rule century) (use assms in simp_all)
  then have "make_day (2000 + int (digits_val A)) (int (digits_val B) - 1) (int (digits_val C)) = t div 86400000"
    using v make_day_civil [OF c] by simp
  from range_of_parts [OF generated_form g this] show ?thesis by simp
qed

lemma reference_names_its_day_witness:
  "\<exists>s. generate_reference 1767225600000 (random env0) = s \<and> reference_date_range s = Some (1767225600000, 1767312000000)"
  using reference_names_its_day [of 1767225600000 "random env0"] by simp

section \<open>The rows\<close>













end
