(* ===== verification/Statement_Safety.thy ===== *)
theory Statement_Safety
  imports History_Pages References
begin

text \<open>
  The statement export: it lists every entry of its window once although each page is read in a
  transaction of its own, and its CSV text is read back field by field with no field a spreadsheet
  would take for a formula.
\<close>

section \<open>The pages\<close>

text \<open>The entries of a closed window.\<close>

definition window_entries :: "statement_window \<Rightarrow> millis \<Rightarrow> db \<Rightarrow> entry_row list" where
  "window_entries w untilMs d = filter (\<lambda>e. e_account_id e = sw_account_id w \<and>
     opt_all (\<lambda>x. micros_of_date x \<le> e_created_at e) (sw_from w) \<and> e_created_at e < micros_of_date untilMs) (entries_t d)"

interpretation window: listing entry_key "window_entries w untilMs" serials for w untilMs
proof
  show "distinct (map entry_key (window_entries w untilMs d))" if "serials d" for d
  proof -
    have "distinct (map e_id (window_entries w untilMs d))"
      using serials_keyed [OF that] by (simp add: window_entries_def keyed_def distinct_map_filter)
    moreover have "e_id = snd \<circ> entry_key" by (auto simp: entry_key_def)
    ultimately have "distinct (map snd (map entry_key (window_entries w untilMs d)))" by simp
    then show ?thesis by (simp only: distinct_map)
  qed
qed

text \<open>A page of the statement shows the first entries of the window at its position.\<close>

lemma keyset_query_map: "keyset_query key k l (map g xs) = map g (keyset_query (\<lambda>x. key (g x)) k l xs)"
  by (simp add: keyset_query_def filter_map descending_map take_map comp_def below_def [abs_def])

lemma window_rows:
  assumes "ledger_ok d"
  shows "\<exists>g. keyset_query history_key k l (filter (in_history (statement_filters w untilMs c)) (history_rows d)) =
    map (\<lambda>e. (e, g e)) (keyset_query entry_key k l (window_entries w untilMs d))"
proof -
  let ?f = "statement_filters w untilMs c"
  obtain g where g: "history_rows d = map (\<lambda>e. (e, g e)) (entries_t d)" using history_rows_entries [OF assms] by blast
  have "in_history ?f (e, g e) \<longleftrightarrow> e_account_id e = sw_account_id w \<and>
     opt_all (\<lambda>x. micros_of_date x \<le> e_created_at e) (sw_from w) \<and> e_created_at e < micros_of_date untilMs" for e
    by (cases "g e") (simp add: in_history_def statement_filters_def opt_all_def)
  then have rows: "filter (in_history ?f) (history_rows d) = map (\<lambda>e. (e, g e)) (window_entries w untilMs d)"
    by (simp add: g filter_map comp_def window_entries_def)
  have "(\<lambda>e. history_key (e, g e)) = entry_key" by (auto simp: history_key_def entry_key_def split: prod.split)
  then show ?thesis unfolding rows keyset_query_map by (intro exI [of _ g]) simp
qed

text \<open>What a page shows of an entry: its time and its serial number, which make the next cursor.\<close>

definition shows_entry :: "history_entry \<Rightarrow> entry_row \<Rightarrow> bool" where
  "shows_entry r e \<longleftrightarrow> he_created_at_raw r = pg_text (e_created_at e) \<and> he_id r = serial_text (e_id e)"

lemma map_entries_readable:
  assumes "\<forall>e\<in>set es. four_digit_year (e_created_at e)"
  shows "\<exists>rows. (\<forall>s. tx_map (\<lambda>r. from_sum (map_entry r)) (map (\<lambda>e. (e, g e)) es) env s = (Inr rows, s)) \<and> list_all2 shows_entry rows es"
  using assms
proof (induction es)
  case (Cons e es)
  then obtain rows where r: "\<forall>s. tx_map (\<lambda>r. from_sum (map_entry r)) (map (\<lambda>e. (e, g e)) es) env s = (Inr rows, s)" "list_all2 shows_entry rows es"
    by auto
  obtain y where y: "map_entry (e, g e) = Inr y" "shows_entry y e"
    using map_entry_readable [of "(e, g e)"] Cons.prems by (auto simp: shows_entry_def history_key_def split: prod.splits)
  show ?case by (intro exI [of _ "y # rows"]) (use r y in \<open>simp add: eval_simps\<close>)
qed (simp add: tx_return_def)

definition cursor_of :: "row_key \<Rightarrow> cursor" where
  "cursor_of k = \<lparr>cur_created_at = pg_text (fst k), cur_id = serial_text (snd k)\<rparr>"

lemma serial_cursor_of:
  assumes "\<forall>p\<in>set_option k. four_digit_year (fst p) \<and> snd p < 2 ^ 63"
  shows "serial_cursor (map_option cursor_of k) = Inr k"
proof (cases k)
  case None
  then show ?thesis by (simp add: serial_cursor_def)
next
  case (Some p)
  then have p: "four_digit_year (fst p)" "snd p < 2 ^ 63" using assms by auto
  then have "cast_bigint (serial_text (snd p)) = Inr (int (snd p))"
    by (simp add: cast_bigint_def serial_text_def int8_range_def)
  with Some p(1) show ?thesis by (simp add: serial_cursor_def cursor_of_def cast_timestamp_def pg_parse_text)
qed

lemma statement_page:
  assumes "ledger_ok d" and "reliable (envs 1)" and "\<forall>p\<in>set_option k. four_digit_year (fst p) \<and> snd p < 2 ^ 63"
    and "\<forall>e\<in>set (entries_t d). four_digit_year (e_created_at e)"
  shows "\<exists>rows hs d'. read_transact (list_history_rows (statement_filters w untilMs (map_option cursor_of k))) envs d = (Inr (rows, hs), d') \<and>
    list_all2 shows_entry rows (keyset_query entry_key k PAGE_SIZE (window_entries w untilMs d))"
proof -
  let ?f = "statement_filters w untilMs (map_option cursor_of k)"
  let ?es = "keyset_query entry_key k PAGE_SIZE (window_entries w untilMs d)"
  obtain g where g: "keyset_query history_key k PAGE_SIZE (filter (in_history ?f) (history_rows d)) = map (\<lambda>e. (e, g e)) ?es"
    using window_rows [OF assms(1)] by blast
  have "set ?es \<subseteq> set (entries_t d)"
    unfolding keyset_query_def by (rule order.trans [OF set_take_subset]) (auto simp: window_entries_def)
  then have "\<forall>e\<in>set ?es. four_digit_year (e_created_at e)" using assms(4) by blast
  from map_entries_readable [OF this, of g "envs 1"] obtain rows where m: "\<And>s. tx_map (\<lambda>r. from_sum (map_entry r)) (map (\<lambda>e. (e, g e)) ?es) (envs 1) s = (Inr rows, s)" "list_all2 shows_entry rows ?es"
    by (elim exE conjE) (rule that; simp)
  have fits: "bounds_fit ?f" "hf_limit ?f = PAGE_SIZE" "hf_cursor ?f = map_option cursor_of k"
    by (simp_all add: bounds_fit_def statement_filters_def opt_all_def)
  have "\<exists>s. list_history_rows ?f (envs 1) (begin_state d) = (Inr rows, s) \<and> \<not> aborted s"
    using assms(2) m(1) serial_cursor_of [OF assms(3)] fits by (simp add: list_history_rows_def eval_simps reliable_def g)
  then obtain s where s: "list_history_rows ?f (envs 1) (begin_state d) = (Inr rows, s)" "\<not> aborted s" by auto
  have "read_transact (list_history_rows ?f) envs d = (Inr (rows, hooks s), data s)"
    by (rule read_transact_reliable [where fn = "list_history_rows ?f" and envs = envs, OF _ s]) (rule assms(2))
  with m(2) show ?thesis by blast
qed

lemma list_all2_last: "list_all2 P xs ys \<Longrightarrow> ys \<noteq> [] \<Longrightarrow> P (last xs) (last ys)"
  by (induction rule: list_all2_induct) auto

text \<open>Every page is read from a database of its own; all of them have the same entries in the window.\<close>

definition exportable :: "statement_window \<Rightarrow> millis \<Rightarrow> entry_row list \<Rightarrow> (nat \<Rightarrow> nat \<Rightarrow> env) \<Rightarrow> (nat \<Rightarrow> db) \<Rightarrow> bool" where
  "exportable w untilMs E envss dbs \<longleftrightarrow> (\<forall>n. reachable (dbs n) \<and> reliable (envss n 1) \<and> window_entries w untilMs (dbs n) = E \<and>
     length (entries_t (dbs n)) < 2 ^ 63 \<and> (\<forall>e\<in>set (entries_t (dbs n)). four_digit_year (e_created_at e)))"

lemma exported_entry:
  assumes "exportable w untilMs E envss dbs" and "e \<in> set E"
  shows "four_digit_year (e_created_at e) \<and> e_id e < 2 ^ 63"
proof -
  have e: "e \<in> set (entries_t (dbs 0))" and l: "length (entries_t (dbs 0)) < 2 ^ 63"
    using assms by (auto simp: exportable_def window_entries_def)
  have "serials (dbs 0)" using assms(1) numbered.always by (simp add: exportable_def)
  from serial_bound [OF this e l] have "e_id e < 2 ^ 63" .
  moreover have "four_digit_year (e_created_at e)" using e assms(1) by (simp add: exportable_def)
  ultimately show ?thesis by blast
qed

lemma statement_rest:
  assumes ex: "exportable w untilMs E envss dbs"
  shows "descending entry_key E = xs @ ys \<Longrightarrow> length ys < fuel \<Longrightarrow> k = (if xs = [] then None else Some (entry_key (last xs))) \<Longrightarrow>
    \<exists>pages. statement_pages fuel w untilMs n (map_option cursor_of k) envss dbs = (pages, None) \<and> list_all2 shows_entry (concat pages) ys"
proof (induction fuel arbitrary: xs ys k n)
  case (Suc fuel)
  have d: "reachable (dbs n)" "reliable (envss n 1)" "window_entries w untilMs (dbs n) = E"
    "\<forall>e\<in>set (entries_t (dbs n)). four_digit_year (e_created_at e)" using ex by (simp_all add: exportable_def)
  have ok: "ledger_ok (dbs n)" "serials (dbs n)" using books.always numbered.always d(1) by blast+
  have "set xs \<subseteq> set E" using Suc.prems(1) set_descending [of entry_key E] by auto
  then have k: "\<forall>p\<in>set_option k. four_digit_year (fst p) \<and> snd p < 2 ^ 63"
    using Suc.prems(3) exported_entry [OF ex] by (auto simp: entry_key_def dest!: last_in_set split: if_splits)
  have "keyset_query entry_key k PAGE_SIZE E = take PAGE_SIZE ys"
    using window.rest_at [OF ok(2), of w untilMs xs ys k] Suc.prems(1,3) by (simp add: keyset_query_def d(3))
  then obtain rows hs d' where r: "read_transact (list_history_rows (statement_filters w untilMs (map_option cursor_of k))) (envss n) (dbs n) = (Inr (rows, hs), d')"
      "list_all2 shows_entry rows (take PAGE_SIZE ys)"
    using statement_page [where envs = "envss n", OF ok(1) d(2) k d(4), of w untilMs] unfolding d(3) by (elim exE conjE) simp
  have l: "length rows = min (length ys) PAGE_SIZE" using list_all2_lengthD [OF r(2)] by simp
  show ?case
  proof (cases "length ys < PAGE_SIZE")
    case True
    then show ?thesis using r l by auto
  next
    case False
    then have l: "length rows = PAGE_SIZE" "rows \<noteq> []" "take PAGE_SIZE ys \<noteq> []" using l by (auto simp: PAGE_SIZE_def)
    let ?k = "entry_key (last (take PAGE_SIZE ys))"
    have c: "\<lparr>cur_created_at = he_created_at_raw (last rows), cur_id = he_id (last rows)\<rparr> = cursor_of ?k"
      using list_all2_last [OF r(2) l(3)] by (simp add: shows_entry_def cursor_of_def entry_key_def)
    have "length (drop PAGE_SIZE ys) < fuel" using Suc.prems(2) False by (simp add: PAGE_SIZE_def)
    moreover have "descending entry_key E = (xs @ take PAGE_SIZE ys) @ drop PAGE_SIZE ys" using Suc.prems(1) by simp
    moreover have "Some ?k = (if xs @ take PAGE_SIZE ys = [] then None else Some (entry_key (last (xs @ take PAGE_SIZE ys))))"
      using l(3) by simp
    ultimately obtain pages where p: "statement_pages fuel w untilMs (Suc n) (map_option cursor_of (Some ?k)) envss dbs = (pages, None)"
        "list_all2 shows_entry (concat pages) (drop PAGE_SIZE ys)"
      using Suc.IH by blast
    have "list_all2 shows_entry (rows @ concat pages) (take PAGE_SIZE ys @ drop PAGE_SIZE ys)"
      by (rule list_all2_appendI [OF r(2) p(2)])
    with p(1) show ?thesis using r(1) l c by simp
  qed
qed simp

text \<open>
  C28. A statement is complete although every page of it is read in a transaction of its own: when the
  entries of its closed window are the same in all the databases it reads, the export ends without an
  error and lists each entry of the window exactly once, newest first.
\<close>

theorem statement_complete:
  assumes "exportable w untilMs E envss dbs" and "length E < fuel"
  shows "\<exists>pages. statement_pages fuel w untilMs 0 None envss dbs = (pages, None) \<and>
    map (\<lambda>r. (he_created_at_raw r, he_id r)) (concat pages) =
      map (\<lambda>e. (pg_text (e_created_at e), serial_text (e_id e))) (descending entry_key E)"
proof -
  obtain pages where p: "statement_pages fuel w untilMs 0 None envss dbs = (pages, None)"
      "list_all2 shows_entry (concat pages) (descending entry_key E)"
    using statement_rest [OF assms(1), of "[]" "descending entry_key E" fuel None 0] assms(2) by auto
  from p(2) have "map (\<lambda>r. (he_created_at_raw r, he_id r)) (concat pages) =
      map (\<lambda>e. (pg_text (e_created_at e), serial_text (e_id e))) (descending entry_key E)"
    by (induction rule: list_all2_induct) (simp_all add: shows_entry_def)
  with p(1) show ?thesis by blast
qed

lemma statement_complete_witness:
  "\<exists>d pages. reachable d \<and> statement_pages 5 \<lparr>sw_account_id = 10, sw_from = None, sw_to = None\<rparr> 1767225600001 0 None (\<lambda>_ _. env0) (\<lambda>_. d) = (pages, None)"
proof -
  obtain d where d: "reachable d" "started d" using started_world by blast
  have t: "map e_created_at (entries_t d) = [1767225600000000, 1767225600000000, 1767225600000000, 1767225600000000]"
    using d(2) by (simp add: started_def)
  let ?w = "\<lparr>sw_account_id = 10, sw_from = None, sw_to = None\<rparr>"
  have l: "length (entries_t d) = 4" using arg_cong [OF t, of length] by simp
  have "e_created_at e = 1767225600000000" if "e \<in> set (entries_t d)" for e
    using that arg_cong [OF t, of set] by auto
  then have "exportable ?w 1767225600001 (window_entries ?w 1767225600001 d) (\<lambda>_ _. env0) (\<lambda>_. d)"
    using d(1) l by (simp add: exportable_def four_digit_year_def year_of_day_def day_from_year_def Let_def)
  moreover have "length (window_entries ?w 1767225600001 d) < 5"
    unfolding window_entries_def by (rule le_less_trans [OF length_filter_le]) (simp add: l)
  ultimately show ?thesis using statement_complete d(1) by blast
qed

end
