(* ===== verification/Client.thy ===== *)
theory Client
  imports Json
begin

text \<open>
  \<open>frontend/src/lib/api.ts\<close>: the session of a browser tab, the refresh of its access token, and the
  call that retries once under one idempotency key. The network is a parameter: a function from a
  request and the state of everything beyond the tab to the answer and the state after it.
\<close>

section \<open>Requests, replies, errors\<close>

datatype http_method = GET | POST | PATCH | DELETE

record http_request =
  cq_verb :: http_method
  cq_path :: string
  cq_headers :: "(string \<times> string) list"
  cq_body :: "json option"

text \<open>
  What \<open>parse\<close> makes of a reply: \<open>null\<close> of an empty body, the value of a JSON text, any other text as it is;
  \<open>Unread\<close> when the body does not arrive.
\<close>

datatype reply_text = Empty_Body | Json_Body json | Text_Body string | Unread

record http_reply =
  cr_status :: nat
  cr_status_text :: string
  cr_text :: reply_text

definition is_ok :: "http_reply \<Rightarrow> bool" where
  "is_ok r \<longleftrightarrow> 200 \<le> cr_status r \<and> cr_status r < 300"

text \<open>An \<open>ApiError\<close>, or what \<open>fetch\<close> and \<open>text\<close> throw.\<close>

datatype client_error = Api_Error nat json json json json | Network_Error

definition or_else :: "json \<Rightarrow> json \<Rightarrow> json" where
  "or_else v fallback = (if jnull v then fallback else v)"

definition api_error :: "nat \<Rightarrow> json \<Rightarrow> string \<Rightarrow> client_error" where
  "api_error st body fallback =
     (let e = jget ''error'' body in
      Api_Error st (or_else (jget ''message'' e) (JStr fallback)) (or_else (jget ''code'' e) (JStr ''NETWORK_ERROR''))
        (or_else (jget ''details'' e) (JObj [])) (or_else (jget ''requestId'' e) JNull))"

definition parse_reply :: "http_reply \<Rightarrow> client_error + json" where
  "parse_reply r =
     (case cr_text r of
        Empty_Body \<Rightarrow> Inr JNull
      | Json_Body v \<Rightarrow> Inr v
      | Text_Body t \<Rightarrow> Inr (JStr t)
      | Unread \<Rightarrow> Inl Network_Error)"

type_synonym 'w fetch = "http_request \<Rightarrow> 'w \<Rightarrow> (client_error + http_reply) \<times> 'w"

section \<open>The session of a tab\<close>

text \<open>
  The module's variables, the item in \<open>localStorage\<close>, the number of times \<open>onSessionLost\<close> was called and
  the number of keys minted. A member that is not a text counts as missing: a session's type has texts only.
\<close>

record tab =
  tab_access :: "string option"
  tab_refresh :: "string option"
  tab_stored :: "string option"
  tab_lost :: nat
  tab_minted :: nat

definition set_session :: "json \<Rightarrow> tab \<Rightarrow> tab" where
  "set_session session t =
     (let r = jget ''refreshToken'' session in
      t\<lparr>tab_access := jstr (jget ''accessToken'' session), tab_refresh := jstr r,
        tab_stored := (if jnull session then None
          else Some (case jstr r of Some x \<Rightarrow> x | None \<Rightarrow> if r = JNull then ''null'' else ''undefined''))\<rparr>)"

definition has_stored_session :: "tab \<Rightarrow> bool" where
  "has_stored_session t \<longleftrightarrow> tab_refresh t \<noteq> None"

text \<open>The number of the next key that \<open>crypto.randomUUID\<close> gives; keys are told apart by their number.\<close>

definition new_idempotency_key :: "(nat \<Rightarrow> string) \<Rightarrow> tab \<Rightarrow> string \<times> tab" where
  "new_idempotency_key uuids t = (uuids (tab_minted t), t\<lparr>tab_minted := Suc (tab_minted t)\<rparr>)"

text \<open>A text that is not \<open>null\<close> and not empty.\<close>

definition truthy :: "string option \<Rightarrow> bool" where
  "truthy x \<longleftrightarrow> x \<noteq> None \<and> x \<noteq> Some []"

definition BASE :: string where
  "BASE = ''/api/v1''"

definition refresh_request :: "string \<Rightarrow> http_request" where
  "refresh_request token =
     \<lparr>cq_verb = POST, cq_path = BASE @ ''/auth/refresh'', cq_headers = [(''content-type'', ''application/json'')],
      cq_body = Some (JObj [(''refreshToken'', JStr token)])\<rparr>"

text \<open>\<open>response.json()\<close> throws unless the body arrives and is a JSON text.\<close>

definition session_body :: "http_reply \<Rightarrow> json option" where
  "session_body r = (case cr_text r of Json_Body v \<Rightarrow> Some v | _ \<Rightarrow> None)"

text \<open>What the answer to a refresh makes of the session, and whether it refreshed it.\<close>

definition take_refresh :: "client_error + http_reply \<Rightarrow> tab \<Rightarrow> bool \<times> tab" where
  "take_refresh answer t =
     (case answer of
        Inl _ \<Rightarrow> (False, t)
      | Inr r \<Rightarrow>
          if \<not> is_ok r then (False, t)
          else (case session_body r of None \<Rightarrow> (False, t) | Some s \<Rightarrow> (True, set_session s t)))"

definition refresh_session :: "'w fetch \<Rightarrow> tab \<Rightarrow> 'w \<Rightarrow> bool \<times> tab \<times> 'w" where
  "refresh_session fetch t w =
     (if \<not> truthy (tab_refresh t) then (False, t, w)
      else
        (case fetch (refresh_request (the (tab_refresh t))) w of
           (answer, w') \<Rightarrow> (case take_refresh answer t of (b, t') \<Rightarrow> (b, t', w'))))"

section \<open>A call\<close>

record request_options =
  ro_method :: http_method
  ro_body :: "json option"
  ro_key :: "string option"
  ro_headers :: "(string \<times> string) list"

definition mutating :: "request_options \<Rightarrow> bool" where
  "mutating opts \<longleftrightarrow> ro_method opts \<noteq> GET"

text \<open>Assigning a member of the headers object.\<close>

definition set_header :: "string \<Rightarrow> string \<Rightarrow> (string \<times> string) list \<Rightarrow> (string \<times> string) list" where
  "set_header k v hs = filter (\<lambda>(j, _). j \<noteq> k) hs @ [(k, v)]"

definition request_of :: "string \<Rightarrow> request_options \<Rightarrow> string option \<Rightarrow> tab \<Rightarrow> http_request" where
  "request_of path opts key t =
     \<lparr>cq_verb = ro_method opts, cq_path = BASE @ path,
      cq_headers =
        (let h0 = ro_headers opts;
             h1 = (if ro_body opts = None then h0 else set_header ''content-type'' ''application/json'' h0);
             h2 = (if truthy (tab_access t) then set_header ''authorization'' (''Bearer '' @ the (tab_access t)) h1 else h1)
         in if truthy key then set_header ''idempotency-key'' (the key) h2 else h2),
      cq_body = ro_body opts\<rparr>"

text \<open>The body of a reply, once the session has had its chance: \<open>undefined\<close> for 204.\<close>

definition outcome_of :: "http_reply \<Rightarrow> client_error + json" where
  "outcome_of r =
     (if cr_status r = 204 then Inr JUndef
      else (case parse_reply r of
          Inl e \<Rightarrow> Inl e
        | Inr v \<Rightarrow> if is_ok r then Inr v else Inl (api_error (cr_status r) v (cr_status_text r))))"

definition lose_session :: "tab \<Rightarrow> tab" where
  "lose_session t = (set_session JNull t)\<lparr>tab_lost := Suc (tab_lost t)\<rparr>"

text \<open>An attempt after a refresh, and one that may still refresh.\<close>

definition attempt_again :: "'w fetch \<Rightarrow> string \<Rightarrow> request_options \<Rightarrow> string option \<Rightarrow> tab \<Rightarrow> 'w \<Rightarrow>
    (client_error + json) \<times> tab \<times> 'w" where
  "attempt_again fetch path opts key t w =
     (case fetch (request_of path opts key t) w of
        (Inl e, w') \<Rightarrow> (Inl e, t, w')
      | (Inr r, w') \<Rightarrow> (outcome_of r, t, w'))"

definition attempt_call :: "'w fetch \<Rightarrow> string \<Rightarrow> request_options \<Rightarrow> string option \<Rightarrow> tab \<Rightarrow> 'w \<Rightarrow>
    (client_error + json) \<times> tab \<times> 'w" where
  "attempt_call fetch path opts key t w =
     (case fetch (request_of path opts key t) w of
        (Inl e, w') \<Rightarrow> (Inl e, t, w')
      | (Inr r, w') \<Rightarrow>
          if cr_status r = 401 \<and> truthy (tab_refresh t)
          then (case refresh_session fetch t w' of
              (True, t', w'') \<Rightarrow> attempt_again fetch path opts key t' w''
            | (False, t', w'') \<Rightarrow> (outcome_of r, lose_session t', w''))
          else (outcome_of r, t, w'))"

definition call_retryable :: "string option \<Rightarrow> client_error \<Rightarrow> bool" where
  "call_retryable key e =
     (case e of Network_Error \<Rightarrow> True | Api_Error st _ _ _ _ \<Rightarrow> st = 503 \<and> key \<noteq> None)"

definition api :: "(nat \<Rightarrow> string) \<Rightarrow> 'w fetch \<Rightarrow> string \<Rightarrow> request_options \<Rightarrow> tab \<Rightarrow> 'w \<Rightarrow>
    (client_error + json) \<times> tab \<times> 'w" where
  "api uuids fetch path opts t w =
     (case (if \<not> mutating opts then (None, t)
            else if ro_key opts \<noteq> None then (ro_key opts, t)
            else map_prod Some id (new_idempotency_key uuids t)) of
        (key, t1) \<Rightarrow>
          (case attempt_call fetch path opts key t1 w of
             (Inr v, t2, w') \<Rightarrow> (Inr v, t2, w')
           | (Inl e, t2, w') \<Rightarrow>
               if call_retryable key e then attempt_call fetch path opts key t2 w'
               else (Inl e, t2, w')))"

section \<open>What a call asks of the network\<close>

text \<open>
  Every request of a call keeps a property of the world, when the refreshes do and so does the call's own
  request, whatever access token it carries.
\<close>

definition call_request :: "string \<Rightarrow> request_options \<Rightarrow> string option \<Rightarrow> http_request \<Rightarrow> bool" where
  "call_request path opts key q \<longleftrightarrow> (\<exists>t. q = request_of path opts key t)"

definition keeps_world :: "'w fetch \<Rightarrow> ('w \<Rightarrow> bool) \<Rightarrow> http_request \<Rightarrow> bool" where
  "keeps_world fetch I q \<longleftrightarrow> (\<forall>w r w'. I w \<and> fetch q w = (r, w') \<longrightarrow> I w')"

lemma keeps_world_call:
  assumes c: "\<And>q. call_request path opts key q \<Longrightarrow> keeps_world fetch I q" and f: "\<And>tok. keeps_world fetch I (refresh_request tok)"
    and "attempt_call fetch path opts key t w = (x, t', w')" and "I w"
  shows "I w'"
proof -
  have own: "I w2" if "fetch (request_of path opts key t1) w1 = (r, w2)" "I w1" for t1 w1 r w2
    using c [of "request_of path opts key t1"] that unfolding keeps_world_def call_request_def by blast
  have refresh: "I w2" if "refresh_session fetch t1 w1 = (b, t2, w2)" "I w1" for t1 w1 b t2 w2
    using f [unfolded keeps_world_def] that
    by (auto simp: refresh_session_def split: if_splits prod.splits sum.splits option.splits)
  have again: "I w2" if "attempt_again fetch path opts key t1 w1 = (r, t2, w2)" "I w1" for t1 w1 r t2 w2
    using own that by (auto simp: attempt_again_def split: prod.splits sum.splits)
  obtain r w1 where first: "fetch (request_of path opts key t) w = (r, w1)" by fastforce
  have 1: "I w1" by (rule own [OF first assms(4)])
  show ?thesis
  proof (cases r)
    case (Inl e)
    with assms(3) first 1 show ?thesis by (simp add: attempt_call_def)
  next
    case (Inr rep)
    obtain b t2 w2 where b: "refresh_session fetch t w1 = (b, t2, w2)" by (cases "refresh_session fetch t w1") auto
    have 2: "I w2" by (rule refresh [OF b 1])
    show ?thesis
    proof (cases "cr_status rep = 401 \<and> truthy (tab_refresh t)")
      case False
      with assms(3) first Inr 1 show ?thesis by (simp add: attempt_call_def)
    next
      case True
      with assms(3) first Inr 2 b again show ?thesis by (cases b) (auto simp: attempt_call_def)
    qed
  qed
qed

lemma keeps_world_api:
  assumes "\<And>q. call_request path opts (Some key) q \<Longrightarrow> keeps_world fetch I q" and "\<And>tok. keeps_world fetch I (refresh_request tok)"
    and "mutating opts" and "ro_key opts = Some key"
    and "api uuids fetch path opts t w = (x, t', w')" and "I w"
  shows "I w'"
proof -
  obtain y t1 w1 where a: "attempt_call fetch path opts (Some key) t w = (y, t1, w1)" by (cases "attempt_call fetch path opts (Some key) t w") auto
  have 1: "I w1" by (rule keeps_world_call [OF assms(1,2) a assms(6)])
  have 2: "I w2" if "attempt_call fetch path opts (Some key) t1 w1 = (z, t2, w2)" for z t2 w2
    by (rule keeps_world_call [OF assms(1,2) that 1])
  from assms(3-5) a 1 2 show ?thesis by (auto simp: api_def split: sum.splits if_splits)
qed

text \<open>The calls a user makes one after the other, whatever each of them returns.\<close>

fun api_calls :: "(nat \<Rightarrow> string) \<Rightarrow> 'w fetch \<Rightarrow> (string \<times> request_options) list \<Rightarrow> tab \<Rightarrow> 'w \<Rightarrow>
    (client_error + json) list \<times> tab \<times> 'w" where
  "api_calls uuids fetch [] t w = ([], t, w)"
| "api_calls uuids fetch ((path, opts) # cs) t w =
     (case api uuids fetch path opts t w of
        (x, t1, w1) \<Rightarrow> (case api_calls uuids fetch cs t1 w1 of (xs, t2, w2) \<Rightarrow> (x # xs, t2, w2)))"

text \<open>The idempotency key a request carries, if any.\<close>

definition header_key :: "http_request \<Rightarrow> string option" where
  "header_key q = map_of (cq_headers q) ''idempotency-key''"

lemma map_of_set_header: "map_of (set_header k v hs) k = Some v"
proof -
  have "k \<notin> fst ` set (filter (\<lambda>(j, _). j \<noteq> k) hs)" by auto
  then have "map_of (filter (\<lambda>(j, _). j \<noteq> k) hs) k = None" by (simp add: map_of_eq_None_iff)
  then show ?thesis by (simp add: set_header_def map_add_def)
qed

lemma call_header_key: "key \<noteq> [] \<Longrightarrow> call_request path opts (Some key) q \<Longrightarrow> header_key q = Some key"
  by (auto simp: call_request_def header_key_def request_of_def truthy_def map_of_set_header Let_def)

lemma refresh_header_key: "header_key (refresh_request tok) = None"
  by (simp add: header_key_def refresh_request_def)

lemma keeps_world_calls:
  assumes "\<And>q. header_key q = Some key \<Longrightarrow> keeps_world fetch I q" and "\<And>tok. keeps_world fetch I (refresh_request tok)" and "key \<noteq> []"
  shows "(\<forall>(path, opts)\<in>set cs. mutating opts \<and> ro_key opts = Some key) \<Longrightarrow>
    api_calls uuids fetch cs t w = (xs, t', w') \<Longrightarrow> I w \<Longrightarrow> I w'"
proof (induction cs arbitrary: t w xs)
  case (Cons c cs)
  obtain path opts where c: "c = (path, opts)" by (cases c)
  obtain x t1 w1 where a: "api uuids fetch path opts t w = (x, t1, w1)" by (cases "api uuids fetch path opts t w") auto
  have "I w1"
    by (rule keeps_world_api [OF _ assms(2) _ _ a Cons.prems(3)]) (use assms(1) call_header_key [OF assms(3)] Cons.prems(1) c in auto)
  with Cons.IH [of t1 w1] Cons.prems(1,2) c a show ?case by (auto split: prod.splits)
qed simp

end
