(* ===== verification/Schemas.thy ===== *)
theory Schemas
  imports Auth Transfers Requests Splits Schedule_Service
begin

text \<open>
  The schemas of the bodies, \<open>*.schemas.ts\<close> and those written in the routes: which values they accept and
  what the handlers get of them. The validation library's own formats, dates and uuids, are parameters,
  as is its list of issues when a value is refused.
\<close>

section \<open>Values\<close>

definition phone_schema :: "json \<Rightarrow> string option" where
  "phone_schema v = do { s \<leftarrow> jstr v; let t = js_trim s; if phone_ok t then Some t else None }"

definition pin_ok :: "string \<Rightarrow> bool" where
  "pin_ok s \<longleftrightarrow> length s = 4 \<and> list_all is_digit s"

definition pin_schema :: "json \<Rightarrow> string option" where
  "pin_schema v = do { s \<leftarrow> jstr v; if pin_ok s then Some s else None }"

text \<open>\<open>/^[1-9]\<backslash>d{0,15}$/\<close>.\<close>

definition amount_text :: "string \<Rightarrow> bool" where
  "amount_text s \<longleftrightarrow> s \<noteq> [] \<and> length s \<le> 16 \<and> list_all is_digit s \<and> hd s \<noteq> CHR ''0''"

definition amount_minor_schema :: "json \<Rightarrow> int option" where
  "amount_minor_schema v = do { s \<leftarrow> jstr v; if amount_text s then Some (big_int s) else None }"

definition sized_text :: "nat \<Rightarrow> nat \<Rightarrow> json \<Rightarrow> string option" where
  "sized_text lo hi v = do { s \<leftarrow> jstr v; if lo \<le> length s \<and> length s \<le> hi then Some s else None }"

definition trimmed_text :: "nat \<Rightarrow> nat \<Rightarrow> json \<Rightarrow> string option" where
  "trimmed_text lo hi v = do { s \<leftarrow> jstr v; sized_text lo hi (JStr (js_trim s)) }"

definition bounded_int :: "int \<Rightarrow> int \<Rightarrow> json \<Rightarrow> int option" where
  "bounded_int lo hi v =
     (case v of
        JNum s \<Rightarrow> if is_int_text s \<and> lo \<le> big_int s \<and> big_int s \<le> hi then Some (big_int s) else None
      | _ \<Rightarrow> None)"

definition boolean :: "json \<Rightarrow> bool option" where
  "boolean v = (case v of JBool b \<Rightarrow> Some b | _ \<Rightarrow> None)"

definition optional :: "(json \<Rightarrow> 'a option) \<Rightarrow> json \<Rightarrow> 'a option option" where
  "optional p v = (if v = JUndef then Some None else map_option Some (p v))"

definition or_default :: "'a \<Rightarrow> (json \<Rightarrow> 'a option) \<Rightarrow> json \<Rightarrow> 'a option" where
  "or_default x p v = (if v = JUndef then Some x else p v)"

definition object :: "json \<Rightarrow> unit option" where
  "object v = (case v of JObj _ \<Rightarrow> Some () | _ \<Rightarrow> None)"

section \<open>Bodies\<close>

definition create_transfer_schema :: "json \<Rightarrow> transfer_input option" where
  "create_transfer_schema v = do {
     object v;
     toPhone \<leftarrow> phone_schema (jget ''toPhone'' v);
     amountMinor \<leftarrow> amount_minor_schema (jget ''amountMinor'' v);
     note \<leftarrow> optional (trimmed_text 0 140) (jget ''note'' v);
     pin \<leftarrow> pin_schema (jget ''pin'' v);
     Some \<lparr>ti_to_phone = toPhone, ti_amount = amountMinor, ti_note = note, ti_pin = pin\<rparr> }"

definition create_request_schema :: "json \<Rightarrow> create_request_input option" where
  "create_request_schema v = do {
     object v;
     fromPhone \<leftarrow> phone_schema (jget ''fromPhone'' v);
     amountMinor \<leftarrow> amount_minor_schema (jget ''amountMinor'' v);
     note \<leftarrow> optional (trimmed_text 0 140) (jget ''note'' v);
     days \<leftarrow> or_default 7 (bounded_int 1 30) (jget ''expiresInDays'' v);
     Some \<lparr>cr_from_phone = fromPhone, cr_amount = amountMinor, cr_note = note, cr_expires_in_days = days\<rparr> }"

text \<open>\<open>acceptRequestSchema\<close>, and \<open>pinBody\<close> of the transfer routes.\<close>

definition pin_body_schema :: "json \<Rightarrow> string option" where
  "pin_body_schema v = do { object v; pin_schema (jget ''pin'' v) }"

definition decline_request_schema :: "json \<Rightarrow> string option option" where
  "decline_request_schema v = do { object v; optional (trimmed_text 0 140) (jget ''reason'' v) }"

definition interval_kind_schema :: "json \<Rightarrow> schedule_interval option" where
  "interval_kind_schema v =
     (if v = JStr ''ONCE'' then Some ONCE else if v = JStr ''DAILY'' then Some DAILY
      else if v = JStr ''WEEKLY'' then Some WEEKLY else if v = JStr ''MONTHLY'' then Some MONTHLY else None)"

text \<open>\<open>datetime\<close> is the library's test of a date with an offset, with the instant \<open>new Date\<close> makes of it.\<close>

definition create_schedule_schema :: "(string \<Rightarrow> millis option) \<Rightarrow> json \<Rightarrow> create_schedule_input option" where
  "create_schedule_schema datetime v = do {
     object v;
     toPhone \<leftarrow> phone_schema (jget ''toPhone'' v);
     amountMinor \<leftarrow> amount_minor_schema (jget ''amountMinor'' v);
     note \<leftarrow> optional (trimmed_text 0 140) (jget ''note'' v);
     kind \<leftarrow> interval_kind_schema (jget ''intervalKind'' v);
     startAt \<leftarrow> jstr (jget ''startAt'' v) \<bind> datetime;
     runs \<leftarrow> optional (bounded_int 1 120) (jget ''totalRuns'' v);
     pin \<leftarrow> pin_schema (jget ''pin'' v);
     if kind \<noteq> ONCE \<or> runs = None \<or> runs = Some 1
     then Some \<lparr>si_to_phone = toPhone, si_amount = amountMinor, si_note = note, si_interval = kind,
       si_start_at = startAt, si_total_runs = runs, si_pin = pin\<rparr>
     else None }"

definition participant_schema :: "json \<Rightarrow> participant option" where
  "participant_schema v = do {
     object v;
     phone \<leftarrow> phone_schema (jget ''phone'' v);
     weight \<leftarrow> optional (bounded_int 1 1000) (jget ''weight'' v);
     Some \<lparr>pt_phone = phone, pt_weight = weight\<rparr> }"

definition participants_schema :: "json \<Rightarrow> participant list option" where
  "participants_schema v =
     (case v of
        JArr vs \<Rightarrow> if 1 \<le> length vs \<and> length vs \<le> 20 then those (map participant_schema vs) else None
      | _ \<Rightarrow> None)"

definition create_split_schema :: "json \<Rightarrow> create_split_input option" where
  "create_split_schema v = do {
     object v;
     total \<leftarrow> amount_minor_schema (jget ''totalAmountMinor'' v);
     description \<leftarrow> trimmed_text 1 140 (jget ''description'' v);
     participants \<leftarrow> participants_schema (jget ''participants'' v);
     includeSelf \<leftarrow> or_default True boolean (jget ''includeSelf'' v);
     selfWeight \<leftarrow> or_default 1 (bounded_int 1 1000) (jget ''selfWeight'' v);
     days \<leftarrow> or_default 7 (bounded_int 1 30) (jget ''expiresInDays'' v);
     if distinct (map pt_phone participants) \<and>
       (list_all (\<lambda>p. pt_weight p = None) participants \<or> list_all (\<lambda>p. pt_weight p \<noteq> None) participants)
     then Some \<lparr>cs_total = total, cs_description = description, cs_participants = participants,
       cs_include_self = includeSelf, cs_self_weight = selfWeight, cs_expires_in_days = days\<rparr>
     else None }"

definition register_schema :: "json \<Rightarrow> register_input option" where
  "register_schema v = do {
     object v;
     phone \<leftarrow> phone_schema (jget ''phone'' v);
     name \<leftarrow> trimmed_text 2 80 (jget ''name'' v);
     password \<leftarrow> sized_text 8 200 (jget ''password'' v);
     pin \<leftarrow> pin_schema (jget ''pin'' v);
     Some \<lparr>reg_phone = phone, reg_name = name, reg_password = password, reg_pin = pin\<rparr> }"

definition login_schema :: "json \<Rightarrow> (string \<times> string) option" where
  "login_schema v = do {
     object v;
     phone \<leftarrow> phone_schema (jget ''phone'' v);
     password \<leftarrow> sized_text 1 200 (jget ''password'' v);
     Some (phone, password) }"

definition refresh_schema :: "json \<Rightarrow> string option" where
  "refresh_schema v = do { object v; sized_text 16 200 (jget ''refreshToken'' v) }"

definition freeze_schema :: "json \<Rightarrow> (bool \<times> string option) option" where
  "freeze_schema v = do {
     object v;
     frozen \<leftarrow> boolean (jget ''frozen'' v);
     pin \<leftarrow> optional pin_schema (jget ''pin'' v);
     Some (frozen, pin) }"

text \<open>\<open>/^TF\<backslash>d{6}[0-9A-Z]{8}$/\<close>.\<close>

definition reference_param :: "string \<Rightarrow> string option" where
  "reference_param s =
     (if length s = 16 \<and> take 2 s = ''TF'' \<and> list_all is_digit (take 6 (drop 2 s)) \<and>
        list_all (\<lambda>c. is_digit c \<or> (65 \<le> (of_char c :: nat) \<and> (of_char c :: nat) \<le> 90)) (drop 8 s)
      then Some s else None)"

text \<open>\<open>parse\<close> throws the library's issues when the schema refuses a value.\<close>

definition parse_with :: "(json \<Rightarrow> (string list \<times> string) list) \<Rightarrow> (json \<Rightarrow> 'a option) \<Rightarrow> json \<Rightarrow> exn + 'a" where
  "parse_with issues schema v = (case schema v of Some x \<Rightarrow> Inr x | None \<Rightarrow> Inl (ZodError (issues v)))"

section \<open>What a handler can rely on\<close>

lemmas schema_defs = phone_schema_def pin_schema_def amount_minor_schema_def object_def

text \<open>An accepted amount is positive and has at most sixteen digits, so it fits a \<open>bigint\<close> column.\<close>

lemma amount_accepted:
  assumes "amount_minor_schema v = Some a"
  shows "0 < a \<and> a < 10 ^ 16 \<and> int8_range a"
proof -
  obtain s where s: "amount_text s" "a = big_int s"
    using assms by (auto simp: amount_minor_schema_def split: Option.bind_splits if_splits)
  then obtain c t where c: "s = c # t" "is_digit c" "c \<noteq> CHR ''0''" "all_digits s"
    by (cases s) (auto simp: amount_text_def all_digits_def)
  have "digits_val s < 10 ^ length s" using s(1) by (intro digits_val_bound) (simp add: amount_text_def)
  moreover have "length s \<le> 16" using s(1) by (simp add: amount_text_def)
  ultimately have "digits_val s < 10 ^ 16" by (meson less_le_trans one_le_numeral power_increasing)
  moreover have "digit_val c \<noteq> 0" using c(2,3) by (metis digit_char_digit_val digit_char_0)
  then have "0 < digits_val s" using c(1) by (simp add: digits_val_Cons)
  moreover have "a = int (digits_val s)" using s(2) c by (auto simp: big_int_def)
  ultimately show ?thesis by (auto simp: int8_range_def)
qed

lemma phone_accepted: "phone_schema v = Some p \<Longrightarrow> phone_ok p"
  by (auto simp: phone_schema_def Let_def split: Option.bind_splits if_splits)

lemma pin_accepted: "pin_schema v = Some p \<Longrightarrow> pin_ok p"
  by (auto simp: pin_schema_def split: Option.bind_splits if_splits)

lemma transfer_accepted:
  "create_transfer_schema v = Some i \<Longrightarrow> phone_ok (ti_to_phone i) \<and> int8_range (ti_amount i) \<and> 0 < ti_amount i \<and> pin_ok (ti_pin i)"
  using amount_accepted by (auto simp: create_transfer_schema_def phone_accepted pin_accepted split: Option.bind_splits)

text \<open>The server never sees a person twice in a split, and weights are given for all or for none.\<close>

lemma split_accepted:
  assumes "create_split_schema v = Some i"
  shows "distinct (map pt_phone (cs_participants i)) \<and> cs_participants i \<noteq> [] \<and> 0 < cs_total i \<and>
    (list_all (\<lambda>p. pt_weight p = None) (cs_participants i) \<or> list_all (\<lambda>p. pt_weight p \<noteq> None) (cs_participants i))"
proof -
  have ne: "ps \<noteq> []" if p: "participants_schema w = Some ps" for w ps
  proof (cases w)
    case (JArr vs)
    with p have "vs \<noteq> []" "those (map participant_schema vs) = Some ps" by (auto simp: participants_schema_def split: if_splits)
    then show ?thesis by (cases vs) (auto split: option.splits)
  qed (use p in \<open>simp_all add: participants_schema_def\<close>)
  from assms show ?thesis
    by (auto simp: create_split_schema_def amount_accepted ne split: Option.bind_splits if_splits)
qed

end
