(* ===== verification/Handlers.thy ===== *)
theory Handlers
  imports Routes Reconciliation Lasting Calls Schemas
begin

text \<open>
  The handlers of the \<open>*.routes.ts\<close> files that change the database: the guards of a route in its order, the
  parsing of what came, the call of the service and the answer. The validation library's test of a uuid and
  its issues for a refused value are parameters; an error goes to the error handler.
\<close>

section \<open>Requests and answers\<close>

record route_request =
  rr_authorization :: "string option"
  rr_key :: header
  rr_admin_token :: header
  rr_id :: string
  rr_body :: json
  rr_context :: request_context

text \<open>What a handler sends: a status, headers and a body.\<close>

datatype 'b sent_reply = Sent int headers 'b

text \<open>
  A guard or a parser that may throw, before the rest of the handler; and a service that may throw before
  its answer is shaped.
\<close>

definition checked :: "exn + 'a \<Rightarrow> ('a \<Rightarrow> db \<Rightarrow> (exn + 'b) \<times> db) \<Rightarrow> db \<Rightarrow> (exn + 'b) \<times> db" where
  "checked x f d = (case x of Inl e \<Rightarrow> (Inl e, d) | Inr a \<Rightarrow> f a d)"

definition answered :: "('a \<Rightarrow> 'b) \<Rightarrow> (exn + 'a) \<times> db \<Rightarrow> (exn + 'b) \<times> db" where
  "answered f r = map_prod (map_sum id f) id r"

text \<open>\<open>requireAuth\<close> with \<open>currentUser\<close>: the subject of a token this service signs is the text of a user's id.\<close>

definition caller :: "(string \<Rightarrow> jwt_verdict) \<Rightarrow> route_request \<Rightarrow> exn + uuid" where
  "caller verify rq = map_sum id (\<lambda>(sub, _). uuid_value sub) (require_auth verify (rr_authorization rq))"

definition active :: "uuid \<Rightarrow> env \<Rightarrow> (db \<Rightarrow> (exn + 'b) \<times> db) \<Rightarrow> db \<Rightarrow> (exn + 'b) \<times> db" where
  "active userId env f d =
     (case require_active_account userId env d of (Inl e, d') \<Rightarrow> (Inl e, d') | (Inr _, d') \<Rightarrow> f d')"

definition replayable :: "outcome \<times> hook list \<Rightarrow> json sent_reply" where
  "replayable = (\<lambda>(out, _). Sent (out_status out)
     [(''Idempotent-Replay'', if out_replayed out then ''true'' else ''false'')] (out_body out))"

definition body_of :: "string \<Rightarrow> json \<times> hook list \<Rightarrow> json sent_reply" where
  "body_of member = (\<lambda>(v, _). Sent 200 [] (JObj [(member, v)]))"

section \<open>Money\<close>

definition post_transfers where
  "post_transfers verify issues rq env env1 penvs envs =
     checked (caller verify rq) (\<lambda>u. active u env (
     checked (require_idempotency_key (rr_key rq)) (\<lambda>key.
     checked (parse_with issues create_transfer_schema (rr_body rq)) (\<lambda>input d.
     answered replayable (send_money u key input (rr_body rq) (rr_context rq) env1 penvs envs d)))))"

definition post_reverse where
  "post_reverse verify issues rq env env1 penvs envs =
     checked (caller verify rq) (\<lambda>u. active u env (
     checked (parse_with issues (\<lambda>v. jstr v \<bind> reference_param) (JStr (rr_id rq))) (\<lambda>reference.
     checked (require_idempotency_key (rr_key rq)) (\<lambda>key.
     checked (parse_with issues pin_body_schema (rr_body rq)) (\<lambda>pin d.
     answered replayable
       (reverse_transfer u reference key pin (rr_body rq) (rr_context rq) env1 penvs envs d))))))"

definition post_requests where
  "post_requests verify issues rq env envs =
     checked (caller verify rq) (\<lambda>u.
     checked (require_idempotency_key (rr_key rq)) (\<lambda>key.
     checked (parse_with issues create_request_schema (rr_body rq)) (\<lambda>input d.
     answered replayable (create_request u key input (rr_body rq) (rr_context rq) env envs d))))"

definition post_accept where
  "post_accept verify parse_id issues rq env env1 penvs envs =
     checked (caller verify rq) (\<lambda>u. active u env (
     checked (parse_id (rr_id rq)) (\<lambda>i.
     checked (require_idempotency_key (rr_key rq)) (\<lambda>key.
     checked (parse_with issues pin_body_schema (rr_body rq)) (\<lambda>pin d.
     answered replayable
       (accept_request u i key pin (rr_body rq) (rr_context rq) env1 penvs envs d))))))"

text \<open>A body that is missing is parsed as an empty object.\<close>

definition or_empty :: "json \<Rightarrow> json" where
  "or_empty v = (if jnull v then JObj [] else v)"

definition post_decline where
  "post_decline verify parse_id issues rq envs =
     checked (caller verify rq) (\<lambda>u.
     checked (parse_id (rr_id rq)) (\<lambda>i.
     checked (parse_with issues decline_request_schema (or_empty (rr_body rq))) (\<lambda>reason d.
     answered (body_of ''request'') (decline_request u i reason (rr_context rq) envs d))))"

definition post_cancel where
  "post_cancel verify parse_id rq envs =
     checked (caller verify rq) (\<lambda>u.
     checked (parse_id (rr_id rq)) (\<lambda>i d.
     answered (body_of ''request'') (cancel_request u i (rr_context rq) envs d)))"

definition post_splits where
  "post_splits verify issues rq env envs =
     checked (caller verify rq) (\<lambda>u.
     checked (require_idempotency_key (rr_key rq)) (\<lambda>key.
     checked (parse_with issues create_split_schema (rr_body rq)) (\<lambda>input d.
     answered replayable (create_split u key input (rr_body rq) (rr_context rq) env envs d))))"

definition post_schedules where
  "post_schedules verify datetime issues rq env env1 penvs envs =
     checked (caller verify rq) (\<lambda>u. active u env (
     checked (require_idempotency_key (rr_key rq)) (\<lambda>key.
     checked (parse_with issues (create_schedule_schema datetime) (rr_body rq)) (\<lambda>input d.
     answered replayable (create_schedule u key input (rr_body rq) (rr_context rq) env1 penvs envs d)))))"

definition post_pause where
  "post_pause verify parse_id rq envs =
     checked (caller verify rq) (\<lambda>u.
     checked (parse_id (rr_id rq)) (\<lambda>i d.
     answered (body_of ''schedule'') (pause_schedule u i (rr_context rq) envs d)))"

definition post_resume where
  "post_resume verify parse_id rq envs =
     checked (caller verify rq) (\<lambda>u.
     checked (parse_id (rr_id rq)) (\<lambda>i d.
     answered (body_of ''schedule'') (resume_schedule u i (rr_context rq) envs d)))"

definition delete_schedule where
  "delete_schedule verify parse_id rq envs =
     checked (caller verify rq) (\<lambda>u.
     checked (parse_id (rr_id rq)) (\<lambda>i d.
     answered (body_of ''schedule'') (cancel_schedule u i (rr_context rq) envs d)))"

section \<open>Sessions, accounts, the operator\<close>

definition post_register where
  "post_register issues rq env envs =
     checked (parse_with issues register_schema (rr_body rq)) (\<lambda>input d.
     answered (\<lambda>(r, _). Sent 201 [] r) (register_user input (rr_context rq) env envs d))"

definition post_login where
  "post_login issues rq env env1 envs =
     checked (parse_with issues login_schema (rr_body rq)) (\<lambda>(phone, password) d.
     answered (\<lambda>(r, _). Sent 200 [] r) (login_user phone password (rr_context rq) env env1 envs d))"

definition post_refresh where
  "post_refresh issues rq envs =
     checked (parse_with issues refresh_schema (rr_body rq)) (\<lambda>token d.
     answered (\<lambda>(r, _). Sent 200 [] r) (refresh token (rr_context rq) envs d))"

definition post_logout where
  "post_logout issues rq envs =
     checked (parse_with issues refresh_schema (rr_body rq)) (\<lambda>token d.
     answered (\<lambda>_. Sent 204 [] ()) (logout token envs d))"

definition patch_freeze where
  "patch_freeze verify issues rq env penvs envs =
     checked (caller verify rq) (\<lambda>u.
     checked (parse_with issues freeze_schema (rr_body rq)) (\<lambda>(frozen, pin) d.
     answered (\<lambda>(r, _). Sent 200 [] r) (set_own_freeze u frozen pin (rr_context rq) env penvs envs d)))"

definition post_account_freeze where
  "post_account_freeze c parse_id issues frozen rq envs =
     checked (require_admin c (rr_admin_token rq)) (\<lambda>_.
     checked (parse_id (rr_id rq)) (\<lambda>u.
     checked (parse_with issues (\<lambda>v. do { object v; optional (trimmed_text 0 200) (jget ''reason'' v) }) (or_empty (rr_body rq))) (\<lambda>reason d.
     answered (\<lambda>(r, _). Sent 200 [] r)
       (set_account_status \<lparr>sa_user_id = u, sa_frozen = frozen, sa_reason = reason, sa_actor_label = ''operator-token''\<rparr>
          (rr_context rq) envs d))))"

definition post_workers_run where
  "post_workers_run c message_of rq renvss envsss eenvs oenvss =
     checked (require_admin c (rr_admin_token rq)) (\<lambda>_ d.
     answered (Sent 200 []) (run_workers message_of renvss envsss eenvs oenvss d))"

definition post_due where
  "post_due c parse_id rq env =
     checked (require_admin c (rr_admin_token rq)) (\<lambda>_.
     checked (parse_id (rr_id rq)) (\<lambda>i d.
     answered (\<lambda>_. Sent 200 [] (JObj [(''ok'', JBool True)])) (make_due i env d)))"

definition post_read where
  "post_read verify parse_id rq env =
     checked (caller verify rq) (\<lambda>u.
     checked (parse_id (rr_id rq)) (\<lambda>i d.
     answered (\<lambda>_. Sent 204 [] ()) (mark_read u i env d)))"

definition get_reconciliation where
  "get_reconciliation envs d =
     answered (\<lambda>report. Sent (if rr_pass report then 200 else 500) [] report) (reconcile envs d)"

section \<open>What the guards let through\<close>

lemma checked_cases:
  assumes "checked x f d = (r, d')"
  obtains (Thrown) "d' = d" | (Passed) a where "x = Inr a" "f a d = (r, d')"
  using assms by (auto simp: checked_def split: sum.splits)

lemma active_cases:
  assumes "active u env f d = (r, d')"
  obtains (Thrown) "d' = d" | (Passed) "f d = (r, d')"
proof -
  have same: "d1 = d" if "require_active_account u env d = (x, d1)" for x d1
    using that unfolding require_active_account_def
    by (auto split: prod.splits sum.splits option.splits if_splits dest!: pool_read)
  obtain x d1 where "require_active_account u env d = (x, d1)" by fastforce
  with same [OF this] assms that show ?thesis by (cases x) (auto simp: active_def)
qed

lemma answered_cases: "answered f x = (r, d') \<Longrightarrow> \<exists>y. x = (y, d')"
  by (cases x) (auto simp: answered_def)

text \<open>A run of an endpoint for the user under the key, after the PIN was checked, or a refusal before it.\<close>

definition runs_endpoint :: "uuid \<Rightarrow> string \<Rightarrow> db \<Rightarrow> db \<Rightarrow> bool" where
  "runs_endpoint u key d d' \<longleftrightarrow> d' = d \<or> (\<exists>fn envs. endpoint u key fn \<and> d' = snd (transact fn envs d))"

definition serves :: "uuid \<Rightarrow> string \<Rightarrow> db \<Rightarrow> db \<Rightarrow> bool" where
  "serves u key d d' \<longleftrightarrow> (\<exists>d1. steps d d1 \<and> runs_endpoint u key d1 d')"

lemma runs_refused [simp, intro!]: "runs_endpoint u key d d"
  by (simp add: runs_endpoint_def)

lemma endpoint_runs: "transact fn envs d = (r, d') \<Longrightarrow> endpoint u key fn \<Longrightarrow> runs_endpoint u key d d'"
  unfolding runs_endpoint_def by (metis snd_conv)

lemma serves_now: "runs_endpoint u key d d' \<Longrightarrow> serves u key d d'"
  unfolding serves_def by blast

lemma serves_guarded: "(if c then (Inl e, d) else x) = (r, d') \<Longrightarrow> (x = (r, d') \<Longrightarrow> serves u key d d') \<Longrightarrow> serves u key d d'"
  by (auto split: if_splits intro: serves_now)

lemma serves_after_pin:
  assumes "(case verify_pin u pin env penvs d of (Inl e, d') \<Rightarrow> (Inl e, d') | (Inr _, d') \<Rightarrow> f d') = (r, d')"
    and "\<And>d1 r d2. f d1 = (r, d2) \<Longrightarrow> runs_endpoint u key d1 d2"
  shows "serves u key d d'"
proof -
  obtain x d1 where v: "verify_pin u pin env penvs d = (x, d1)" by fastforce
  have "runs_endpoint u key d1 d'" using assms v by (cases x) auto
  with verify_pin_steps [OF v] show ?thesis unfolding serves_def by blast
qed

lemma send_serves: "send_money u key input raw ctx env penvs envs d = (r, d') \<Longrightarrow> serves u key d d'"
  unfolding send_money_def Let_def
  by (elim serves_guarded, erule serves_after_pin) (erule endpoint_runs, rule endpoint.intros)

lemma reverse_serves: "reverse_transfer u ref key pin raw ctx env penvs envs d = (r, d') \<Longrightarrow> serves u key d d'"
  unfolding reverse_transfer_def by (erule serves_after_pin) (erule endpoint_runs, rule endpoint.intros)

lemma request_serves: "create_request u key input raw ctx env envs d = (r, d') \<Longrightarrow> serves u key d d'"
  unfolding create_request_def Let_def
  by (elim serves_guarded) (rule serves_now, erule endpoint_runs, rule endpoint.intros)

lemma accept_serves: "accept_request u q key pin raw ctx env penvs envs d = (r, d') \<Longrightarrow> serves u key d d'"
  unfolding accept_request_def by (erule serves_after_pin) (erule endpoint_runs, rule endpoint.intros)

lemma split_serves: "create_split u key input raw ctx env envs d = (r, d') \<Longrightarrow> serves u key d d'"
  unfolding create_split_def
  by (auto split: sum.splits if_splits intro!: serves_now elim!: endpoint_runs intro: endpoint.intros)

lemma schedule_serves: "create_schedule u key input raw ctx env penvs envs d = (r, d') \<Longrightarrow> serves u key d d'"
  unfolding create_schedule_def Let_def
  by (erule serves_after_pin) (auto split: if_splits elim!: endpoint_runs intro: endpoint.intros)

text \<open>
  The handlers that move or promise money: they serve the caller of the token under the key of the header,
  or change nothing.
\<close>

definition serves_caller :: "(string \<Rightarrow> jwt_verdict) \<Rightarrow> route_request \<Rightarrow> db \<Rightarrow> db \<Rightarrow> bool" where
  "serves_caller verify rq d d' \<longleftrightarrow> d' = d \<or>
     (\<exists>u key. caller verify rq = Inr u \<and> require_idempotency_key (rr_key rq) = Inr key \<and> serves u key d d')"

lemma caller_refused [simp]: "serves_caller verify rq d d"
  by (simp add: serves_caller_def)

lemma caller_served:
  "caller verify rq = Inr u \<Longrightarrow> require_idempotency_key (rr_key rq) = Inr key \<Longrightarrow> serves u key d d' \<Longrightarrow> serves_caller verify rq d d'"
  unfolding serves_caller_def by blast

lemmas handler_cases = checked_cases active_cases

lemma handlers_serve:
  "post_transfers verify issues rq env env1 penvs envs d = (r1, d') \<Longrightarrow> serves_caller verify rq d d'"
  "post_reverse verify issues rq env env1 penvs envs d = (r1, d') \<Longrightarrow> serves_caller verify rq d d'"
  "post_requests verify issues rq env envs d = (r1, d') \<Longrightarrow> serves_caller verify rq d d'"
  "post_accept verify parse_id issues rq env env1 penvs envs d = (r1, d') \<Longrightarrow> serves_caller verify rq d d'"
  "post_splits verify issues rq env envs d = (r1, d') \<Longrightarrow> serves_caller verify rq d d'"
  "post_schedules verify datetime issues rq env env1 penvs envs d = (r1, d') \<Longrightarrow> serves_caller verify rq d d'"
  unfolding post_transfers_def post_reverse_def post_requests_def post_accept_def post_splits_def post_schedules_def
  by ((elim handler_cases; (hypsubst, rule caller_refused)?), drule answered_cases, elim exE,
      erule (1) caller_served,
      erule send_serves reverse_serves request_serves accept_serves split_serves schedule_serves)+

text \<open>The other handlers run whole transactions.\<close>

lemma handlers_step:
  "post_decline verify parse_id issues rq envs d = (r1, d') \<Longrightarrow> steps d d'"
  "post_cancel verify parse_id rq envs d = (r1, d') \<Longrightarrow> steps d d'"
  "post_pause verify parse_id rq envs d = (r1, d') \<Longrightarrow> steps d d'"
  "post_resume verify parse_id rq envs d = (r1, d') \<Longrightarrow> steps d d'"
  "delete_schedule verify parse_id rq envs d = (r1, d') \<Longrightarrow> steps d d'"
  "post_due c parse_id rq env d = (r2, d') \<Longrightarrow> steps d d'"
  "post_read verify parse_id rq env d = (r3, d') \<Longrightarrow> steps d d'"
  "post_logout issues rq envs d = (r3, d') \<Longrightarrow> steps d d'"
  "post_refresh issues rq envs d = (r4, d') \<Longrightarrow> steps d d'"
  unfolding post_decline_def post_cancel_def post_pause_def post_resume_def delete_schedule_def post_due_def
    post_read_def post_logout_def post_refresh_def
  by ((elim handler_cases; (hypsubst, rule steps_refl)?), drule answered_cases, elim exE,
      erule terminate_steps transition_steps due_steps read_steps logout_steps refresh_steps)+

lemma session_handlers_step:
  "post_register issues rq env envs d = (r4, d') \<Longrightarrow> steps d d'"
  "post_login issues rq env env1 envs d = (r4, d') \<Longrightarrow> steps d d'"
  "patch_freeze verify issues rq env penvs envs d = (r5, d') \<Longrightarrow> steps d d'"
  "post_account_freeze c parse_id issues frozen rq envs d = (r6, d') \<Longrightarrow> steps d d'"
  unfolding post_register_def post_login_def patch_freeze_def post_account_freeze_def
  by ((elim handler_cases; (hypsubst, rule steps_refl)?), (split prod.splits)?, drule answered_cases, elim exE,
      erule register_steps login_steps freeze_steps operator_steps)+

lemma workers_step: "post_workers_run c message_of rq renvss envsss eenvs oenvss d = (r, d') \<Longrightarrow> steps d d'"
  unfolding post_workers_run_def
  by (elim handler_cases, hypsubst, rule steps_refl, drule answered_cases, elim exE, erule workers_steps)

text \<open>Without a valid token nobody's money moves.\<close>

lemma unauthenticated_changes_nothing: "caller verify rq = Inl e \<Longrightarrow> serves_caller verify rq d d' \<Longrightarrow> d' = d"
  by (simp add: serves_caller_def)

end
