(* ===== verification/Retry_Safety.thy ===== *)
theory Retry_Safety
  imports Client Handlers Money_Safety
begin

text \<open>
  The browser and the server together: the automatic retry of a call, its repetition after a refresh and
  the user's own repetitions all carry one idempotency key, so the server acts on one of them at most,
  whichever requests and replies are lost.
\<close>

section \<open>One effect per key\<close>

definition named :: "uuid \<Rightarrow> string \<Rightarrow> db \<Rightarrow> bool" where
  "named u key d \<longleftrightarrow> list_ex (same_key u key) (idem_t d)"

lemma transact_effect:
  "snd (transact fn envs d) = d \<or>
   (\<exists>i a s. fn (envs i) (begin_state d) = (Inr a, s) \<and> \<not> aborted s \<and> snd (transact fn envs d) = data s)"
proof -
  obtain i where "transact fn envs d = tried fn (envs i) d"
    using with_transaction_tried [of 3 1 fn envs d] unfolding transact_def by auto
  then show ?thesis
    by (auto simp: tried_def attempt_def split: option.splits prod.splits sum.splits commit_outcome.splits)
qed

text \<open>Also when the call fails: after a lost commit, too, a changed database has the key.\<close>

lemma endpoint_effect:
  assumes e: "endpoint u key fn" and ok: "keys_ok d"
  shows "snd (transact fn envs d) = d \<or> (\<not> named u key d \<and> named u key (snd (transact fn envs d)))"
proof (rule disjE [OF transact_effect [of fn envs d]])
  assume "\<exists>i a s. fn (envs i) (begin_state d) = (Inr a, s) \<and> \<not> aborted s \<and> snd (transact fn envs d) = data s"
  then obtain i a s where r: "fn (envs i) (begin_state d) = (Inr a, s)" "snd (transact fn envs d) = data s" by blast
  note n = endpoint_names_response [OF e, unfolded names_response_def, rule_format, of "begin_state d" "envs i" a s]
  have "\<exists>k. select_first (same_key u key) (idem_t (data s)) = Some k" using n ok r(1) by auto
  then have "named u key (data s)" unfolding named_def by (auto simp: list_ex_iff dest!: select_first_SomeD)
  moreover have "named u key d \<Longrightarrow> data s = d" using n ok r(1) by (auto simp: named_def)
  ultimately show ?thesis using r(2) by auto
qed simp

lemma endpoint_step: "endpoint u key fn \<Longrightarrow> step d (snd (transact fn envs d))"
proof -
  assume e: "endpoint u key fn"
  obtain r d' where t: "transact fn envs d = (r, d')" by fastforce
  from e t show ?thesis
    by (cases rule: endpoint.cases) (auto intro: Send Reverse Request Accept Split Schedule)
qed

lemma named_steps:
  assumes "steps d d'" and "keys_ok d" and "named u key d"
  shows "named u key d'"
proof -
  obtain k where k: "k \<in> set (idem_t d)" "same_key u key k" using assms(3) by (auto simp: named_def list_ex_iff)
  then have "keys_with {k} d" using assms(2) by (simp add: keys_with_def)
  with assms(1) have "keys_with {k} d'" by (rule held.steps_keep)
  with k(2) show ?thesis by (auto simp: keys_with_def named_def list_ex_iff)
qed

section \<open>The network between them\<close>

text \<open>
  The world beyond the tab is the database and the number of runs, for requests of the tab, that changed it.
  A request that carries a key, whichever, may be lost, or run one of the six endpoints for the user under
  the key it carries, whatever its reply and whether it arrives; others' transactions run before and after
  it. A request without a key is not one of the money endpoints and runs others' transactions only.
\<close>

definition served :: "uuid \<Rightarrow> string \<Rightarrow> db \<times> nat \<Rightarrow> db \<times> nat \<Rightarrow> bool" where
  "served u key = (\<lambda>(d, n) (d', n'). \<exists>d1 d2. steps d d1 \<and> steps d2 d' \<and>
     ((d2 = d1 \<and> n' = n) \<or>
      (\<exists>fn envs. endpoint u key fn \<and> d2 = snd (transact fn envs d1) \<and> n' = (if d2 = d1 then n else Suc n))))"

definition delivers :: "uuid \<Rightarrow> (db \<times> nat) fetch \<Rightarrow> bool" where
  "delivers u fetch \<longleftrightarrow> (\<forall>q d n rep d' n'. fetch q (d, n) = (rep, (d', n')) \<longrightarrow>
     (case header_key q of
        Some k \<Rightarrow> served u k (d, n) (d', n')
      | None \<Rightarrow> steps d d' \<and> n' = n))"

text \<open>The handlers of the money routes are such servers of the caller of the token and the key of the header.\<close>

lemma serves_served: "serves u key d d' \<Longrightarrow> \<exists>n'. served u key (d, n) (d', n')"
proof -
  assume "serves u key d d'"
  then obtain d1 where s: "steps d d1" "runs_endpoint u key d1 d'" by (auto simp: serves_def)
  from s(2) show ?thesis unfolding runs_endpoint_def
  proof (elim disjE exE conjE)
    assume "d' = d1"
    with s(1) have "served u key (d, n) (d', n)" by (auto simp: served_def)
    then show ?thesis by blast
  next
    fix fn envs assume "endpoint u key fn" "d' = snd (transact fn envs d1)"
    with s(1) have "served u key (d, n) (d', if d' = d1 then n else Suc n)" unfolding served_def by blast
    then show ?thesis by blast
  qed
qed

lemma handlers_served:
  assumes "serves_caller verify rq d d'" and "caller verify rq = Inr u" and "require_idempotency_key (rr_key rq) = Inr key"
  shows "\<exists>n'. served u key (d, n) (d', n')"
proof -
  have "serves u key d d'" using assms by (auto simp: serves_caller_def intro: serves_now)
  then show ?thesis by (rule serves_served)
qed

definition at_most_once :: "uuid \<Rightarrow> string \<Rightarrow> db \<times> nat \<Rightarrow> bool" where
  "at_most_once u key w \<longleftrightarrow> reachable (fst w) \<and> snd w \<le> 1 \<and> (0 < snd w \<longrightarrow> named u key (fst w))"

lemma once_steps: "at_most_once u key (d, n) \<Longrightarrow> steps d d' \<Longrightarrow> at_most_once u key (d', n)"
  using named_steps [of d d' u key] keys.always [of d] reachable_steps [of d d'] by (auto simp: at_most_once_def)

lemma once_run:
  assumes "at_most_once u key (d, n)" and "endpoint u key fn"
  shows "at_most_once u key (snd (transact fn envs d), if snd (transact fn envs d) = d then n else Suc n)"
proof -
  have r: "reachable d" using assms(1) by (simp add: at_most_once_def)
  have "reachable (snd (transact fn envs d))" using Step [OF r endpoint_step [OF assms(2)]] .
  with endpoint_effect [OF assms(2) keys.always [OF r], of envs] assms(1) show ?thesis
    by (auto simp: at_most_once_def)
qed

lemma once_delivered:
  assumes "delivers u fetch" and "header_key q = Some key \<or> header_key q = None"
  shows "keeps_world fetch (at_most_once u key) q"
  unfolding keeps_world_def
proof (intro allI impI, elim conjE)
  fix w r w' assume i: "at_most_once u key w" and f: "fetch q w = (r, w')"
  obtain d n d' n' where w: "w = (d, n)" "w' = (d', n')" by (cases w, cases w')
  note D = assms(1) [unfolded delivers_def, rule_format, OF f [unfolded w]]
  from assms(2) show "at_most_once u key w'"
  proof
    assume "header_key q = None"
    with D once_steps [OF i [unfolded w(1)]] show ?thesis by (simp add: w)
  next
    assume "header_key q = Some key"
    with D obtain d1 d2 where s: "steps d d1" "steps d2 d'"
      and or: "(d2 = d1 \<and> n' = n) \<or> (\<exists>fn envs. endpoint u key fn \<and> d2 = snd (transact fn envs d1) \<and> n' = (if d2 = d1 then n else Suc n))"
      by (auto simp: served_def)
    have i1: "at_most_once u key (d1, n)" by (rule once_steps [OF i [unfolded w(1)] s(1)])
    have "at_most_once u key (d2, n')"
      using or i1 once_run [OF i1] by auto
    then show ?thesis unfolding w by (rule once_steps) (rule s(2))
  qed
qed

text \<open>
  C21. Pressing send twice pays once: whatever calls a user makes under one idempotency key, each retried
  and refreshed as the client does, and whichever requests and replies the network loses, at most one of
  the runs that the requests cause at the server, under whatever key each of them carries, changes the
  database, and a run that changed it left the key of the calls behind.
\<close>

theorem retries_act_once:
  assumes "delivers u fetch" and "reachable d" and "key \<noteq> []"
    and "\<forall>(path, opts)\<in>set cs. mutating opts \<and> ro_key opts = Some key"
    and "api_calls uuids fetch cs t (d, 0) = (xs, t', (d', n))"
  shows "n \<le> 1 \<and> reachable d' \<and> (0 < n \<longrightarrow> list_ex (same_key u key) (idem_t d'))"
proof -
  have i: "at_most_once u key (d, 0)" using assms(2) by (simp add: at_most_once_def)
  have "at_most_once u key (d', n)"
    by (rule keeps_world_calls [OF once_delivered [OF assms(1)] once_delivered [OF assms(1)] assms(3-5) i])
      (simp_all add: refresh_header_key)
  then show ?thesis by (simp add: at_most_once_def named_def)
qed

text \<open>A network that delivers every request, whatever its key, and loses every reply.\<close>

definition lossy :: "(string \<Rightarrow> outcome tx) \<Rightarrow> (db \<times> nat) fetch" where
  "lossy fn = (\<lambda>q (d, n). case header_key q of
       Some k \<Rightarrow> (let d' = snd (transact (fn k) (\<lambda>_. env2) d) in (Inl Network_Error, (d', if d' = d then n else Suc n)))
     | None \<Rightarrow> (Inl Network_Error, (d, n)))"

lemma lossy_delivers: "(\<And>k. endpoint u k (fn k)) \<Longrightarrow> delivers u (lossy fn)"
  unfolding delivers_def lossy_def served_def by (auto simp: Let_def split: if_splits option.splits intro!: exI)

lemma retries_act_once_witness:
  "\<exists>d d' xs t'. reachable d \<and>
     api_calls (\<lambda>_. []) (lossy (\<lambda>k. send_money_tx 9 k send1 JNull ctx0))
       [(''/transfers'', \<lparr>ro_method = POST, ro_body = None, ro_key = Some ''key-00003'', ro_headers = []\<rparr>)]
       \<lparr>tab_access = None, tab_refresh = None, tab_stored = None, tab_lost = 0, tab_minted = 0\<rparr> (d, 0) = (xs, t', (d', 1)) \<and>
     sent d d'"
proof -
  obtain d where d: "reachable d" "started d" using started_world by blast
  let ?fn = "send_money_tx 9 ''key-00003'' send1 JNull ctx0"
  let ?o = "\<lparr>ro_method = POST, ro_body = None, ro_key = Some ''key-00003'', ro_headers = []\<rparr>"
  let ?t = "\<lparr>tab_access = None, tab_refresh = None, tab_stored = None, tab_lost = 0, tab_minted = 0\<rparr>"
  have e: "endpoint 9 ''key-00003'' ?fn" by (rule endpoint.intros)
  obtain r hs d1 where 1: "transact ?fn (\<lambda>_. env2) d = (Inr (r, hs), d1)" "sent d d1"
    using runs_transact [OF alice_sends [OF d(2)]] by blast
  then have ne: "d1 \<noteq> d" by (auto simp: sent_def)
  have n1: "named 9 ''key-00003'' d1" using endpoint_effect [OF e keys.always [OF d(1)], of "\<lambda>_. env2"] 1(1) ne by simp
  have r1: "reachable d1" using Step [OF d(1) endpoint_step [OF e, of d "\<lambda>_. env2"]] 1(1) by simp
  have 2: "snd (transact ?fn (\<lambda>_. env2) d1) = d1" using endpoint_effect [OF e keys.always [OF r1], of "\<lambda>_. env2"] n1 by blast
  let ?fns = "\<lambda>k. send_money_tx 9 k send1 JNull ctx0"
  have es: "endpoint 9 k (?fns k)" for k by (rule endpoint.intros)
  have c: "header_key (request_of ''/transfers'' ?o (Some ''key-00003'') t) = Some ''key-00003''" for t
    by (rule call_header_key [of _ "''/transfers''" ?o]) (auto simp: call_request_def)
  have run: "api_calls (\<lambda>_. []) (lossy ?fns) [(''/transfers'', ?o)] ?t (d, 0) = ([Inl Network_Error], ?t, (d1, 1))"
    using 1(1) 2 ne c by (simp add: api_def mutating_def attempt_call_def lossy_def call_retryable_def Let_def)
  have "(1::nat) \<le> 1 \<and> reachable d1"
    using retries_act_once [OF lossy_delivers [OF es] d(1) _ _ run, of "''key-00003''"] by (simp add: mutating_def)
  with run d(1) 1(2) show ?thesis by blast
qed

end
