(* ===== verification/Refreshing.thy ===== *)
theory Refreshing
  imports Client
begin

text \<open>
  The shared refresh of \<open>frontend/src/lib/api.ts\<close>: several calls of a tab run at once, and those that are
  answered 401 while a refresh is on its way wait for that one.
\<close>

section \<open>The refresh in flight\<close>

text \<open>
  \<open>rf_flight\<close> is \<open>refreshInFlight\<close>, by the token it spends; \<open>rf_waiting\<close> counts the calls that wait for it, and
  \<open>rf_sent\<close> lists the tokens sent to \<open>/auth/refresh\<close>.
\<close>

record refreshing =
  rf_tab :: tab
  rf_flight :: "string option"
  rf_waiting :: nat
  rf_sent :: "string list"

definition at_rest :: "tab \<Rightarrow> refreshing" where
  "at_rest t = \<lparr>rf_tab = t, rf_flight = None, rf_waiting = 0, rf_sent = []\<rparr>"

text \<open>
  A call is answered 401; the refresh is answered; the page signs in or out, which sets the session whatever
  is on its way.
\<close>

datatype refresh_event = Unauthorized | Answered "client_error + http_reply" | Signed_In json | Signed_Out

text \<open>When a refresh fails, every call that waited ends the session.\<close>

fun refreshing_step :: "refresh_event \<Rightarrow> refreshing \<Rightarrow> refreshing" where
  "refreshing_step Unauthorized s =
     (if \<not> truthy (tab_refresh (rf_tab s)) then s
      else if rf_flight s \<noteq> None then s\<lparr>rf_waiting := Suc (rf_waiting s)\<rparr>
      else s\<lparr>rf_flight := tab_refresh (rf_tab s), rf_waiting := Suc (rf_waiting s),
             rf_sent := rf_sent s @ [the (tab_refresh (rf_tab s))]\<rparr>)"
| "refreshing_step (Answered a) s =
     (if rf_flight s = None then s
      else (case take_refresh a (rf_tab s) of
          (True, t) \<Rightarrow> s\<lparr>rf_tab := t, rf_flight := None, rf_waiting := 0\<rparr>
        | (False, t) \<Rightarrow> s\<lparr>rf_tab := (lose_session ^^ rf_waiting s) t, rf_flight := None, rf_waiting := 0\<rparr>))"
| "refreshing_step (Signed_In body) s = s\<lparr>rf_tab := set_session body (rf_tab s)\<rparr>"
| "refreshing_step Signed_Out s = s\<lparr>rf_tab := set_session JNull (rf_tab s)\<rparr>"

definition refreshing_run :: "refresh_event list \<Rightarrow> refreshing \<Rightarrow> refreshing" where
  "refreshing_run es s = fold refreshing_step es s"

section \<open>Every token is spent once\<close>

definition token_of :: "json \<Rightarrow> string list" where
  "token_of session = (case jstr (jget ''refreshToken'' session) of Some x \<Rightarrow> [x] | None \<Rightarrow> [])"

text \<open>The refresh tokens that the server gives a tab.\<close>

definition tokens_given :: "refresh_event \<Rightarrow> string list" where
  "tokens_given e =
     (case e of
        Answered (Inr r) \<Rightarrow> (case session_body r of Some s \<Rightarrow> token_of s | None \<Rightarrow> [])
      | Signed_In body \<Rightarrow> token_of body
      | _ \<Rightarrow> [])"

definition held_token :: "tab \<Rightarrow> string list" where
  "held_token t = (case tab_refresh t of Some x \<Rightarrow> [x] | None \<Rightarrow> [])"

text \<open>Of the tokens known so far none was sent twice, and one at rest was not sent.\<close>

definition spent_once :: "string set \<Rightarrow> refreshing \<Rightarrow> bool" where
  "spent_once known s \<longleftrightarrow> distinct (rf_sent s) \<and> set (rf_sent s) \<subseteq> known \<and> set (held_token (rf_tab s)) \<subseteq> known \<and>
     (rf_flight s = None \<longrightarrow> set (held_token (rf_tab s)) \<inter> set (rf_sent s) = {}) \<and> (rf_flight s \<noteq> None \<longrightarrow> 0 < rf_waiting s)"

lemma held_set_session [simp]: "held_token (set_session body t) = token_of body"
  by (simp add: held_token_def set_session_def token_of_def Let_def)

lemma held_lost [simp]: "0 < n \<Longrightarrow> held_token ((lose_session ^^ n) t) = []"
  by (cases n) (simp_all add: lose_session_def held_token_def set_session_def jget_def Let_def)

lemma token_of_null [simp]: "token_of JNull = []"
  by (simp add: token_of_def jget_def)

lemma take_refresh_tokens:
  "take_refresh a t = (True, t') \<Longrightarrow> held_token t' = tokens_given (Answered a)"
  by (auto simp: take_refresh_def tokens_given_def split: sum.splits if_splits option.splits)

lemma spent_once_step:
  assumes "spent_once known s" and "set (tokens_given e) \<inter> known = {}"
  shows "spent_once (known \<union> set (tokens_given e)) (refreshing_step e s)"
proof (cases e)
  case Unauthorized
  with assms show ?thesis by (auto simp: spent_once_def held_token_def truthy_def tokens_given_def split: option.splits)
next
  case (Answered a)
  obtain b t where t: "take_refresh a (rf_tab s) = (b, t)" by fastforce
  show ?thesis
  proof (cases b)
    case True
    with t have "held_token t = tokens_given (Answered a)" by (auto intro: take_refresh_tokens)
    with assms True t Answered show ?thesis by (auto simp: spent_once_def)
  next
    case False
    with assms t Answered show ?thesis by (auto simp: spent_once_def)
  qed
next
  case (Signed_In body)
  with assms show ?thesis by (auto simp: spent_once_def tokens_given_def)
next
  case Signed_Out
  with assms show ?thesis by (auto simp: spent_once_def tokens_given_def)
qed

lemma spent_once_run:
  "spent_once known s \<Longrightarrow> distinct (concat (map tokens_given es)) \<Longrightarrow> set (concat (map tokens_given es)) \<inter> known = {} \<Longrightarrow>
    distinct (rf_sent (refreshing_run es s))"
proof (induction es arbitrary: known s)
  case Nil
  then show ?case by (simp add: refreshing_run_def spent_once_def)
next
  case (Cons e es)
  have "spent_once (known \<union> set (tokens_given e)) (refreshing_step e s)"
    by (rule spent_once_step [OF Cons.prems(1)]) (use Cons.prems(3) in auto)
  from Cons.IH [OF this] Cons.prems(2,3) show ?case by (auto simp: refreshing_run_def)
qed

text \<open>
  C25. However many calls of a tab are answered 401, in whatever order with the answers of the refreshes and
  with signing in and out, no refresh token is sent twice, provided the server never gives a token twice:
  so the tab's own concurrency never looks like the reuse for which the server revokes a session family.
\<close>

theorem refresh_spends_once:
  assumes "distinct (held_token t @ concat (map tokens_given es))"
  shows "distinct (rf_sent (refreshing_run es (at_rest t)))"
proof -
  have "spent_once (set (held_token t)) (at_rest t)" by (simp add: spent_once_def at_rest_def)
  then show ?thesis by (rule spent_once_run) (use assms in auto)
qed

text \<open>Five calls at once, then a sixth with the new session: two tokens are spent.\<close>

definition new_session :: http_reply where
  "new_session = \<lparr>cr_status = 200, cr_status_text = ''OK'',
     cr_text = Json_Body (JObj [(''accessToken'', JStr ''b''), (''refreshToken'', JStr ''s'')])\<rparr>"

definition five_at_once :: "refresh_event list" where
  "five_at_once = replicate 5 Unauthorized @ [Answered (Inr new_session), Unauthorized]"

lemma refresh_spends_once_witness:
  "rf_sent (refreshing_run five_at_once (at_rest (set_session (JObj [(''accessToken'', JStr ''a''), (''refreshToken'', JStr ''r'')])
     \<lparr>tab_access = None, tab_refresh = None, tab_stored = None, tab_lost = 0, tab_minted = 0\<rparr>))) = [''r'', ''s''] \<and>
   distinct [''r'', ''s'']"
proof -
  let ?t = "set_session (JObj [(''accessToken'', JStr ''a''), (''refreshToken'', JStr ''r'')])
     \<lparr>tab_access = None, tab_refresh = None, tab_stored = None, tab_lost = 0, tab_minted = 0\<rparr>"
  have r: "rf_sent (refreshing_run five_at_once (at_rest ?t)) = [''r'', ''s'']" by code_simp
  have "distinct (held_token ?t @ concat (map tokens_given five_at_once))" by code_simp
  from refresh_spends_once [OF this] r show ?thesis by simp
qed

end
