(* ===== verification/Send_Page.thy ===== *)
theory Send_Page
  imports Client Js_Text
begin

text \<open>
  \<open>frontend/src/pages/Send.tsx\<close> with \<open>components/UndoCountdown.tsx\<close> and the amount input of
  \<open>components/ui.tsx\<close>: the payment form as a state machine, from typing to the reply of the server.
\<close>

section \<open>Inputs\<close>

text \<open>\<open>value.replace(/\<backslash>D/g, '').slice(0, 11)\<close>.\<close>

definition phone_typed :: "string \<Rightarrow> string" where
  "phone_typed v = take 11 (filter is_digit v)"

text \<open>The first two parts of \<open>split('.')\<close>.\<close>

definition dot_parts :: "string \<Rightarrow> string \<times> string" where
  "dot_parts s =
     (takeWhile (\<lambda>c. c \<noteq> CHR ''.'') s, takeWhile (\<lambda>c. c \<noteq> CHR ''.'') (drop 1 (dropWhile (\<lambda>c. c \<noteq> CHR ''.'') s)))"

text \<open>\<open>toMinor\<close>; \<open>BigInt\<close> of digits is their value.\<close>

definition to_minor_text :: "string \<Rightarrow> string" where
  "to_minor_text t =
     (let clean = js_trim (filter (\<lambda>c. c \<noteq> CHR '','') t) in
      if clean = [] then ''0''
      else
        (case dot_parts clean of (whole, fraction) \<Rightarrow>
           int_text (big_int (if whole = [] then ''0'' else whole) * 100 + big_int (take 2 (fraction @ ''00'')))))"

text \<open>What the amount input shows of a typed text, and the poisha it reports.\<close>

definition amount_shown :: "string \<Rightarrow> string" where
  "amount_shown v =
     (let raw = filter (\<lambda>c. is_digit c \<or> c = CHR ''.'') v in
      case dot_parts raw of (whole, fraction) \<Rightarrow>
        if CHR ''.'' \<in> set raw then whole @ CHR ''.'' # take 2 fraction else whole)"

definition amount_typed :: "string \<Rightarrow> string" where
  "amount_typed v = to_minor_text (amount_shown v)"

section \<open>The page\<close>

datatype lookup_reply = Found string bool | Not_Found | Lookup_Failed

record sent_result =
  sr_reference :: string
  sr_security_alert :: bool

text \<open>\<open>pg_pending\<close> is the PIN of an authorised payment with the time its countdown was mounted.\<close>

record send_page =
  pg_phone :: string
  pg_amount :: string
  pg_note :: string
  pg_payee :: "(string \<times> bool) option"
  pg_lookup_error :: "string option"
  pg_ask_pin :: bool
  pg_busy :: bool
  pg_pending :: "(string \<times> int) option"
  pg_undone :: bool
  pg_error :: "client_error option"
  pg_sent :: "sent_result option"
  pg_alerted :: bool
  pg_key :: string
  pg_minted :: nat

record payment =
  py_phone :: string
  py_amount :: string
  py_note :: "string option"
  py_pin :: string
  py_key :: string

text \<open>Mounting the page mints its first key; \<open>uuids n\<close> is the key number n of the tab.\<close>

definition mounted :: "(nat \<Rightarrow> string) \<Rightarrow> nat \<Rightarrow> send_page" where
  "mounted uuids n =
     \<lparr>pg_phone = [], pg_amount = ''0'', pg_note = [], pg_payee = None, pg_lookup_error = None, pg_ask_pin = False,
      pg_busy = False, pg_pending = None, pg_undone = False, pg_error = None, pg_sent = None, pg_alerted = False,
      pg_key = uuids n, pg_minted = Suc n\<rparr>"

definition amount_valid :: "send_page \<Rightarrow> bool" where
  "amount_valid p \<longleftrightarrow> 0 < big_int (if pg_amount p = [] then ''0'' else pg_amount p)"

definition can_send :: "bool \<Rightarrow> send_page \<Rightarrow> bool" where
  "can_send frozen p \<longleftrightarrow> length (pg_phone p) = 11 \<and> amount_valid p \<and>
     (case pg_payee p of None \<Rightarrow> False | Some (_, self) \<Rightarrow> \<not> self) \<and> \<not> frozen"

definition WINDOW_MS :: int where
  "WINDOW_MS = 5000"

text \<open>What a tick of the countdown at time t finds left, when it was mounted at time t0.\<close>

definition time_left :: "int \<Rightarrow> int \<Rightarrow> int" where
  "time_left t0 t = WINDOW_MS - (t - t0)"

text \<open>
  The events of the page: typing, the replies, the buttons, the ticks of the countdown with the time, and
  leaving. A reply to a lookup or a send comes whenever it comes, so its event may follow any other.
\<close>

datatype page_event =
    Type_Phone string
  | Looked_Up lookup_reply
  | Type_Amount string
  | Type_Note string
  | Submit bool
  | Confirm string int
  | Cancel_Pin
  | Undo
  | Tick int
  | Send_Failed client_error
  | Send_Done sent_result "client_error option"
  | Close_Alert
  | Leave

definition looked_up :: "lookup_reply \<Rightarrow> send_page \<Rightarrow> send_page" where
  "looked_up r p =
     (case r of
        Found name self \<Rightarrow> p\<lparr>pg_payee := Some (name, self),
          pg_lookup_error := (if self then Some ''That is your own number.'' else pg_lookup_error p)\<rparr>
      | Not_Found \<Rightarrow> p\<lparr>pg_lookup_error := Some ''No TakaFlow user with that number.''\<rparr>
      | Lookup_Failed \<Rightarrow> p\<lparr>pg_lookup_error := Some ''Could not check that number.''\<rparr>)"

text \<open>The payment \<open>send\<close> makes of the form as it is when it runs.\<close>

definition payment_of :: "send_page \<Rightarrow> string \<Rightarrow> payment" where
  "payment_of p pin =
     \<lparr>py_phone = pg_phone p, py_amount = pg_amount p, py_note = (if pg_note p = [] then None else Some (pg_note p)),
      py_pin = pin, py_key = pg_key p\<rparr>"

definition sent_page :: "(nat \<Rightarrow> string) \<Rightarrow> sent_result \<Rightarrow> client_error option \<Rightarrow> send_page \<Rightarrow> send_page" where
  "sent_page uuids r e p =
     p\<lparr>pg_alerted := sr_security_alert r, pg_sent := Some r, pg_ask_pin := False, pg_key := uuids (pg_minted p),
       pg_minted := Suc (pg_minted p), pg_phone := [], pg_amount := ''0'', pg_note := [], pg_payee := None,
       pg_error := (if e = None then pg_error p else e), pg_busy := False\<rparr>"

definition send_failed :: "client_error \<Rightarrow> send_page \<Rightarrow> send_page" where
  "send_failed e p = p\<lparr>pg_error := Some e, pg_ask_pin := False, pg_busy := False\<rparr>"

definition sending :: "send_page \<Rightarrow> send_page" where
  "sending p = p\<lparr>pg_busy := True, pg_error := None, pg_pending := None\<rparr>"

definition confirmed :: "string \<Rightarrow> int \<Rightarrow> send_page \<Rightarrow> send_page" where
  "confirmed pin t p = p\<lparr>pg_ask_pin := False, pg_undone := False, pg_sent := None, pg_pending := Some (pin, t)\<rparr>"

definition looking_up :: "send_page \<Rightarrow> send_page" where
  "looking_up p = p\<lparr>pg_payee := None, pg_lookup_error := None\<rparr>"

lemmas page_updates = looked_up_def looking_up_def confirmed_def sending_def send_failed_def sent_page_def mounted_def

fun page_step :: "(nat \<Rightarrow> string) \<Rightarrow> page_event \<Rightarrow> send_page \<Rightarrow> send_page \<times> payment list" where
  "page_step uuids (Type_Phone v) p = (looking_up (p\<lparr>pg_phone := phone_typed v\<rparr>), [])"
| "page_step uuids (Looked_Up r) p = (looked_up r p, [])"
| "page_step uuids (Type_Amount v) p = (p\<lparr>pg_amount := amount_typed v\<rparr>, [])"
| "page_step uuids (Type_Note v) p = (p\<lparr>pg_note := take 140 v\<rparr>, [])"
| "page_step uuids (Submit frozen) p =
     (if can_send frozen p \<and> \<not> pg_busy p \<and> pg_pending p = None then (p\<lparr>pg_ask_pin := True\<rparr>, []) else (p, []))"
| "page_step uuids (Confirm pin t) p =
     (if pg_ask_pin p \<and> length pin = 4 \<and> \<not> pg_busy p
      then (confirmed pin t p, []) else (p, []))"
| "page_step uuids Cancel_Pin p = (if pg_ask_pin p then p\<lparr>pg_ask_pin := False\<rparr> else p, [])"
| "page_step uuids Undo p =
     (if pg_pending p = None then (p, []) else (p\<lparr>pg_pending := None, pg_undone := True\<rparr>, []))"
| "page_step uuids (Tick t) p =
     (case pg_pending p of
        None \<Rightarrow> (p, [])
      | Some (pin, t0) \<Rightarrow>
          if 0 < time_left t0 t then (p, []) else (sending p, [payment_of p pin]))"
| "page_step uuids (Send_Failed e) p =
     (if pg_busy p then (send_failed e p, []) else (p, []))"
| "page_step uuids (Send_Done r e) p = (if pg_busy p then (sent_page uuids r e p, []) else (p, []))"
| "page_step uuids Close_Alert p = (p\<lparr>pg_alerted := False\<rparr>, [])"
| "page_step uuids Leave p = (mounted uuids (pg_minted p), [])"

fun page_run :: "(nat \<Rightarrow> string) \<Rightarrow> page_event list \<Rightarrow> send_page \<Rightarrow> send_page \<times> payment list" where
  "page_run uuids [] p = (p, [])"
| "page_run uuids (e # es) p =
     (case page_step uuids e p of (p1, a) \<Rightarrow> (case page_run uuids es p1 of (p2, b) \<Rightarrow> (p2, a @ b)))"

section \<open>Runs\<close>

lemma page_run_append:
  "page_run uuids (xs @ ys) p =
     (fst (page_run uuids ys (fst (page_run uuids xs p))),
      snd (page_run uuids xs p) @ snd (page_run uuids ys (fst (page_run uuids xs p))))"
  by (induction xs arbitrary: p) (simp_all split: prod.splits)

definition renews :: "page_event \<Rightarrow> bool" where
  "renews e \<longleftrightarrow> (case e of Send_Done _ _ \<Rightarrow> True | Leave \<Rightarrow> True | _ \<Rightarrow> False)"

lemma step_keeps_key:
  assumes "\<not> renews e"
  shows "pg_key (fst (page_step uuids e p)) = pg_key p" and "y \<in> set (snd (page_step uuids e p)) \<Longrightarrow> py_key y = pg_key p"
  using assms
  by (cases e; auto simp: renews_def page_updates payment_of_def split: lookup_reply.splits option.splits if_splits)+

text \<open>
  The page never tries an unanswered payment again under another key: until a success was received or
  the page was left, all the payments it sends, after whatever failures and edits, carry one idempotency
  key.
\<close>

theorem retries_keep_the_key:
  assumes "\<forall>e\<in>set es. \<not> renews e" and "y \<in> set (snd (page_run uuids es p))"
  shows "py_key y = pg_key p"
  using assms
proof (induction es arbitrary: p)
  case (Cons e es)
  obtain p1 a where s: "page_step uuids e p = (p1, a)" by fastforce
  have "\<not> renews e" using Cons.prems(1) by simp
  note K = step_keeps_key [OF this, where uuids = uuids and p = p, unfolded s, simplified]
  from Cons.prems(2) s have "y \<in> set a \<or> y \<in> set (snd (page_run uuids es p1))" by (auto split: prod.splits)
  with K Cons.IH [of p1] Cons.prems(1) show ?case by auto
qed simp

text \<open>A pending payment was authorised with its PIN and not undone since.\<close>

lemma pending_step:
  assumes "pg_pending (fst (page_step uuids e p)) = Some (pin, t0)"
  shows "e = Confirm pin t0 \<or> (pg_pending p = Some (pin, t0) \<and> e \<noteq> Undo \<and> e \<noteq> Leave)"
  using assms
  by (cases e) (auto simp: page_updates split: lookup_reply.splits option.splits if_splits prod.splits)

lemma pending_authorised:
  assumes "pg_pending p = None"
  shows "pg_pending (fst (page_run uuids xs p)) = Some (pin, t0) \<Longrightarrow>
    \<exists>us vs. xs = us @ Confirm pin t0 # vs \<and> Undo \<notin> set vs \<and> Leave \<notin> set vs"
proof (induction xs rule: rev_induct)
  case Nil
  with assms show ?case by simp
next
  case (snoc e xs)
  then have "pg_pending (fst (page_step uuids e (fst (page_run uuids xs p)))) = Some (pin, t0)"
    by (simp add: page_run_append split: prod.splits)
  from pending_step [OF this] show ?case
  proof (elim disjE conjE)
    assume "e = Confirm pin t0"
    then show ?thesis by (intro exI [of _ xs] exI [of _ "[]"]) simp
  next
    assume a: "pg_pending (fst (page_run uuids xs p)) = Some (pin, t0)" "e \<noteq> Undo" "e \<noteq> Leave"
    from snoc.IH [OF a(1)] obtain us vs where "xs = us @ Confirm pin t0 # vs" "Undo \<notin> set vs" "Leave \<notin> set vs" by blast
    with a(2,3) show ?thesis by (intro exI [of _ us] exI [of _ "vs @ [e]"]) simp
  qed
qed

text \<open>
  C26. A payment is sent only by the end of the countdown: when an event makes the page send, it is a tick
  at least five seconds after the payment was authorised with this PIN, and neither an undo nor leaving
  the page came in between. What is sent is the form as it is at that tick, which need not be the form
  that was authorised: the witness edits the amount during the countdown.
\<close>

theorem sent_after_countdown:
  assumes "y \<in> set (snd (page_step uuids e (fst (page_run uuids xs (mounted uuids n)))))"
  shows "\<exists>t t0 us vs. e = Tick t \<and> xs = us @ Confirm (py_pin y) t0 # vs \<and> Undo \<notin> set vs \<and> Leave \<notin> set vs \<and>
    t0 + WINDOW_MS \<le> t \<and> y = payment_of (fst (page_run uuids xs (mounted uuids n))) (py_pin y)"
proof -
  let ?p = "fst (page_run uuids xs (mounted uuids n))"
  from assms obtain t t0 pin where e: "e = Tick t" "pg_pending ?p = Some (pin, t0)" "t0 + WINDOW_MS \<le> t" "y = payment_of ?p pin"
    by (cases e) (auto simp: time_left_def split: option.splits if_splits)
  have pin: "py_pin y = pin" using e(4) by (simp add: payment_of_def)
  have "pg_pending (mounted uuids n) = None" by (simp add: mounted_def)
  from pending_authorised [OF this e(2)] e pin show ?thesis by auto
qed

text \<open>One taka is authorised, nine are sent.\<close>

definition edited :: "page_event list" where
  "edited = [Type_Phone ''01722222222'', Looked_Up (Found ''Bob'' False), Type_Amount ''1'', Submit False, Confirm ''1234'' 0,
     Type_Amount ''9'']"

lemma edited_authorised: "pg_amount (fst (page_run (\<lambda>_. ''k'') (take 5 edited) (mounted (\<lambda>_. ''k'') 0))) = ''100''"
  by code_simp

lemma edited_sends:
  "snd (page_step (\<lambda>_. ''k'') (Tick 5000) (fst (page_run (\<lambda>_. ''k'') edited (mounted (\<lambda>_. ''k'') 0)))) =
     [\<lparr>py_phone = ''01722222222'', py_amount = ''900'', py_note = None, py_pin = ''1234'', py_key = ''k''\<rparr>]"
  by code_simp

lemma sent_after_countdown_witness:
  "\<exists>y us vs. y \<in> set (snd (page_step (\<lambda>_. ''k'') (Tick 5000) (fst (page_run (\<lambda>_. ''k'') edited (mounted (\<lambda>_. ''k'') 0))))) \<and>
     edited = us @ Confirm (py_pin y) 0 # vs \<and> py_amount y = ''900'' \<and>
     pg_amount (fst (page_run (\<lambda>_. ''k'') (us @ [Confirm (py_pin y) 0]) (mounted (\<lambda>_. ''k'') 0))) = ''100''"
proof -
  let ?y = "\<lparr>py_phone = ''01722222222'', py_amount = ''900'', py_note = None, py_pin = ''1234'', py_key = ''k''\<rparr>"
  have y: "?y \<in> set (snd (page_step (\<lambda>_. ''k'') (Tick 5000) (fst (page_run (\<lambda>_. ''k'') edited (mounted (\<lambda>_. ''k'') 0)))))"
    by (simp only: edited_sends list.set) blast
  from sent_after_countdown [OF y] obtain t0 us vs where "edited = us @ Confirm ''1234'' t0 # vs" by auto
  then have "t0 = 0" "us = take 4 edited" "vs = drop 5 edited"
    by (auto simp: edited_def Cons_eq_append_conv)
  with y edited_authorised show ?thesis
    by (intro exI [of _ ?y] exI [of _ "take 4 edited"] exI [of _ "drop 5 edited"]) (simp add: edited_def)
qed

lemma retries_keep_the_key_witness:
  "\<exists>y. snd (page_run (\<lambda>n. if n = 0 then ''k'' else ''l'') (edited @ [Tick 5000]) (mounted (\<lambda>n. if n = 0 then ''k'' else ''l'') 0)) = [y] \<and> py_key y = ''k''"
proof -
  let ?u = "\<lambda>n. if n = 0 then ''k'' else ''l''"
  have "snd (page_run ?u (edited @ [Tick 5000]) (mounted ?u (0::nat))) =
      [\<lparr>py_phone = ''01722222222'', py_amount = ''900'', py_note = None, py_pin = ''1234'', py_key = ''k''\<rparr>]"
    by code_simp
  then obtain y where y: "snd (page_run ?u (edited @ [Tick 5000]) (mounted ?u 0)) = [y]" by blast
  have "\<forall>e\<in>set (edited @ [Tick 5000]). \<not> renews e" by (simp add: edited_def renews_def)
  from retries_keep_the_key [OF this, of y ?u "mounted ?u 0"] y show ?thesis by (simp add: mounted_def)
qed

end
