(* ===== verification/Pages.thy ===== *)
theory Pages
  imports Send_Page Schemas
begin

text \<open>
  The typed calls of \<open>frontend/src/lib/api.ts\<close>, and the forms of \<open>pages/Splits.tsx\<close>, \<open>pages/Requests.tsx\<close>,
  \<open>pages/Schedules.tsx\<close> and \<open>pages/History.tsx\<close> that submit a movement or a promise of money.
\<close>

section \<open>The typed calls\<close>

definition keyed_call :: "string \<Rightarrow> json \<Rightarrow> string \<Rightarrow> string \<times> request_options" where
  "keyed_call path body key = (path, \<lparr>ro_method = POST, ro_body = Some body, ro_key = Some key, ro_headers = []\<rparr>)"

definition unkeyed_call :: "http_method \<Rightarrow> string \<Rightarrow> json option \<Rightarrow> string \<times> request_options" where
  "unkeyed_call verb path body = (path, \<lparr>ro_method = verb, ro_body = body, ro_key = None, ro_headers = []\<rparr>)"

definition pin_body :: "string \<Rightarrow> json" where
  "pin_body pin = JObj [(''pin'', JStr pin)]"

definition register_call where "register_call input = unkeyed_call POST ''/auth/register'' (Some input)"

definition login_call where "login_call input = unkeyed_call POST ''/auth/login'' (Some input)"

definition logout_call where
  "logout_call token = unkeyed_call POST ''/auth/logout'' (Some (JObj [(''refreshToken'', JStr token)]))"

definition set_freeze_call where
  "set_freeze_call frozen pin = unkeyed_call PATCH ''/accounts/me/freeze''
     (Some (JObj ((''frozen'', JBool frozen) # (if truthy pin then [(''pin'', JStr (the pin))] else []))))"

definition send_call where "send_call input key = keyed_call ''/transfers'' input key"

definition reverse_call where
  "reverse_call reference pin key = keyed_call (''/transfers/'' @ reference @ ''/reverse'') (pin_body pin) key"

definition create_request_call where "create_request_call input key = keyed_call ''/requests'' input key"

definition accept_request_call where
  "accept_request_call i pin key = keyed_call (''/requests/'' @ i @ ''/accept'') (pin_body pin) key"

definition decline_request_call where
  "decline_request_call i reason = unkeyed_call POST (''/requests/'' @ i @ ''/decline'')
     (Some (JObj [(''reason'', case reason of None \<Rightarrow> JUndef | Some r \<Rightarrow> JStr r)]))"

definition cancel_request_call where
  "cancel_request_call i = unkeyed_call POST (''/requests/'' @ i @ ''/cancel'') (Some (JObj []))"

definition create_schedule_call where "create_schedule_call input key = keyed_call ''/schedules'' input key"

definition pause_schedule_call where
  "pause_schedule_call i = unkeyed_call POST (''/schedules/'' @ i @ ''/pause'') (Some (JObj []))"

definition resume_schedule_call where
  "resume_schedule_call i = unkeyed_call POST (''/schedules/'' @ i @ ''/resume'') (Some (JObj []))"

definition cancel_schedule_call where "cancel_schedule_call i = unkeyed_call DELETE (''/schedules/'' @ i) None"

definition create_split_call where "create_split_call input key = keyed_call ''/splits'' input key"

definition mark_read_call where
  "mark_read_call i = unkeyed_call POST (''/notifications/'' @ i @ ''/read'') (Some (JObj []))"

section \<open>Splitting a bill\<close>

record split_form =
  sf_description :: string
  sf_total :: string
  sf_include_self :: bool
  sf_phones :: "string list"

definition sf_participants :: "split_form \<Rightarrow> string list" where
  "sf_participants f = filter (\<lambda>phone. length phone = 11) (map js_trim (sf_phones f))"

definition headcount :: "split_form \<Rightarrow> int" where
  "headcount f = int (length (sf_participants f)) + (if sf_include_self f then 1 else 0)"

definition sf_amount :: "split_form \<Rightarrow> int" where
  "sf_amount f = big_int (if sf_total f = [] then ''0'' else sf_total f)"

definition split_preview :: "split_form \<Rightarrow> int list" where
  "split_preview f =
     (let n = headcount f; total = sf_amount f in
      if 0 < n \<and> 0 < total
      then map (\<lambda>index. if int index < big_rem total n then big_div total n + 1 else big_div total n) [0..<nat n]
      else [])"

definition split_body :: "split_form \<Rightarrow> json" where
  "split_body f = JObj [(''totalAmountMinor'', JStr (sf_total f)), (''description'', JStr (sf_description f)),
     (''participants'', JArr (map (\<lambda>phone. JObj [(''phone'', JStr phone)]) (sf_participants f))),
     (''includeSelf'', JBool (sf_include_self f))]"

text \<open>The submit button is enabled.\<close>

definition can_split :: "split_form \<Rightarrow> bool" where
  "can_split f \<longleftrightarrow> sf_participants f \<noteq> [] \<and> 0 < sf_amount f \<and> sf_description f \<noteq> []"

section \<open>Submitting\<close>

text \<open>These pages mint the key of a call when they make it.\<close>

definition submit where
  "submit uuids fetch call t w =
     (case new_idempotency_key uuids t of
        (key, t1) \<Rightarrow> (case call key of (path, opts) \<Rightarrow> api uuids fetch path opts t1 w))"

definition create_split_page where
  "create_split_page uuids fetch f t w = submit uuids fetch (create_split_call (split_body f)) t w"

text \<open>\<open>ask\<close> and \<open>pay\<close> of the requests' page, \<open>reverse\<close> of the history's.\<close>

definition ask_body :: "string \<Rightarrow> string \<Rightarrow> string \<Rightarrow> json" where
  "ask_body phone amount note = JObj ([(''fromPhone'', JStr phone), (''amountMinor'', JStr amount)] @
     (if note = [] then [] else [(''note'', JStr note)]))"

definition ask_page where
  "ask_page uuids fetch phone amount note t w = submit uuids fetch (create_request_call (ask_body phone amount note)) t w"

definition pay_page where
  "pay_page uuids fetch i pin t w = submit uuids fetch (accept_request_call i pin) t w"

definition reverse_page where
  "reverse_page uuids fetch reference pin t w = submit uuids fetch (reverse_call reference pin) t w"

text \<open>The body of a new schedule; the start is the text \<open>toISOString\<close> gives.\<close>

record schedule_form =
  sc_phone :: string
  sc_amount :: string
  sc_interval :: string
  sc_start :: string
  sc_total_runs :: string
  sc_note :: string

definition schedule_body :: "schedule_form \<Rightarrow> string \<Rightarrow> json" where
  "schedule_body f pin = JObj ([(''toPhone'', JStr (sc_phone f)), (''amountMinor'', JStr (sc_amount f)),
     (''intervalKind'', JStr (sc_interval f)), (''startAt'', JStr (sc_start f))] @
     (if sc_total_runs f = [] then [] else [(''totalRuns'', JNum (int_text (int (digits_val (sc_total_runs f)))))]) @
     (if sc_note f = [] then [] else [(''note'', JStr (sc_note f))]) @ [(''pin'', JStr pin)])"

definition create_schedule_page where
  "create_schedule_page uuids fetch f pin t w = submit uuids fetch (create_schedule_call (schedule_body f pin)) t w"

section \<open>The preview of a split\<close>

lemma js_trim_twice: "js_trim (js_trim s) = js_trim s"
proof (cases "js_trim s = []")
  case False
  let ?t = "dropWhile js_space s"
  have t: "?t \<noteq> []" using False unfolding js_trim_def by (metis dropWhile.simps(1) rev.simps(1))
  have r: "dropWhile js_space (rev ?t) \<noteq> []" using False by (simp add: js_trim_def)
  have "\<not> js_space (last (js_trim s))" using hd_dropWhile [of js_space "rev ?t"] r by (simp add: js_trim_def last_rev)
  moreover have "hd (js_trim s) = hd ?t"
  proof -
    obtain w where w: "rev ?t = w @ dropWhile js_space (rev ?t)" by (metis takeWhile_dropWhile_id)
    then have "?t = js_trim s @ rev w" unfolding js_trim_def by (metis rev_append rev_rev_ident)
    with False show ?thesis by (metis hd_append2)
  qed
  moreover have "\<not> js_space (hd ?t)" by (rule hd_dropWhile [OF t])
  ultimately show ?thesis using False by (intro js_trim_id) auto
next
  case True
  show ?thesis unfolding True by (simp add: js_trim_def)
qed

lemma those_participants:
  "those (map (\<lambda>phone. participant_schema (JObj [(''phone'', JStr phone)])) ps) = Some xs \<Longrightarrow>
     \<forall>phone\<in>set ps. js_trim phone = phone \<Longrightarrow>
     map pt_phone xs = ps \<and> list_all (\<lambda>p. pt_weight p = None) xs"
  by (induction ps arbitrary: xs)
    (auto simp: participant_schema_def phone_schema_def object_def optional_def Let_def split: option.splits if_splits)

text \<open>The server reads of a form the same people and total, and no weights.\<close>

lemma split_body_read:
  assumes "create_split_schema (split_body f) = Some i"
  shows "cs_total i = sf_amount f" and "cs_include_self i = sf_include_self f"
    and "map pt_phone (cs_participants i) = sf_participants f" and "list_all (\<lambda>p. pt_weight p = None) (cs_participants i)"
proof -
  have trim: "\<forall>phone\<in>set (sf_participants f). js_trim phone = phone"
    by (auto simp: sf_participants_def js_trim_twice)
  obtain total ps where t: "amount_minor_schema (JStr (sf_total f)) = Some total" "cs_total i = total"
    and p: "participants_schema (JArr (map (\<lambda>phone. JObj [(''phone'', JStr phone)]) (sf_participants f))) = Some ps" "cs_participants i = ps"
    and s: "cs_include_self i = sf_include_self f"
    using assms by (auto simp: create_split_schema_def split_body_def or_default_def boolean_def object_def split: Option.bind_splits if_splits)
  show "cs_include_self i = sf_include_self f" by (rule s)
  show "cs_total i = sf_amount f"
    using t by (auto simp: amount_minor_schema_def amount_text_def sf_amount_def split: if_splits)
  have "those (map (\<lambda>phone. participant_schema (JObj [(''phone'', JStr phone)])) (sf_participants f)) = Some (cs_participants i)"
    using p by (simp add: participants_schema_def comp_def split: if_splits)
  from those_participants [OF this trim]
  show "map pt_phone (cs_participants i) = sf_participants f" and "list_all (\<lambda>p. pt_weight p = None) (cs_participants i)" by auto
qed

text \<open>
  C31. The preview of a split cannot promise another split than the one that is made: for every form whose
  body the server accepts, the shares the page shows are exactly the shares the server allocates for what
  it read, they sum to the bill, and the shares asked of the others, after the creator's own, are as many
  as the people of the form.
\<close>

theorem preview_is_allocation:
  assumes "create_split_schema (split_body f) = Some i"
  shows "split_allocate i = Inr (split_preview f) \<and> sum_list (split_preview f) = sf_amount f \<and>
    leg_shares i (split_preview f) = drop (if sf_include_self f then 1 else 0) (split_preview f) \<and>
    length (leg_shares i (split_preview f)) = length (sf_participants f)"
proof -
  note r = split_body_read [OF assms]
  note ok = split_accepted [OF assms]
  have n: "length (cs_participants i) = length (sf_participants f)" by (metis r(3) length_map)
  have w: "\<not> list_all (\<lambda>p. pt_weight p \<noteq> None) (cs_participants i)"
    using ok r(4) by (cases "cs_participants i") auto
  have h: "0 < headcount f" and a0: "0 < sf_amount f" using n ok r(1) by (auto simp: headcount_def)
  have e: "allocate_evenly (sf_amount f) (headcount f) = Inr (split_preview f)"
    using h a0 by (simp add: allocate_evenly_def split_preview_def Let_def)
  have a: "split_allocate i = Inr (split_preview f)"
    using w e r(1,2) n by (simp add: split_allocate_def headcount_def)
  have t: "sum_list (split_preview f) = sf_amount f"
    by (rule allocate_evenly_ok [of "sf_amount f" "headcount f"]) (use e h a0 in auto)
  have l: "length (split_preview f) = nat (headcount f)" using h a0 by (simp add: split_preview_def Let_def)
  show ?thesis
    using a t l n h r(2) by (auto simp: leg_shares_def headcount_def)
qed

text \<open>Three people share a taka: 34, 33 and 33 poisha.\<close>

definition tea :: split_form where
  "tea = \<lparr>sf_description = ''Tea'', sf_total = amount_typed ''1'', sf_include_self = True,
     sf_phones = [''01722222222'', ''01733333333'', '''']\<rparr>"

definition tea_input :: create_split_input where
  "tea_input = \<lparr>cs_total = 100, cs_description = ''Tea'',
     cs_participants = [\<lparr>pt_phone = ''01722222222'', pt_weight = None\<rparr>, \<lparr>pt_phone = ''01733333333'', pt_weight = None\<rparr>],
     cs_include_self = True, cs_self_weight = 1, cs_expires_in_days = 7\<rparr>"

lemma tea_amount: "sf_amount tea = 100" by code_simp

lemma tea_people: "sf_participants tea = [''01722222222'', ''01733333333'']"
  by (simp add: sf_participants_def tea_def js_trim_def js_space_def)

lemma tea_preview: "split_preview tea = [34, 33, 33]"
  by (simp add: split_preview_def headcount_def tea_amount tea_people Let_def big_div_def big_rem_def upt_rec,
      simp add: tea_def big_div_def big_rem_def upt_rec)

lemma tea_read: "create_split_schema (split_body tea) = Some tea_input"
proof -
  have t: "sf_total tea = ''100''" by code_simp
  have p: "phone_ok ''01722222222''" "phone_ok ''01733333333''" by (simp_all add: phone_ok_def is_digit_def)
  have j: "js_trim ''01722222222'' = ''01722222222''" "js_trim ''01733333333'' = ''01733333333''" "js_trim ''Tea'' = ''Tea''"
    by (simp_all add: js_trim_def js_space_def)
  have a: "amount_minor_schema (JStr ''100'') = Some 100"
    by (simp add: amount_minor_schema_def amount_text_def is_digit_def big_int_def digits_val_Cons digit_val_def)
  show ?thesis
    by (simp add: split_body_def tea_people t a create_split_schema_def participants_schema_def participant_schema_def phone_schema_def
        trimmed_text_def sized_text_def optional_def or_default_def boolean_def object_def p j Let_def,
      simp add: tea_def tea_input_def trimmed_text_def sized_text_def j)
qed

lemma preview_is_allocation_witness: "split_allocate tea_input = Inr [34, 33, 33]"
  using preview_is_allocation [OF tea_read] tea_preview by simp

section \<open>A form submitted again\<close>

text \<open>A network that loses every reply, and the requests it was given.\<close>

definition silent :: "http_request list fetch" where
  "silent q w = (Inl Network_Error, w @ [q])"

definition attempt_under :: "string \<Rightarrow> json \<Rightarrow> string \<Rightarrow> tab \<Rightarrow> http_request" where
  "attempt_under path body key t =
     request_of path \<lparr>ro_method = POST, ro_body = Some body, ro_key = Some key, ro_headers = []\<rparr> (Some key) t"

lemma submit_silent:
  "submit uuids silent (keyed_call path body) t w =
     (case new_idempotency_key uuids t of
        (key, t1) \<Rightarrow> (Inl Network_Error, t1, w @ [attempt_under path body key t1, attempt_under path body key t1]))"
  by (simp add: submit_def new_idempotency_key_def keyed_call_def api_def mutating_def attempt_call_def silent_def
      call_retryable_def attempt_under_def)

text \<open>
  The retry of the client repeats the key, but a form submitted again after its reply was lost mints
  another: the server sees two intents, and makes two schedules, requests or splits.
\<close>

lemma resubmitted_form_has_new_key:
  assumes "uuids n \<noteq> []" and "uuids (Suc n) \<noteq> []" and "tab_minted t = n"
    and "submit uuids silent (keyed_call path body) t w = (r1, t1, w1)"
    and "submit uuids silent (keyed_call path body) t1 w1 = (r2, t2, w2)"
  shows "\<exists>a b c e. w2 = w @ [a, b, c, e] \<and> header_key a = Some (uuids n) \<and> header_key b = Some (uuids n) \<and>
    header_key c = Some (uuids (Suc n)) \<and> header_key e = Some (uuids (Suc n))"
proof -
  have q: "header_key (attempt_under path body key t) = Some key" if "key \<noteq> []" for key t
    unfolding attempt_under_def
    by (rule call_header_key [OF that, of path "\<lparr>ro_method = POST, ro_body = Some body, ro_key = Some key, ro_headers = []\<rparr>"])
      (auto simp: call_request_def)
  from assms(4,5) have "w2 = w @ [attempt_under path body (uuids n) t1, attempt_under path body (uuids n) t1,
      attempt_under path body (uuids (Suc n)) t2, attempt_under path body (uuids (Suc n)) t2]"
    by (auto simp: submit_silent new_idempotency_key_def assms(3))
  with q [OF assms(1)] q [OF assms(2)] show ?thesis by blast
qed

end
