(* ===== verification/Worker_Loop.thy ===== *)
theory Worker_Loop
  imports Calls Samples
begin

text \<open>
  \<open>workers/index.ts\<close>: the loop that runs a worker again and again, and what the three workers report to it.
  The timers and the ends of the ticks are events, which come in any order the runtime allows.
\<close>

section \<open>The loop\<close>

text \<open>The flag, the time for which the timer is set, and the ticks in flight.\<close>

record worker_loop =
  wl_stopped :: bool
  wl_timer :: "int option"
  wl_running :: nat

definition schedule_tick :: "int \<Rightarrow> int \<Rightarrow> worker_loop \<Rightarrow> worker_loop" where
  "schedule_tick t delay s = (if wl_stopped s then s else s\<lparr>wl_timer := Some (t + delay)\<rparr>)"

definition started_loop :: "int \<Rightarrow> int \<Rightarrow> worker_loop" where
  "started_loop t interval = schedule_tick t interval \<lparr>wl_stopped = False, wl_timer = None, wl_running = 0\<rparr>"

definition fire :: "worker_loop \<Rightarrow> worker_loop" where
  "fire s = s\<lparr>wl_timer := None, wl_running := Suc (wl_running s)\<rparr>"

text \<open>A tick ended at time t, with an error or a report whether it had work.\<close>

definition after_tick :: "int \<Rightarrow> int \<Rightarrow> exn + bool \<Rightarrow> worker_loop \<Rightarrow> worker_loop" where
  "after_tick interval t r s =
     schedule_tick t (if r = Inr True then 0 else interval) (s\<lparr>wl_running := wl_running s - 1\<rparr>)"

definition stop_loop :: "worker_loop \<Rightarrow> worker_loop" where
  "stop_loop s = s\<lparr>wl_stopped := True, wl_timer := None\<rparr>"

text \<open>\<open>stop\<close> returns once no tick is in flight.\<close>

definition stop_returns :: "worker_loop \<Rightarrow> bool" where
  "stop_returns s \<longleftrightarrow> wl_stopped s \<and> wl_running s = 0"

section \<open>The workers\<close>

definition outbox_tick :: "(exn \<Rightarrow> string) \<Rightarrow> nat \<Rightarrow> (nat \<Rightarrow> env) \<Rightarrow> db \<Rightarrow> (exn + bool) \<times> db" where
  "outbox_tick message_of limit envs d =
     map_prod (map_sum id (\<lambda>(r, _). 0 < dr_claimed r)) id (dispatch_batch message_of limit envs d)"

definition expiry_tick :: "nat \<Rightarrow> (nat \<Rightarrow> env) \<Rightarrow> db \<Rightarrow> (exn + bool) \<times> db" where
  "expiry_tick limit envs d = map_prod (map_sum id (\<lambda>(expired, _). 0 < expired)) id (expire_requests limit envs d)"

definition scheduler_tick :: "nat \<Rightarrow> (nat \<Rightarrow> env) \<Rightarrow> (nat \<Rightarrow> nat \<Rightarrow> env) \<Rightarrow> db \<Rightarrow> (exn + bool) \<times> db" where
  "scheduler_tick limit renvs envss d =
     map_prod (map_sum id (\<lambda>r. 0 < tk_paid r + tk_failed r + tk_skipped r + tk_duplicate r)) id
       (run_due_schedules limit renvs envss d)"

inductive worker :: "(db \<Rightarrow> (exn + bool) \<times> db) \<Rightarrow> bool" where
  Outbox: "worker (outbox_tick message_of limit envs)"
| Expiry: "worker (expiry_tick limit envs)"
| Scheduler: "worker (scheduler_tick limit renvs envss)"

inductive_cases workerE: "worker work"

section \<open>Runs of a loop\<close>

text \<open>
  A loop beside the database. A tick takes effect when it ends; between its events the users and the other
  loops run transactions of their own.
\<close>

inductive loop_step :: "int \<Rightarrow> worker_loop \<times> db \<Rightarrow> worker_loop \<times> db \<Rightarrow> bool" for interval where
  Fire: "wl_timer s = Some due \<Longrightarrow> due \<le> t \<Longrightarrow> loop_step interval (s, d) (fire s, d)"
| Finish: "0 < wl_running s \<Longrightarrow> worker work \<Longrightarrow> work d = (r, d') \<Longrightarrow>
    loop_step interval (s, d) (after_tick interval t r s, d')"
| Stop_Loop: "loop_step interval (s, d) (stop_loop s, d)"
| Others: "step d d' \<Longrightarrow> loop_step interval (s, d) (s, d')"

inductive_cases loop_stepE: "loop_step interval (s, d) (s', d')"

abbreviation loop_steps :: "int \<Rightarrow> worker_loop \<times> db \<Rightarrow> worker_loop \<times> db \<Rightarrow> bool" where
  "loop_steps interval \<equiv> (loop_step interval)\<^sup>*\<^sup>*"

definition loop_ok :: "worker_loop \<Rightarrow> bool" where
  "loop_ok s \<longleftrightarrow> wl_running s \<le> 1 \<and> (wl_timer s = None \<or> wl_running s = 0) \<and>
     (if wl_stopped s then wl_timer s = None else wl_timer s \<noteq> None \<or> wl_running s = 1)"

lemma loop_ok_moves [intro]:
  "loop_ok (started_loop t interval)"
  "loop_ok s \<Longrightarrow> wl_timer s = Some due \<Longrightarrow> loop_ok (fire s)"
  "loop_ok s \<Longrightarrow> 0 < wl_running s \<Longrightarrow> loop_ok (after_tick interval t r s)"
  "loop_ok s \<Longrightarrow> loop_ok (stop_loop s)"
  by (auto simp: loop_ok_def started_loop_def fire_def after_tick_def stop_loop_def schedule_tick_def split: if_splits)

lemma worker_steps: "worker work \<Longrightarrow> work d = (r, d') \<Longrightarrow> steps d d'"
  by (erule workerE)
    (auto simp: outbox_tick_def expiry_tick_def scheduler_tick_def dispatch_batch_def map_prod_def
      split: prod.splits intro: expire_steps due_steps_tick steps_one Dispatch)

lemma loop_step_ok: "loop_step interval x y \<Longrightarrow> loop_ok (fst x) \<Longrightarrow> loop_ok (fst y) \<and> steps (snd x) (snd y)"
  by (induction rule: loop_step.induct) (auto intro: worker_steps)

lemma loop_steps_ok: "loop_steps interval x y \<Longrightarrow> loop_ok (fst x) \<Longrightarrow> loop_ok (fst y) \<and> steps (snd x) (snd y)"
proof (induction rule: rtranclp_induct)
  case (step y z)
  with loop_step_ok [OF step.hyps(2)] show ?case by (auto intro: rtranclp_trans)
qed simp

text \<open>A loop whose stop returned never runs its worker again.\<close>

lemma stop_is_final:
  assumes "loop_steps interval x y" and "stop_returns (fst x)" and "loop_ok (fst x)"
  shows "fst y = fst x"
  using assms(1)
proof (induction rule: rtranclp_induct)
  case (step y z)
  from step.hyps(2) step.IH assms(2,3) show ?case
    by (cases rule: loop_step.cases) (auto simp: stop_returns_def loop_ok_def stop_loop_def)
qed simp

text \<open>
  C27. A worker's loop never runs two ticks at once and never dies: while it is not stopped, whatever its
  ticks throw, either one tick is in flight or the timer is set for the next, not both; once it is
  stopped no timer is set, so no tick starts; and the database it leaves is reached by whole transactions.
\<close>

theorem loop_runs_one_tick:
  assumes "loop_steps interval (started_loop t interval, d) (s, d')"
  shows "wl_running s \<le> 1 \<and> (wl_timer s = None \<or> wl_running s = 0) \<and>
    (\<not> wl_stopped s \<longrightarrow> wl_timer s \<noteq> None \<or> wl_running s = 1) \<and> (wl_stopped s \<longrightarrow> wl_timer s = None) \<and> steps d d'"
proof -
  have "loop_ok s \<and> steps d d'" using loop_steps_ok [OF assms] by auto
  then show ?thesis by (auto simp: loop_ok_def)
qed

text \<open>The expiry worker fires after a minute, finds no connection, and is set for a minute later.\<close>

lemma expiry_fails:
  "expiry_tick 200 (\<lambda>_. env0\<lparr>connect_fault := Some (JsError (Some ''ECONNREFUSED'') [])\<rparr>) d = (Inl (JsError (Some ''ECONNREFUSED'') []), d)"
  by (simp add: expiry_tick_def expire_requests_def transact_def numeral_3_eq_3)

lemma loop_runs_one_tick_witness:
  "\<exists>s. loop_steps 60000 (started_loop 0 60000, initial_db) (s, initial_db) \<and> wl_timer s = Some 120010 \<and> wl_running s = 0"
proof -
  let ?s0 = "started_loop 0 60000"
  let ?s2 = "after_tick 60000 60010 (Inl (JsError (Some ''ECONNREFUSED'') [])) (fire ?s0)"
  have 1: "loop_step 60000 (?s0, initial_db) (fire ?s0, initial_db)"
    by (rule Fire [of _ 60000 60000]) (simp_all add: started_loop_def schedule_tick_def)
  have 2: "loop_step 60000 (fire ?s0, initial_db) (?s2, initial_db)"
    by (rule Finish [OF _ Expiry expiry_fails]) (simp add: fire_def)
  have r: "loop_steps 60000 (?s0, initial_db) (?s2, initial_db)" using 1 2 by (auto intro: rtranclp.rtrancl_into_rtrancl)
  have t: "wl_timer ?s2 = Some 120010" by (simp add: after_tick_def fire_def started_loop_def schedule_tick_def)
  with loop_runs_one_tick [OF r] have "wl_running ?s2 = 0" by simp
  with r t show ?thesis by blast
qed

end
