(* ===== verification/Spec2Isabelle.thy ===== *)
theory Spec2Isabelle
  imports Split_Safety Accounts Reconciliation Balance_Cache Migrations Routes Read_Safety Episodes Bank Lasting
    Auth_Safety Statement_Safety Retry_Safety Refreshing Send_Page Pages Worker_Loop
begin

text \<open>
  TakaFlow: the ledger of a mobile wallet.

  The repository (\<open>src/takaflow\<close>) is a wallet for one country: users register, are given a signup bonus from
  a treasury, send money by phone number, ask each other for money, split bills, and order payments for
  later. A Fastify server (\<open>backend/src\<close>) keeps everything in Postgres, with Redis as a cache; a React client
  (\<open>frontend/src\<close>) calls it. The program's rule is that money moves in one place only, \<open>postDoubleEntry\<close>, inside
  one transaction with everything that explains the movement, and that every call may be repeated.

  \<^bold>\<open>How the program is modelled.\<close> A database is a record of tables, each the list of its rows in the order of
  insertion (Database). A SQL statement is a function on it; a transaction is a function from the
  environment and the state to an error or a value (Transaction): the environment holds the clocks, the
  random bytes, the configuration, the hash and signature functions and, for every statement, the fault it
  may meet. \<open>transact\<close> is the retry loop of \<open>withTransaction\<close>: at most three attempts, on a fresh view of
  the database each, committed all or nothing, with a commit that can fail or whose answer can be lost. A
  statement outside a transaction is \<open>pool_query\<close>. An error is a value of \<open>exn\<close> (Errors), which the error handler
  turns into a reply. What the code does before or after a transaction is composed around it as written.
  Transactions of different callers interleave as whole steps: the waiting of row locks is not modelled, the
  order in which they are taken is (\<open>note_lock\<close>).

  \<^bold>\<open>The parts, and the files they model.\<close>
  \<^item> values: Money and Js_Text (\<open>shared/money.ts\<close>), Allocate (\<open>shared/allocate.ts\<close>), Timestamp, Instants and
    Calendar (\<open>shared/timestamp.ts\<close> and the dates of the language), Cursor, Uuid and Json (\<open>shared/cursor.ts\<close>)
  \<^item> platform: Errors (\<open>platform/errors\<close>, \<open>platform/http/error-handler.ts\<close>), Transaction (\<open>platform/db/transaction.ts\<close>),
    Idempotency (\<open>platform/idempotency/store.ts\<close>), Outbox (\<open>platform/outbox\<close>), Balance_Cache (\<open>platform/cache\<close>),
    Read_Router (\<open>platform/db/read-router.ts\<close>), Migrations (\<open>platform/db/migrate.ts\<close>), Database (\<open>config/index.ts\<close> and the
    schema of \<open>backend/migrations\<close>)
  \<^item> money: Ledger (\<open>ledger.service.ts\<close>), Transfers (\<open>transfer.service.ts\<close>, \<open>transfer.repo.ts\<close>, \<open>velocity.service.ts\<close>),
    Reversal (\<open>reversal.service.ts\<close>), History and Statement (\<open>history.*.ts\<close>, \<open>statement.service.ts\<close>)
  \<^item> promises of money: Requests (\<open>modules/requests\<close>), Splits (\<open>modules/splits\<close>), Schedules, Schedule_Service
    and Schedule_Worker (\<open>modules/schedules\<close>, \<open>workers/schedule.worker.ts\<close>)
  \<^item> people: Auth (\<open>modules/auth\<close>, \<open>platform/auth\<close>), Accounts (\<open>modules/accounts\<close>, \<open>modules/admin/admin.service.ts\<close>),
    Notifications (\<open>modules/notifications\<close>), Reconciliation (\<open>modules/admin/reconciliation.service.ts\<close>)
  \<^item> workers: Dispatcher (\<open>workers/outbox.dispatcher.ts\<close>), Worker_Loop (\<open>workers/index.ts\<close>)
  \<^item> routes: Schemas, Routes and Handlers (the \<open>*.schemas.ts\<close> files, the guards of \<open>platform/http\<close>, the \<open>*.routes.ts\<close> files)
  \<^item> client: Client and Refreshing (\<open>frontend/src/lib/api.ts\<close>), Send_Page (\<open>pages/Send.tsx\<close> with its countdown),
    Pages (the typed calls and the other forms)

  \<^bold>\<open>What is shown.\<close> Invariants gives the interface of the whole program: \<open>step\<close>, one transaction or statement
  of any part, \<open>reachable\<close>, and the locale under which a property of the database is kept by every step.
  Safety interprets it on the books, the idempotency keys, the requests, the occurrences of schedules and
  the reversals; Settlement states once what requests and occurrences share. This theory draws the
  conclusions: the books balance, keys name one response, requests and occurrences are settled once,
  transfers reversed once, ended requests stay as they are, users are told once, reconciliation
  passes. Bank is the abstract specification, accounts with balances and guarded events, which every step
  refines. Money_Safety, Progress, Auth_Safety, References, History_Pages, Statement_Safety, Read_Safety and
  the \<open>*_Safety\<close> theories of the components say what each operation does, on success and on
  refusal. Calls shows that what users, operators and workers call is a sequence of steps, and
  Retry_Safety joins the client and the server: under one key the server acts once, whatever the network
  loses. Samples, World and Episodes hold the concrete databases the witnesses run on.

  \<^bold>\<open>Bounds.\<close> Three attempts per transaction, the code's own number. A walk along the cursors of a listing has
  as much fuel as there are rows and one more, and a statement one page per row and one more: each page
  but the last holds a row, so the fuel is enough, which the theorems about them prove by giving a result.
  The drains of the workers run as many batches as the code allows.

  \<^bold>\<open>Parameters.\<close> The network, the password and token functions, random bytes, the clocks, the values the
  sequences of the identity columns give (\<open>drawn_entries\<close>, \<open>drawn_audit\<close>), the faults of the database and of Redis, the replica and its lag, and the formats (dates, uuids) of the validation library. Each is
  an argument of the definitions that use it.

  \<^bold>\<open>Not modelled.\<close> The parsing of query strings and the GET routes around the modelled listings, the wiring of the server and its
  health checks, metrics and log lines, which nothing reads back, the pools and connections of the drivers,
  the rendering of the pages, the pages that only show data, and the scripts that demonstrate or test the
  system from outside.
\<close>


section \<open>The calls are sequences of transactions\<close>

text \<open>
  C3. Every call of a user or an operator and every run of the workers changes the database by whole
  transactions of the program only, whatever it returns and whatever fails: what it leaves is reached
  by steps, so the invariants of reachable databases hold between all of them.
\<close>

theorem calls_are_steps:
  "steps d (snd (register_user registration ctx env envs d)) \<and> steps d (snd (login_user phone pw ctx env penv envs d)) \<and>
   steps d (snd (refresh token ctx envs d)) \<and> steps d (snd (logout token envs d)) \<and>
   steps d (snd (send_money u key transfer raw ctx env penvs envs d)) \<and>
   steps d (snd (reverse_transfer u ref key pin raw ctx env penvs envs d)) \<and>
   steps d (snd (create_request u key request raw ctx env envs d)) \<and>
   steps d (snd (accept_request u q key pin raw ctx env penvs envs d)) \<and>
   steps d (snd (decline_request u q reason ctx envs d)) \<and> steps d (snd (cancel_request u q ctx envs d)) \<and>
   steps d (snd (create_split u key bill raw ctx env envs d)) \<and>
   steps d (snd (create_schedule u key order raw ctx env penvs envs d)) \<and>
   steps d (snd (pause_schedule u i ctx envs d)) \<and> steps d (snd (resume_schedule u i ctx envs d)) \<and>
   steps d (snd (cancel_schedule u i ctx envs d)) \<and>
   steps d (snd (set_own_freeze u frozen given ctx env penvs envs d)) \<and>
   steps d (snd (set_account_status setting ctx envs d)) \<and> steps d (snd (mark_read u i env d)) \<and>
   steps d (snd (make_due i env d)) \<and> steps d (snd (run_workers msg renvss envsss eenvs oenvss d))"
  by (intro conjI call_steps)

section \<open>Reachable databases\<close>

text \<open>
  C1. In every reachable database the balances sum to zero, every stored balance is the signed sum of
  the account's entries, no user is overdrawn, and every transfer has a positive amount and exactly
  its debit and its credit entry.
\<close>

theorem books_always_balance:
  assumes "reachable d"
  shows "sum_list (map a_balance_minor (accounts_t d)) = 0 \<and>
    (\<forall>a\<in>set (accounts_t d). a_balance_minor a = entry_sum (a_id a) d \<and> (a_type a = USER \<longrightarrow> 0 \<le> a_balance_minor a)) \<and>
    (\<forall>t\<in>set (transfers_t d). 0 < t_amount_minor t \<and> complete_entry t d)"
  using books.always [OF assms] by (auto simp: ledger_ok_def accounts_ok_def transfers_ok_def)

lemma books_always_balance_witness:
  "\<exists>d. settled_world d \<and> sum_list (map a_balance_minor (accounts_t d)) = 0"
  using settled_world settled_reachable books_always_balance by blast

text \<open>
  C10. Reconciliation never reports a problem the program made: run on a reachable database, every
  report it returns is PASS.
\<close>

theorem reconciliation_always_passes:
  assumes "reachable d" and "reconcile envs d = (Inr r, d')"
  shows "rr_pass r \<and> d' = d"
  using reconciled_books [OF books.always [OF assms(1)] keys.always [OF assms(1)] assms(2)] .

lemma reconciliation_always_passes_witness: "\<exists>r. reconcile (\<lambda>_. env0) initial_db = (Inr r, initial_db) \<and> rr_pass r"
proof -
  obtain r d' where r: "reconcile (\<lambda>_. env0) initial_db = (Inr r, d')" using reconcile_returns [of "\<lambda>_. env0" initial_db] by auto
  from reconciliation_always_passes [OF Start r] r show ?thesis by blast
qed

text \<open>
  C2. Every step of the program refines the abstract bank: on the account rows it is a sequence of
  openings, movements and status changes, where a movement is of a positive amount, from an active
  account that covers it or is the treasury's, to an account that is not closed.
\<close>

theorem steps_refine_bank:
  assumes "reachable d" and "step d d'"
  shows "bank_steps (bank_of d) (bank_of d')"
  by (rule step_refines [OF assms(2) books.always [OF assms(1)]])

lemma steps_refine_bank_witness: "\<exists>d'. alice_in d' \<and> bank_steps (bank_of initial_db) (bank_of d')"
  using alice_step steps_refine_bank [OF Start] by blast

text \<open>
  C5. A money request is accepted exactly when it names a transfer; that transfer is a settlement of
  the request's amount from the payer's account to the requester's, and settles no other request.
\<close>

theorem requests_settled_once:
  assumes "reachable d" and "r \<in> set (requests_t d)"
  shows "(r_status r = R_ACCEPTED \<longleftrightarrow> r_settled_transfer_id r \<noteq> None) \<and>
    (\<forall>i. r_settled_transfer_id r = Some i \<longrightarrow> (\<exists>t\<in>set (transfers_t d). t_id t = i \<and> settles d t r) \<and>
       (\<forall>q\<in>set (requests_t d). r_settled_transfer_id q = Some i \<longrightarrow> q = r))"
proof -
  have "settled_rows requests_t r_id r_settled_transfer_id accepted request_well settles d"
    using reqs.always [OF assms(1)] by (simp add: requests_ok_def)
  from settled_onceD [where rows = requests_t, OF this assms(2)] show ?thesis by (simp add: accepted_def)
qed

lemma requests_settled_once_witness:
  "\<exists>d r i. settled_world d \<and> requests_t d = [r] \<and> r_settled_transfer_id r = Some i \<and>
     (\<exists>t\<in>set (transfers_t d). t_id t = i \<and> settles d t r)"
proof -
  obtain d where d: "settled_world d" using settled_world by blast
  obtain r where r: "requests_t d = [r]" "r_status r = R_ACCEPTED" by (rule settled_request [OF d])
  from requests_settled_once [OF settled_reachable [OF d], of r] d r show ?thesis by fastforce
qed

text \<open>
  C6. An occurrence of a schedule is PAID exactly when it names a transfer; that transfer is of the
  schedule's amount, from its owner to its payee, pays no other occurrence, and no two occurrences
  have the same identity.
\<close>

theorem occurrences_paid_once:
  assumes "reachable d" and "x \<in> set (occurrences_t d)"
  shows "(o_status x = O_PAID \<longleftrightarrow> o_transfer_id x \<noteq> None) \<and>
    (\<forall>i. o_transfer_id x = Some i \<longrightarrow> (\<exists>t\<in>set (transfers_t d). t_id t = i \<and> pays d t x) \<and>
       (\<forall>q\<in>set (occurrences_t d). o_transfer_id q = Some i \<longrightarrow> q = x)) \<and>
    (\<forall>q\<in>set (occurrences_t d). o_occurrence_key q = o_occurrence_key x \<longrightarrow> q = x)"
proof -
  have ok: "occurrences_ok d" using occs.always [OF assms(1)] by simp
  then have k: "keyed o_occurrence_key (occurrences_t d)" by (simp add: occurrences_ok_def)
  from ok have "settled_rows occurrences_t o_id o_transfer_id occurrence_paid occurrence_well pays d"
    by (simp add: occurrences_ok_def occurrences_settled_def)
  from settled_onceD [where rows = occurrences_t, OF this assms(2)] keyed_inj [OF k _ assms(2)] show ?thesis
    by (auto simp: occurrence_paid_def)
qed

lemma occurrences_paid_once_witness:
  "\<exists>d x i t. reachable d \<and> x \<in> set (occurrences_t d) \<and> o_status x = O_PAID \<and> o_transfer_id x = Some i \<and>
     t \<in> set (transfers_t d) \<and> t_id t = i \<and> pays d t x"
proof -
  obtain d x where d: "reachable d" "x \<in> set (occurrences_t d)" "o_status x = O_PAID"
    using paid_world unfolding paid_world_def by auto
  note once = occurrences_paid_once [OF d(1,2)]
  with d(3) obtain i where i: "o_transfer_id x = Some i" by blast
  with once obtain t where "t \<in> set (transfers_t d)" "t_id t = i" "pays d t x" by blast
  with d i show ?thesis by blast
qed

text \<open>
  C7. A transfer is undone at most once: every reversal undoes a transfer of the same amount in the
  opposite direction that is then REVERSED and is neither a mint nor itself a reversal, every REVERSED
  transfer has such a reversal, and no other reversal names the same original.
\<close>

theorem reversed_once:
  assumes "reachable d" and "r \<in> set (transfers_t d)"
  shows "(t_type r = REVERSAL \<longrightarrow> (\<exists>orig\<in>set (transfers_t d). undoes r orig)) \<and>
    (t_status r = T_REVERSED \<longrightarrow> (\<exists>q\<in>set (transfers_t d). undoes q r)) \<and>
    (\<forall>q\<in>set (transfers_t d). \<forall>orig. undoes r orig \<and> undoes q orig \<longrightarrow> q = r)"
proof -
  have u: "undone (transfers_t d)" and k: "keyed t_id (transfers_t d)"
    using revs.always [OF assms(1)] by (simp_all add: reversals_ok_def ledger_ok_def transfers_ok_def)
  from u have o: "once t_id t_reversal_of (transfers_t d)" by (simp add: undone_def)
  have "q = r" if q: "q \<in> set (transfers_t d)" "undoes r orig" "undoes q orig" for q orig
  proof -
    have "t_reversal_of r = t_reversal_of q \<and> t_reversal_of r \<noteq> None" using q by (simp add: undoes_def)
    with o assms(2) q(1) have "t_id r = t_id q" unfolding once_def by blast
    with keyed_inj [OF k assms(2) q(1)] show ?thesis by simp
  qed
  then have "\<forall>q\<in>set (transfers_t d). \<forall>orig. undoes r orig \<and> undoes q orig \<longrightarrow> q = r" by blast
  with u assms(2) show ?thesis unfolding undone_def by blast
qed

lemma reversed_once_witness:
  "\<exists>d r q. reachable d \<and> r \<in> set (transfers_t d) \<and> t_status r = T_REVERSED \<and> q \<in> set (transfers_t d) \<and> undoes q r \<and>
     (\<forall>p\<in>set (transfers_t d). undoes p r \<longrightarrow> p = q)"
proof -
  let ?r = "sent_row\<lparr>t_status := T_REVERSED\<rparr>"
  obtain d where d: "reachable d" "?r \<in> set (transfers_t d)" using undone_world unfolding undone_world_def by blast
  have s: "t_status ?r = T_REVERSED" by simp
  with reversed_once [OF d] obtain q where q: "q \<in> set (transfers_t d)" "undoes q ?r" by blast
  from reversed_once [OF d(1) q(1)] d q s show ?thesis by blast
qed

text \<open>
  C9. A user is told of an event at most once, and only of an event whose delivery was committed with
  the notification.
\<close>

theorem notified_once:
  assumes "reachable d" and "n \<in> set (notifications_t d)"
  shows "(\<exists>x\<in>set (outbox_t d). x_id x = n_event_id n \<and> x_status x = X_PROCESSED) \<and>
    (\<forall>m\<in>set (notifications_t d). n_user_id m = n_user_id n \<and> n_event_id m = n_event_id n \<longrightarrow> m = n)"
proof -
  have ok: "notes_ok d" by (rule inbox.always [OF assms(1)])
  then have "keyed (\<lambda>n. (n_user_id n, n_event_id n)) (notifications_t d)" by (simp add: notes_ok_def)
  from keyed_inj [OF this _ assms(2)] ok assms(2) show ?thesis by (auto simp: notes_ok_def)
qed

lemma notified_once_witness:
  "\<exists>d n x. reachable d \<and> n \<in> set (notifications_t d) \<and> n_user_id n = 9 \<and> x \<in> set (outbox_t d) \<and>
     x_id x = n_event_id n \<and> x_status x = X_PROCESSED"
proof -
  obtain d n where d: "reachable d" "n \<in> set (notifications_t d)" "n_user_id n = 9"
    using told_world unfolding told_world_def by auto
  from notified_once [OF d(1,2)] d show ?thesis by blast
qed

section \<open>What is recorded stays recorded\<close>

text \<open>
  C4. An idempotency key names one response for ever: once a call under it has returned, whatever
  transactions run in between, any later call of that user under that key that returns, at any of the
  six endpoints, returns the stored status and body marked as replayed and changes nothing.
\<close>

theorem key_names_one_response:
  assumes "reachable d" and "endpoint u key fn" and "transact fn envs d = (Inr (r, hs), d1)"
    and "steps d1 d2" and "endpoint u key fn'" and "transact fn' envs' d2 = (Inr (r', hs'), d3)"
  shows "out_status r' = out_status r \<and> out_body r' = out_body r \<and> out_replayed r' \<and> d3 = d2"
  by (rule same_response [OF keys.always [OF assms(1)] assms(2-6)])

lemma key_names_one_response_witness:
  "\<exists>d fn r hs d1 r' hs'. reachable d \<and> endpoint 14 ''key-00001'' fn \<and>
     transact fn (\<lambda>_. env0) d = (Inr (r, hs), d1) \<and> transact fn (\<lambda>_. env0) d1 = (Inr (r', hs'), d1) \<and>
     out_body r' = out_body r \<and> out_replayed r'"
proof -
  let ?fn = "create_request_tx 14 ''key-00001'' ask JNull ctx0"
  have e: "endpoint 14 ''key-00001'' ?fn" by (rule endpoint.intros)
  obtain d where d: "reachable d" "started d" using started_world by blast
  obtain r hs d1 where 1: "transact ?fn (\<lambda>_. env0) d = (Inr (r, hs), d1)" "asked d d1"
    using runs_transact [OF bob_asks [OF d(2)]] by blast
  obtain r' hs' d2 where 2: "transact ?fn (\<lambda>_. env0) d1 = (Inr (r', hs'), d2)"
    using runs_transact [OF bob_asks_again [OF 1(2)]] by blast
  from key_names_one_response [OF d(1) e 1(1) steps_refl e 2] d(1) e 1(1) 2 show ?thesis by blast
qed

text \<open>
  C8. A request that was accepted, declined, cancelled or expired is never changed again: its row is
  in every database reached later.
\<close>

theorem ended_requests_stay:
  assumes "reachable d" and "r \<in> set (requests_t d)" and "r_status r \<noteq> R_PENDING" and "steps d d'"
  shows "r \<in> set (requests_t d')"
proof -
  have "requests_ok d" using reqs.always [OF assms(1)] by simp
  then have "lasting r d" using assms(2,3) req.ok_keyed [of d] by (auto simp: lasting_def requests_ok_def settled_rows_def settled_row_def)
  from ended.steps_keep [OF assms(4) this] show ?thesis by (simp add: lasting_def)
qed

lemma ended_requests_stay_witness: "\<exists>d r. settled_world d \<and> (\<forall>d'. steps d d' \<longrightarrow> r \<in> set (requests_t d'))"
proof -
  obtain d where d: "settled_world d" using settled_world by blast
  obtain r where r: "requests_t d = [r]" "r_status r = R_ACCEPTED" by (rule settled_request [OF d])
  from ended_requests_stay [OF settled_reachable [OF d], of r] d r show ?thesis by fastforce
qed

end
